(* ===== verification/Prelude.thy ===== *)
theory Prelude
  imports Main "HOL-Library.Word"
begin

text \<open>
  Shared vocabulary of the development.

  \<^item> machine integers keep their width (\<open>u8\<close> .. \<open>u64\<close>, \<open>i32\<close>); arithmetic that Rust
    checks in a debug build and wraps in a release build takes the build as an argument;
  \<^item> \<open>duration\<close> and \<open>instant\<close> are nanoseconds: \<open>std::time::Duration\<close> and a monotonic
    \<open>std::time::Instant\<close>. The clock is read by the caller and passed in;
  \<^item> \<open>outcome\<close> is a Rust \<open>Result\<close> with the panic as a third case;
  \<^item> the locales \<open>invariant_machine\<close>, \<open>simulation\<close> and \<open>codec\<close> are the contracts that several
    components share: an invariant kept by every operation, a step-by-step refinement of an
    abstract machine, and an encoder whose decoder undoes it.
\<close>

named_theorems inv_intro \<open>operations keep the invariant of their component\<close>
named_theorems frame \<open>what an operation leaves alone\<close>

section \<open>Integers, time, results\<close>

type_synonym u8 = "8 word"
type_synonym u16 = "16 word"
type_synonym u32 = "32 word"
type_synonym u64 = "64 word"
type_synonym i32 = "32 word"

type_synonym duration = nat
type_synonym instant = nat

abbreviation from_secs :: "nat \<Rightarrow> duration" where
  "from_secs n \<equiv> n * 1000000000"

abbreviation from_millis :: "nat \<Rightarrow> duration" where
  "from_millis n \<equiv> n * 1000000"

abbreviation as_millis :: "duration \<Rightarrow> nat" where
  "as_millis d \<equiv> d div 1000000"

abbreviation as_micros :: "duration \<Rightarrow> nat" where
  "as_micros d \<equiv> d div 1000"

text \<open>\<open>Instant::elapsed\<close> saturates at zero, as subtraction on \<open>nat\<close> does.\<close>

abbreviation elapsed :: "instant \<Rightarrow> instant \<Rightarrow> duration" where
  "elapsed now start \<equiv> now - start"

datatype ('e, 'a) outcome = Ok 'a | Err 'e | Panic

fun is_ok :: "('e, 'a) outcome \<Rightarrow> bool" where
  "is_ok (Ok _) = True"
| "is_ok _ = False"

fun and_then :: "('e, 'a) outcome \<Rightarrow> ('a \<Rightarrow> ('e, 'b) outcome) \<Rightarrow> ('e, 'b) outcome" where
  "and_then (Ok a) f = f a"
| "and_then (Err e) f = Err e"
| "and_then Panic f = Panic"

fun ok_or :: "'a option \<Rightarrow> 'e \<Rightarrow> ('e, 'a) outcome" where
  "ok_or None e = Err e"
| "ok_or (Some a) e = Ok a"

lemma and_then_eq_Ok: "and_then m f = Ok b \<longleftrightarrow> (\<exists>a. m = Ok a \<and> f a = Ok b)"
  by (cases m) auto

lemma and_then_eq_Err: "and_then m f = Err e \<longleftrightarrow> m = Err e \<or> (\<exists>a. m = Ok a \<and> f a = Err e)"
  by (cases m) auto

lemma and_then_eq_Panic: "and_then m f = Panic \<longleftrightarrow> m = Panic \<or> (\<exists>a. m = Ok a \<and> f a = Panic)"
  by (cases m) auto

lemma ok_or_eq_Ok [simp]: "ok_or x e = Ok a \<longleftrightarrow> x = Some a"
  by (cases x) auto

lemma ok_or_neq_Panic [simp]: "ok_or x e \<noteq> Panic"
  by (cases x) auto

section \<open>Arithmetic as the two build profiles do it\<close>

text \<open>
  The workspace sets no \<open>overflow-checks\<close>, so \<open>+\<close> and \<open>-\<close> on integers panic in a debug
  build (\<open>None\<close>) and wrap in a release build.
\<close>

datatype build = Debug | Release

definition uadd :: "build \<Rightarrow> 'w::len word \<Rightarrow> 'w word \<Rightarrow> 'w word option" where
  "uadd b x y = (if b = Debug \<and> unat x + unat y \<ge> 2 ^ LENGTH('w) then None else Some (x + y))"

definition usub :: "build \<Rightarrow> 'w::len word \<Rightarrow> 'w word \<Rightarrow> 'w word option" where
  "usub b x y = (if b = Debug \<and> unat x < unat y then None else Some (x - y))"

definition umul :: "build \<Rightarrow> 'w::len word \<Rightarrow> 'w word \<Rightarrow> 'w word option" where
  "umul b x y = (if b = Debug \<and> unat x * unat y \<ge> 2 ^ LENGTH('w) then None else Some (x * y))"

lemma uadd_in_range:
  "unat x + unat y < 2 ^ LENGTH('w) \<Longrightarrow> uadd b (x :: 'w::len word) y = Some (x + y)"
  by (auto simp: uadd_def)

lemma uadd_Release [simp]: "uadd Release x y = Some (x + y)"
  by (simp add: uadd_def)

lemma usub_in_range: "unat y \<le> unat x \<Longrightarrow> usub b x y = Some (x - y)"
  by (auto simp: usub_def)

lemma uadd_Some_eq: "uadd b x y = Some z \<Longrightarrow> z = x + y"
  by (auto simp: uadd_def split: if_splits)

lemma unat_add_in_range:
  "unat x + unat y < 2 ^ LENGTH('w) \<Longrightarrow> unat (x + y :: 'w::len word) = unat x + unat y"
  by (simp add: unat_word_ariths)

lemma unat_suc_in_range:
  "Suc (unat x) < 2 ^ LENGTH('w) \<Longrightarrow> unat (x + 1 :: 'w::len word) = Suc (unat x)"
  by (subst unat_add_in_range) (auto simp: unat_1)

lemma unat_bound: "unat (x :: 'w::len word) < 2 ^ LENGTH('w)"
  by (rule unsigned_less)

lemma unat_ucast_wider:
  assumes "LENGTH('v::len) \<le> LENGTH('w::len)"
  shows "unat (ucast (x :: 'v word) :: 'w word) = unat x"
proof -
  have "unat x < 2 ^ LENGTH('v)" by (rule unat_bound)
  also have "(2 :: nat) ^ LENGTH('v) \<le> 2 ^ LENGTH('w)"
    using assms by (intro power_increasing) simp_all
  finally show ?thesis
    by (simp add: unsigned_ucast_eq take_bit_nat_eq_self)
qed

section \<open>Machines with an invariant\<close>

fun run :: "('s \<Rightarrow> 'e \<Rightarrow> 's) \<Rightarrow> 's \<Rightarrow> 'e list \<Rightarrow> 's" where
  "run step s [] = s"
| "run step s (e # es) = run step (step s e) es"

lemma run_append [simp]: "run step s (es @ fs) = run step (run step s es) fs"
  by (induction es arbitrary: s) auto

locale invariant_machine =
  fixes step :: "'s \<Rightarrow> 'e \<Rightarrow> 's"
    and good :: "'s \<Rightarrow> bool"
  assumes step_good: "good s \<Longrightarrow> good (step s e)"
begin

lemma run_good: "good s \<Longrightarrow> good (run step s es)"
  by (induction es arbitrary: s) (auto intro: step_good)

lemma run_prefix_good: "good s \<Longrightarrow> good (run step s (take n es))"
  by (rule run_good)

end

text \<open>
  A refinement: on good states, one concrete step is one abstract step, and what the client
  observes of the concrete state is what it observes of its abstraction.
\<close>

locale simulation = invariant_machine step good
  for step :: "'s \<Rightarrow> 'e \<Rightarrow> 's" and good :: "'s \<Rightarrow> bool" +
  fixes astep :: "'a \<Rightarrow> 'e \<Rightarrow> 'a"
    and absf :: "'s \<Rightarrow> 'a"
  assumes step_sim: "good s \<Longrightarrow> absf (step s e) = astep (absf s) e"
begin

lemma run_sim: "good s \<Longrightarrow> absf (run step s es) = run astep (absf s) es"
  by (induction es arbitrary: s) (auto simp flip: step_sim intro: step_good)

end

section \<open>Encoders and decoders\<close>

locale codec =
  fixes enc :: "'a \<Rightarrow> 'b"
    and dec :: "'b \<Rightarrow> 'a option"
  assumes dec_enc: "dec (enc a) = Some a"
begin

lemma enc_inject: "enc a = enc b \<longleftrightarrow> a = b"
  by (metis dec_enc option.inject)

lemma enc_inj: "inj enc"
  by (rule injI) (simp add: enc_inject)

lemma dec_None_no_enc: "dec y = None \<Longrightarrow> y \<noteq> enc a"
  using dec_enc by auto

lemma dec_list: "map (dec \<circ> enc) xs = map Some xs"
  by (simp add: dec_enc)

end

text \<open>A codec whose decoder accepts nothing but what the encoder writes.\<close>

locale exact_codec = codec +
  assumes enc_dec: "dec y = Some a \<Longrightarrow> enc a = y"
begin

lemma dec_Some_iff: "dec y = Some a \<longleftrightarrow> y = enc a"
  using enc_dec dec_enc by auto

lemma dec_inject: "dec x = Some a \<Longrightarrow> dec y = Some a \<Longrightarrow> x = y"
  by (simp add: dec_Some_iff)

end

section \<open>Maps\<close>

text \<open>
  \<open>HashMap::get_mut\<close> followed by an update of the entry: an absent key is left absent.
\<close>

definition map_adjust :: "'k \<Rightarrow> ('v \<Rightarrow> 'v) \<Rightarrow> ('k \<rightharpoonup> 'v) \<Rightarrow> ('k \<rightharpoonup> 'v)" where
  "map_adjust k f m = (case m k of None \<Rightarrow> m | Some v \<Rightarrow> m(k \<mapsto> f v))"

lemma dom_map_adjust [simp]: "dom (map_adjust k f m) = dom m"
  by (auto simp: map_adjust_def split: option.splits)

lemma map_adjust_same [simp]: "map_adjust k f m k = map_option f (m k)"
  by (simp add: map_adjust_def split: option.splits)

lemma map_adjust_other [simp]: "j \<noteq> k \<Longrightarrow> map_adjust k f m j = m j"
  by (simp add: map_adjust_def split: option.splits)

lemma set_map_filter_eq: "set (List.map_filter f xs) = {y. \<exists>x\<in>set xs. f x = Some y}"
  by (induction xs) (auto simp: map_filter_simps split: option.splits)

section \<open>Maximum of a list\<close>

fun list_max :: "nat list \<Rightarrow> nat" where
  "list_max [] = 0"
| "list_max (x # xs) = max x (list_max xs)"

lemma list_max_snoc [simp]: "list_max (xs @ [x]) = max (list_max xs) x"
  by (induction xs) auto

lemma list_max_ge: "x \<in> set xs \<Longrightarrow> x \<le> list_max xs"
  by (induction xs) (auto simp: le_max_iff_disj)

lemma list_max_in: "xs \<noteq> [] \<Longrightarrow> list_max xs \<in> set xs"
  by (induction xs rule: list_nonempty_induct) (auto simp: max_def)

lemma sum_list_le_max: "sum_list xs \<le> length xs * list_max xs"
proof (induction xs)
  case (Cons x xs)
  have "length xs * list_max xs \<le> length xs * max x (list_max xs)" by (rule mult_le_mono2) simp
  with Cons have "sum_list xs \<le> length xs * max x (list_max xs)" by (rule order_trans)
  then show ?case by (simp add: add_mono)
qed simp

section \<open>Updating a list at an index\<close>

lemma list_all_update: "list_all P xs \<Longrightarrow> P x \<Longrightarrow> list_all P (xs[i := x])"
  by (auto simp: list_all_iff dest: set_update_subset_insert [THEN subsetD])

lemma sum_list_map_update:
  "i < length xs \<Longrightarrow>
     sum_list (map f (xs[i := y])) = sum_list (map f xs) + (f y - f (xs ! i) :: 'a :: ab_group_add)"
proof (induction xs arbitrary: i)
  case (Cons x xs)
  then show ?case by (cases i) simp_all
qed simp

lemma sum_list_map_kept:
  assumes "q = sum_list (map f xs)" "i < length xs" "q' - f y = q - (f (xs ! i) :: 'a :: ab_group_add)"
  shows "q' = sum_list (map f (xs[i := y]))"
  using assms(3) by (simp add: sum_list_map_update [OF assms(2)] assms(1) [symmetric] algebra_simps)

lemma sum_list_map_less:
  assumes "i < length xs" "f y < (f (xs ! i) :: nat)"
  shows "sum_list (map f (xs[i := y])) < sum_list (map f xs)"
  using assms
proof (induction xs arbitrary: i)
  case (Cons x xs)
  then show ?case by (cases i) simp_all
qed simp

end
