(* ===== verification/Policy_Breaker.thy ===== *)
theory Policy_Breaker
  imports Prelude
begin

text \<open>
  The circuit breaker of \<open>crates/duende-policy/src/circuit_breaker.rs\<close>.

  \<open>circuit_breaker\<close> is the struct, one definition per method; \<open>breaker_step\<close> runs one call.
  The clock is an argument of the calls that read it. The last section opens the calls up: the
  locks and atomics make \<open>open\<close> and \<open>close\<close> sequences of separate writes, which threads interleave.
\<close>

section \<open>State and operations\<close>

datatype circuit_state = Closed | Open | HalfOpen

record circuit_breaker =
  cstate :: circuit_state
  failure_threshold :: u32
  failure_count :: u64
  success_count :: u64
  recovery_timeout :: duration
  opened_at :: "instant option"

definition breaker_new :: "u32 \<Rightarrow> duration \<Rightarrow> circuit_breaker" where
  "breaker_new threshold timeout =
     \<lparr>cstate = Closed, failure_threshold = threshold, failure_count = 0, success_count = 0,
      recovery_timeout = timeout, opened_at = None\<rparr>"

definition breaker_default :: circuit_breaker where
  "breaker_default = breaker_new 5 (from_secs 30)"

definition breaker_open :: "instant \<Rightarrow> circuit_breaker \<Rightarrow> circuit_breaker" where
  "breaker_open now b = b\<lparr>cstate := Open, opened_at := Some now, success_count := 0\<rparr>"

definition breaker_close :: "circuit_breaker \<Rightarrow> circuit_breaker" where
  "breaker_close b =
     b\<lparr>cstate := Closed, failure_count := 0, success_count := 0, opened_at := None\<rparr>"

definition should_transition :: "instant \<Rightarrow> circuit_breaker \<Rightarrow> bool" where
  "should_transition now b =
     (case opened_at b of Some opened \<Rightarrow> recovery_timeout b \<le> elapsed now opened | None \<Rightarrow> False)"

definition maybe_transition :: "instant \<Rightarrow> circuit_breaker \<Rightarrow> circuit_breaker" where
  "maybe_transition now b =
     (if cstate b \<noteq> Open then b
      else if should_transition now b then b\<lparr>cstate := HalfOpen, success_count := 0\<rparr>
      else b)"

definition breaker_state :: "instant \<Rightarrow> circuit_breaker \<Rightarrow> circuit_state \<times> circuit_breaker" where
  "breaker_state now b = (let b' = maybe_transition now b in (cstate b', b'))"

definition breaker_allow :: "instant \<Rightarrow> circuit_breaker \<Rightarrow> bool \<times> circuit_breaker" where
  "breaker_allow now b =
     (let b' = maybe_transition now b
      in (case cstate b' of Closed \<Rightarrow> True | HalfOpen \<Rightarrow> True | Open \<Rightarrow> False, b'))"

text \<open>
  \<open>fetch_add\<close> wraps in both builds; the \<open>+ 1\<close> on its result panics in a debug build when the
  counter was at its maximum. \<open>record_panics\<close> is that case; the recorders give the state of the
  calls that do not panic.
\<close>

definition record_success_panics :: "build \<Rightarrow> circuit_breaker \<Rightarrow> bool" where
  "record_success_panics bld b \<longleftrightarrow> cstate b = HalfOpen \<and> uadd bld (success_count b) 1 = None"

definition record_failure_panics :: "build \<Rightarrow> circuit_breaker \<Rightarrow> bool" where
  "record_failure_panics bld b \<longleftrightarrow> cstate b = Closed \<and> uadd bld (failure_count b) 1 = None"

definition record_success :: "circuit_breaker \<Rightarrow> circuit_breaker" where
  "record_success b =
     (case cstate b of
        Closed \<Rightarrow> b\<lparr>failure_count := 0\<rparr>
      | HalfOpen \<Rightarrow>
          (let count = success_count b + 1; b' = b\<lparr>success_count := success_count b + 1\<rparr>
           in if 3 \<le> count then breaker_close b' else b')
      | Open \<Rightarrow> b)"

definition record_failure :: "instant \<Rightarrow> circuit_breaker \<Rightarrow> circuit_breaker" where
  "record_failure now b =
     (case cstate b of
        Closed \<Rightarrow>
          (let count = failure_count b + 1; b' = b\<lparr>failure_count := failure_count b + 1\<rparr>
           in if ucast (failure_threshold b) \<le> count then breaker_open now b' else b')
      | HalfOpen \<Rightarrow> breaker_open now b
      | Open \<Rightarrow> b)"

definition breaker_reset :: "circuit_breaker \<Rightarrow> circuit_breaker" where
  "breaker_reset b = breaker_close b"

lemmas breaker_defs = breaker_new_def breaker_open_def breaker_close_def should_transition_def
  maybe_transition_def breaker_state_def breaker_allow_def record_success_def record_failure_def
  breaker_reset_def

datatype breaker_call = Allow instant | StateQuery instant | Success | Failure instant | Reset

fun breaker_step :: "circuit_breaker \<Rightarrow> breaker_call \<Rightarrow> circuit_breaker" where
  "breaker_step b (Allow now) = snd (breaker_allow now b)"
| "breaker_step b (StateQuery now) = snd (breaker_state now b)"
| "breaker_step b Success = record_success b"
| "breaker_step b (Failure now) = record_failure now b"
| "breaker_step b Reset = breaker_reset b"

section \<open>Well-formed breakers\<close>

definition breaker_wf :: "circuit_breaker \<Rightarrow> bool" where
  "breaker_wf b \<longleftrightarrow>
     (case cstate b of
        Closed \<Rightarrow> opened_at b = None \<and> success_count b = 0 \<and>
          (failure_count b = 0 \<or> unat (failure_count b) < unat (failure_threshold b))
      | Open \<Rightarrow> opened_at b \<noteq> None \<and> success_count b = 0
      | HalfOpen \<Rightarrow> opened_at b \<noteq> None \<and> unat (success_count b) < 3)"

lemma breaker_new_wf [inv_intro]: "breaker_wf (breaker_new n d)"
  by (simp add: breaker_wf_def breaker_defs)

lemma breaker_open_wf [inv_intro]: "breaker_wf (breaker_open now b)"
  by (simp add: breaker_wf_def breaker_defs)

lemma breaker_close_wf [inv_intro]: "breaker_wf (breaker_close b)"
  by (simp add: breaker_wf_def breaker_defs)

lemma maybe_transition_wf [inv_intro]: "breaker_wf b \<Longrightarrow> breaker_wf (maybe_transition now b)"
  by (simp add: breaker_wf_def breaker_defs split: circuit_state.splits option.splits)

lemma unat_threshold: "unat (ucast (n :: u32) :: u64) = unat n"
  by (rule unat_ucast_wider) simp

lemma unat_threshold_bound: "unat (n :: u32) < 4294967296"
  using unat_bound [of n] by simp

lemma threshold_le_iff: "(ucast (n :: u32) :: u64) \<le> c \<longleftrightarrow> unat n \<le> unat c"
  by (simp add: word_le_nat_alt unat_threshold)

text \<open>On a well-formed breaker neither counter is anywhere near its width.\<close>

lemma closed_count_suc:
  assumes "breaker_wf b" "cstate b = Closed"
  shows "unat (failure_count b + 1) = Suc (unat (failure_count b))"
proof -
  have "unat (failure_count b) < 4294967296"
    using assms unat_threshold_bound [of "failure_threshold b"]
    by (auto simp: breaker_wf_def)
  then show ?thesis by (intro unat_suc_in_range) simp
qed

lemma half_open_count_suc:
  assumes "breaker_wf b" "cstate b = HalfOpen"
  shows "unat (success_count b + 1) = Suc (unat (success_count b))"
  using assms by (intro unat_suc_in_range) (simp add: breaker_wf_def)

lemma record_success_wf [inv_intro]:
  assumes "breaker_wf b" shows "breaker_wf (record_success b)"
proof (cases "cstate b")
  case HalfOpen
  with assms show ?thesis
    using half_open_count_suc [OF assms HalfOpen]
    by (simp add: record_success_def Let_def breaker_close_wf word_le_nat_alt)
       (simp add: breaker_wf_def)
qed (use assms in \<open>simp_all add: record_success_def breaker_wf_def\<close>)

lemma record_failure_wf [inv_intro]:
  assumes "breaker_wf b" shows "breaker_wf (record_failure now b)"
proof (cases "cstate b")
  case Closed
  with assms show ?thesis
    using closed_count_suc [OF assms Closed]
    by (simp add: record_failure_def Let_def breaker_open_wf threshold_le_iff)
       (simp add: breaker_wf_def)
qed (use assms in \<open>simp_all add: record_failure_def breaker_wf_def breaker_open_def\<close>)

lemma breaker_step_wf [inv_intro]: "breaker_wf b \<Longrightarrow> breaker_wf (breaker_step b e)"
  by (cases e)
     (simp_all add: breaker_allow_def breaker_state_def Let_def breaker_reset_def
        maybe_transition_wf record_success_wf record_failure_wf breaker_close_wf)

lemma record_never_panics:
  assumes "breaker_wf b"
  shows "\<not> record_success_panics bld b" and "\<not> record_failure_panics bld b"
proof -
  show "\<not> record_success_panics bld b"
    using assms by (auto simp: record_success_panics_def breaker_wf_def uadd_def)
  have "cstate b = Closed \<Longrightarrow> unat (failure_count b) < 4294967296"
    using assms unat_threshold_bound [of "failure_threshold b"] by (auto simp: breaker_wf_def)
  then show "\<not> record_failure_panics bld b"
    by (auto simp: record_failure_panics_def uadd_def)
qed

section \<open>The three-state specification and the refinement\<close>

text \<open>
  What a circuit breaker promises, without counters of a width or optional timestamps: closed
  after \<open>k\<close> failures in a row, open since \<open>t\<close>, or half-open after \<open>k\<close> successful probes.
\<close>

datatype phase = PClosed nat | POpen instant | PHalf nat

type_synonym breaker_spec = "nat \<times> duration \<times> phase"

fun phase_settle :: "duration \<Rightarrow> instant \<Rightarrow> phase \<Rightarrow> phase" where
  "phase_settle d now (POpen t) = (if d \<le> elapsed now t then PHalf 0 else POpen t)"
| "phase_settle d now p = p"

fun phase_success :: "phase \<Rightarrow> phase" where
  "phase_success (PClosed k) = PClosed 0"
| "phase_success (PHalf k) = (if k \<ge> 2 then PClosed 0 else PHalf (Suc k))"
| "phase_success (POpen t) = POpen t"

fun phase_failure :: "nat \<Rightarrow> instant \<Rightarrow> phase \<Rightarrow> phase" where
  "phase_failure n now (PClosed k) = (if n \<le> Suc k then POpen now else PClosed (Suc k))"
| "phase_failure n now (PHalf k) = POpen now"
| "phase_failure n now (POpen t) = POpen t"

fun spec_step :: "breaker_spec \<Rightarrow> breaker_call \<Rightarrow> breaker_spec" where
  "spec_step (n, d, p) (Allow now) = (n, d, phase_settle d now p)"
| "spec_step (n, d, p) (StateQuery now) = (n, d, phase_settle d now p)"
| "spec_step (n, d, p) Success = (n, d, phase_success p)"
| "spec_step (n, d, p) (Failure now) = (n, d, phase_failure n now p)"
| "spec_step (n, d, p) Reset = (n, d, PClosed 0)"

fun spec_allows :: "instant \<Rightarrow> breaker_spec \<Rightarrow> bool" where
  "spec_allows now (n, d, p) = (case phase_settle d now p of POpen t \<Rightarrow> False | _ \<Rightarrow> True)"

definition breaker_abs :: "circuit_breaker \<Rightarrow> breaker_spec" where
  "breaker_abs b =
     (unat (failure_threshold b), recovery_timeout b,
      case cstate b of
        Closed \<Rightarrow> PClosed (unat (failure_count b))
      | Open \<Rightarrow> POpen (the (opened_at b))
      | HalfOpen \<Rightarrow> PHalf (unat (success_count b)))"

lemma breaker_abs_new: "breaker_abs (breaker_new n d) = (unat n, d, PClosed 0)"
  by (simp add: breaker_abs_def breaker_new_def)

lemma breaker_abs_open:
  "breaker_abs (breaker_open now b) = (unat (failure_threshold b), recovery_timeout b, POpen now)"
  by (simp add: breaker_abs_def breaker_open_def)

lemma breaker_abs_close:
  "breaker_abs (breaker_close b) = (unat (failure_threshold b), recovery_timeout b, PClosed 0)"
  by (simp add: breaker_abs_def breaker_close_def)

lemma maybe_transition_abs:
  assumes "breaker_wf b"
  shows "breaker_abs (maybe_transition now b) =
    (unat (failure_threshold b), recovery_timeout b,
     phase_settle (recovery_timeout b) now (snd (snd (breaker_abs b))))"
  using assms
  by (cases "cstate b")
     (auto simp: breaker_abs_def breaker_wf_def maybe_transition_def should_transition_def)

lemma record_success_abs:
  assumes "breaker_wf b"
  shows "breaker_abs (record_success b) =
    (unat (failure_threshold b), recovery_timeout b, phase_success (snd (snd (breaker_abs b))))"
proof (cases "cstate b")
  case HalfOpen
  note suc = half_open_count_suc [OF assms HalfOpen]
  have "3 \<le> success_count b + 1 \<longleftrightarrow> 2 \<le> unat (success_count b)"
    by (simp add: word_le_nat_alt suc)
  with HalfOpen suc show ?thesis
    by (simp add: record_success_def Let_def breaker_abs_close)
       (simp add: breaker_abs_def)
qed (simp_all add: record_success_def breaker_abs_def)

lemma record_failure_abs:
  assumes "breaker_wf b"
  shows "breaker_abs (record_failure now b) =
    (unat (failure_threshold b), recovery_timeout b,
     phase_failure (unat (failure_threshold b)) now (snd (snd (breaker_abs b))))"
proof (cases "cstate b")
  case Closed
  note suc = closed_count_suc [OF assms Closed]
  from Closed suc show ?thesis
    by (simp add: record_failure_def Let_def breaker_abs_open threshold_le_iff)
       (simp add: breaker_abs_def)
qed (simp_all add: record_failure_def breaker_abs_open, simp_all add: breaker_abs_def)

lemma breaker_abs_split:
  "breaker_abs b =
     (unat (failure_threshold b), recovery_timeout b, snd (snd (breaker_abs b)))"
  by (simp add: breaker_abs_def)

lemma breaker_step_abs:
  assumes "breaker_wf b"
  shows "breaker_abs (breaker_step b e) = spec_step (breaker_abs b) e"
proof (cases e)
  case Success
  then show ?thesis
    by (subst (2) breaker_abs_split) (simp add: record_success_abs [OF assms])
next
  case (Failure now)
  then show ?thesis
    by (subst (2) breaker_abs_split) (simp add: record_failure_abs [OF assms])
next
  case Reset
  then show ?thesis
    by (subst (2) breaker_abs_split) (simp add: breaker_reset_def breaker_abs_close)
qed (subst (2) breaker_abs_split,
     simp add: breaker_allow_def breaker_state_def Let_def maybe_transition_abs [OF assms])+

interpretation breaker: simulation breaker_step breaker_wf spec_step breaker_abs
  by unfold_locales (simp_all add: breaker_step_wf breaker_step_abs)

lemmas breaker_reach_wf = breaker.run_good [OF breaker_new_wf]

lemma breaker_allow_spec:
  "breaker_wf b \<Longrightarrow> fst (breaker_allow now b) = spec_allows now (breaker_abs b)"
  by (cases "cstate b")
     (auto simp: breaker_allow_def Let_def maybe_transition_def should_transition_def
        breaker_abs_def breaker_wf_def)

section \<open>What a client relies on\<close>

fun call_time :: "breaker_call \<Rightarrow> instant option" where
  "call_time (Allow now) = Some now"
| "call_time (StateQuery now) = Some now"
| "call_time Success = None"
| "call_time (Failure now) = Some now"
| "call_time Reset = None"

definition within :: "duration \<Rightarrow> instant \<Rightarrow> breaker_call \<Rightarrow> bool" where
  "within d t e \<longleftrightarrow> (case call_time e of Some now \<Rightarrow> elapsed now t < d | None \<Rightarrow> True)"

lemma open_step_within:
  assumes "cstate b = Open" "opened_at b = Some t" "e \<noteq> Reset"
    and "within (recovery_timeout b) t e"
  shows "breaker_step b e = b"
  using assms
  by (cases e)
     (auto simp: within_def breaker_allow_def breaker_state_def maybe_transition_def
        should_transition_def record_success_def record_failure_def Let_def)

lemma open_run_within:
  assumes "cstate b = Open" "opened_at b = Some t"
    and "\<forall>e \<in> set es. e \<noteq> Reset \<and> within (recovery_timeout b) t e"
  shows "run breaker_step b es = b"
  using assms(3) by (induction es) (simp_all add: open_step_within [OF assms(1,2)])

text \<open>C1: Refinement. A breaker driven by any sequence of calls, starting from the constructor,
  is step for step the three-state specification (no counter width, no optional timestamp), and
  after the run \<open>allow\<close> answers what the specification says.\<close>

theorem breaker_refines_spec:
  "breaker_abs (run breaker_step (breaker_new n d) es) =
     run spec_step (unat n, d, PClosed 0) es \<and>
   fst (breaker_allow now (run breaker_step (breaker_new n d) es)) =
     spec_allows now (run spec_step (unat n, d, PClosed 0) es)"
  using breaker.run_sim [OF breaker_new_wf, of n d es]
  by (simp add: breaker_abs_new breaker_allow_spec breaker_reach_wf)

text \<open>Safety. Once the breaker is open, no call but \<open>reset\<close> lets a request through before the
  recovery timeout has passed: whatever successes, failures and queries happen in between, the
  state is the one \<open>open\<close> left and \<open>allow\<close> answers no.\<close>

theorem open_blocks_until_timeout:
  assumes "cstate b = Open" "opened_at b = Some t"
    and "\<forall>e \<in> set es. e \<noteq> Reset \<and> within (recovery_timeout b) t e"
    and "elapsed now t < recovery_timeout b"
  shows "breaker_allow now (run breaker_step b es) = (False, b)"
  using assms
  by (auto simp: open_run_within [OF assms(1-3)] breaker_allow_def maybe_transition_def
      should_transition_def)

theorem open_blocks_until_timeout_witness:
  "breaker_allow 99 (run breaker_step (breaker_open 0 (breaker_new 1 100))
     [Success, Failure 5, Allow 42, StateQuery 98]) = (False, breaker_open 0 (breaker_new 1 100))"
  by (rule open_blocks_until_timeout [where t = 0])
     (simp_all add: breaker_open_def breaker_new_def within_def)

text \<open>C7: Recovery. From every state that calls can reach, an open breaker lets a probe through at
  any time from the recovery timeout on, and three recorded successes then close it with all
  counters cleared.\<close>

theorem open_recovers:
  assumes "b = run breaker_step (breaker_new n d) es" "cstate b = Open"
    and "the (opened_at b) + d \<le> now"
  shows "fst (breaker_allow now b) \<and>
    run breaker_step b [Allow now, Success, Success, Success] = breaker_new n d"
proof -
  have frame: "failure_threshold (breaker_step c e) = failure_threshold c \<and>
      recovery_timeout (breaker_step c e) = recovery_timeout c" for c e
    by (cases e) (auto simp: breaker_defs Let_def split: circuit_state.splits option.splits)
  have params: "failure_threshold (run breaker_step c fs) = failure_threshold c \<and>
      recovery_timeout (run breaker_step c fs) = recovery_timeout c" for c fs
    by (induction fs arbitrary: c) (simp_all add: frame)
  have nd: "failure_threshold b = n" "recovery_timeout b = d"
    using params [of "breaker_new n d" es] assms(1) by (simp_all add: breaker_new_def)
  have "breaker_wf b" using assms(1) breaker_reach_wf by simp
  with assms(2) obtain t where t: "opened_at b = Some t" by (auto simp: breaker_wf_def)
  with assms(3) nd have due: "should_transition now b" by (simp add: should_transition_def le_diff_conv2)
  with assms(2) nd show ?thesis
    by (simp add: breaker_allow_def maybe_transition_def record_success_def Let_def
        breaker_close_def breaker_new_def)
qed

theorem open_recovers_witness:
  "let b = run breaker_step (breaker_new 2 100) [Failure 3, Failure 7] in
   fst (breaker_allow 107 b) \<and>
   run breaker_step b [Allow 107, Success, Success, Success] = breaker_new 2 100"
proof -
  let ?b = "run breaker_step (breaker_new 2 100) [Failure 3, Failure 7]"
  have "?b = breaker_open 7 ((breaker_new 2 100)\<lparr>failure_count := 2\<rparr>)"
    by (simp add: breaker_new_def record_failure_def Let_def breaker_open_def word_le_nat_alt)
  then have "cstate ?b = Open" "the (opened_at ?b) + 100 \<le> 107"
    by (simp_all add: breaker_open_def)
  from open_recovers [OF refl this] show ?thesis by (simp only: Let_def)
qed

text \<open>The counters never overflow: in every state that calls can reach, neither recorder
  panics, in either build.\<close>

theorem breaker_never_panics:
  "\<not> record_success_panics bld (run breaker_step (breaker_new n d) es)
   \<and> \<not> record_failure_panics bld (run breaker_step (breaker_new n d) es)"
  using record_never_panics [OF breaker_reach_wf] by blast

lemma spec_failures_closed:
  "k + length ts < n \<Longrightarrow>
   run spec_step (n, d, PClosed k) (map Failure ts) = (n, d, PClosed (k + length ts))"
  by (induction ts arbitrary: k) auto

text \<open>Tripping. A fresh breaker stays closed through any \<open>k\<close> failures in a row below the
  threshold, each counted; the failure that reaches the threshold (the first one, for a threshold
  of zero) opens it at its own time.\<close>

theorem breaker_trips_at_threshold:
  assumes "b = run breaker_step (breaker_new n d) (map Failure ts)"
    and "length ts < unat n \<or> ts = []"
  shows "cstate b = Closed \<and> unat (failure_count b) = length ts \<and>
    (unat n \<le> Suc (length ts) \<longrightarrow>
      record_failure t b = breaker_open t (b\<lparr>failure_count := failure_count b + 1\<rparr>))"
proof -
  have wf: "breaker_wf b" using assms(1) breaker_reach_wf by simp
  have "breaker_abs b = (unat n, d, PClosed (length ts))"
    using assms(2) spec_failures_closed [of 0 ts "unat n" d]
    unfolding assms(1) breaker_refines_spec [THEN conjunct1] by auto
  then show ?thesis
    using closed_count_suc [OF wf]
    by (auto simp: breaker_abs_def record_failure_def threshold_le_iff split: circuit_state.splits)
qed

section \<open>Interleaved threads\<close>

text \<open>
  \<open>open\<close> and \<open>close\<close> take and release a lock for each write, so the unit that other threads see is
  one write. A thread that has decided to open (in \<open>record_failure\<close>, after it dropped the read
  lock) or to close (\<open>reset\<close>, or the third success) still owes these writes, in this order.
\<close>

datatype bwrite = SetState circuit_state | SetOpenedAt "instant option" | ZeroFailures | ZeroSuccesses

fun do_write :: "circuit_breaker \<Rightarrow> bwrite \<Rightarrow> circuit_breaker" where
  "do_write b (SetState c) = b\<lparr>cstate := c\<rparr>"
| "do_write b (SetOpenedAt x) = b\<lparr>opened_at := x\<rparr>"
| "do_write b ZeroFailures = b\<lparr>failure_count := 0\<rparr>"
| "do_write b ZeroSuccesses = b\<lparr>success_count := 0\<rparr>"

definition open_writes :: "instant \<Rightarrow> bwrite list" where
  "open_writes now = [SetState Open, SetOpenedAt (Some now), ZeroSuccesses]"

definition close_writes :: "bwrite list" where
  "close_writes = [SetState Closed, ZeroFailures, ZeroSuccesses, SetOpenedAt None]"

lemma open_writes_run: "run do_write b (open_writes now) = breaker_open now b"
  by (simp add: open_writes_def breaker_open_def)

lemma close_writes_run: "run do_write b close_writes = breaker_close b"
  by (simp add: close_writes_def breaker_close_def)

text \<open>One thread of a pool does its next write.\<close>

inductive thread_step :: "circuit_breaker \<times> bwrite list list \<Rightarrow> circuit_breaker \<times> bwrite list list \<Rightarrow> bool"
where
  perform: "i < length ts \<Longrightarrow> ts ! i = w # ws \<Longrightarrow> thread_step (b, ts) (do_write b w, ts[i := ws])"

inductive_cases thread_stepE: "thread_step (b, ts) (b', ts')"

lemma thread_step_first: "thread_step (b, (w # ws) # ts) (do_write b w, ws # ts)"
  using thread_step.perform [of 0 "(w # ws) # ts" w ws b] by simp

lemma thread_step_second: "thread_step (b, us # (w # ws) # ts) (do_write b w, us # ws # ts)"
  using thread_step.perform [of 1 "us # (w # ws) # ts" w ws b] by simp

lemma threads_first: "thread_step\<^sup>*\<^sup>* (b, (us @ ws) # ts) (run do_write b us, ws # ts)"
proof (induction us arbitrary: b)
  case (Cons w us)
  have "thread_step (b, ((w # us) @ ws) # ts) (do_write b w, (us @ ws) # ts)"
    using thread_step_first [of b w "us @ ws" ts] by simp
  from converse_rtranclp_into_rtranclp [OF this Cons.IH] show ?case by simp
qed simp

lemma threads_second: "thread_step\<^sup>*\<^sup>* (b, vs # (us @ ws) # ts) (run do_write b us, vs # ws # ts)"
proof (induction us arbitrary: b)
  case (Cons w us)
  have "thread_step (b, vs # ((w # us) @ ws) # ts) (do_write b w, vs # (us @ ws) # ts)"
    using thread_step_second [of b vs w "us @ ws" ts] by simp
  from converse_rtranclp_into_rtranclp [OF this Cons.IH] show ?case by simp
qed simp

lemma stuck_step:
  assumes "cstate b = Open" "opened_at b = None" "Reset \<noteq> e"
  shows "breaker_step b e = b"
  using assms
  by (cases e)
     (simp_all add: breaker_allow_def breaker_state_def maybe_transition_def should_transition_def
        record_success_def record_failure_def Let_def)

lemma stuck_run:
  "cstate b = Open \<Longrightarrow> opened_at b = None \<Longrightarrow> Reset \<notin> set es \<Longrightarrow> run breaker_step b es = b"
  by (induction es) (simp_all add: stuck_step)

text \<open>A race. When one thread opens while another closes (a failure that reaches the threshold
  against a \<open>reset\<close>), some interleaving of their writes ends with both calls returned, the state
  open and no opening time; from there no sequence of calls without a \<open>reset\<close> ever lets a request
  through, at whatever time. Each of the two orders without interleaving ends well-formed.\<close>

theorem open_close_race_sticks_open:
  "(\<exists>b'. thread_step\<^sup>*\<^sup>* (b, [open_writes t, close_writes]) (b', [[], []]) \<and>
      (\<forall>es now. Reset \<notin> set es \<longrightarrow> breaker_allow now (run breaker_step b' es) = (False, b')))
   \<and> breaker_wf (run do_write b (open_writes t @ close_writes))
   \<and> breaker_wf (run do_write b (close_writes @ open_writes t))"
    (is "?race \<and> ?open_first \<and> ?close_first")
proof -
  let ?b1 = "run do_write b [SetState Closed]"
  let ?b2 = "run do_write ?b1 (open_writes t)"
  let ?b3 = "run do_write ?b2 [ZeroFailures, ZeroSuccesses, SetOpenedAt None]"
  have "thread_step\<^sup>*\<^sup>* (b, [open_writes t, close_writes])
      (?b1, [open_writes t, [ZeroFailures, ZeroSuccesses, SetOpenedAt None]])"
    using threads_second [of b "open_writes t" "[SetState Closed]"] by (simp add: close_writes_def)
  also have "thread_step\<^sup>*\<^sup>* \<dots> (?b2, [[], [ZeroFailures, ZeroSuccesses, SetOpenedAt None]])"
    using threads_first [of ?b1 "open_writes t" "[]"] by simp
  also have "thread_step\<^sup>*\<^sup>* \<dots> (?b3, [[], []])"
    using threads_second [of ?b2 "[]" "[ZeroFailures, ZeroSuccesses, SetOpenedAt None]" "[]" "[]"]
    by simp
  finally have reach: "thread_step\<^sup>*\<^sup>* (b, [open_writes t, close_writes]) (?b3, [[], []])" .
  have stuck: "cstate ?b3 = Open" "opened_at ?b3 = None" by (simp_all add: open_writes_def)
  then have "breaker_allow now ?b3 = (False, ?b3)" for now
    by (simp only: breaker_allow_def maybe_transition_def should_transition_def) simp
  with stuck_run [OF stuck] reach have ?race by metis
  moreover have ?open_first ?close_first
    by (simp_all add: open_writes_run close_writes_run breaker_open_wf breaker_close_wf)
  ultimately show ?thesis by blast
qed

theorem breaker_trips_at_threshold_witness:
  "let b = run breaker_step (breaker_new 3 10) (map Failure [4, 5]) in
   (cstate b = Closed \<and> unat (failure_count b) = 2) \<and> cstate (record_failure 6 b) = Open"
proof -
  let ?b = "run breaker_step (breaker_new 3 10) (map Failure [4, 5])"
  have len: "length [4, 5 :: nat] < unat (3 :: u32) \<or> [4, 5 :: nat] = []" by simp
  have closed: "cstate ?b = Closed \<and> unat (failure_count ?b) = length [4, 5 :: nat]"
    and opens: "record_failure 6 ?b = breaker_open 6 (?b\<lparr>failure_count := failure_count ?b + 1\<rparr>)"
    using breaker_trips_at_threshold [OF refl len, of 10 6] by simp_all
  show ?thesis
    unfolding Let_def opens using closed by (simp only: breaker_open_def) simp
qed

theorem open_close_race_sticks_open_witness:
  "\<exists>b'. thread_step\<^sup>*\<^sup>* (breaker_new 1 0, [open_writes 7, close_writes]) (b', [[], []]) \<and>
     fst (breaker_allow 1000 (run breaker_step b' [Success, Failure 8, Allow 900])) = False"
proof -
  from open_close_race_sticks_open [of "breaker_new 1 0" 7]
  obtain b' where
    "thread_step\<^sup>*\<^sup>* (breaker_new 1 0, [open_writes 7, close_writes]) (b', [[], []])" and
    "\<And>es now. Reset \<notin> set es \<Longrightarrow> breaker_allow now (run breaker_step b' es) = (False, b')"
    by blast
  moreover have "Reset \<notin> set [Success, Failure 8, Allow 900]" by simp
  ultimately show ?thesis by (metis fst_conv)
qed

end
