(* ===== verification/Policy_Breaker_Threads.thy ===== *)
theory Policy_Breaker_Threads
  imports Policy_Breaker
begin

text \<open>
  The circuit breaker of \<open>crates/duende-policy/src/circuit_breaker.rs\<close> under any number of threads. \<open>CircuitBreaker\<close> is
  shared by reference; a method takes one of its two \<open>RwLock\<close>s at a time and drops it before it takes the next, so
  no call waits for another for longer than one of the steps below. A step is what a call does under
  one guard, or one access of an atomic. The recorders update a counter while they hold the read guard of the
  state; the state cannot change in between, so reading it and updating the counter is one step.
  \<open>Policy_Breaker\<close> has each method as a whole; here it is shown what of that is left when calls overlap.
\<close>

section \<open>Calls by steps\<close>

datatype breaker_method = MAllow | MState | MSuccess | MFailure | MReset

datatype breaker_answer = Allowed bool | IsState circuit_state | Recorded | Panicked

datatype breaker_pc =
    Begin breaker_method
  | Look breaker_method
  | Transit breaker_method
  | Clear breaker_method
  | Reply breaker_method
  | OpenState
  | OpenTime
  | OpenCount
  | CloseState
  | CloseFailures
  | CloseSuccesses
  | CloseTime
  | Returned breaker_answer

text \<open>\<open>allow\<close> and \<open>state\<close> call \<open>maybe_transition\<close> first and then read the state.\<close>

definition transition_start :: "breaker_method \<Rightarrow> circuit_breaker \<Rightarrow> breaker_pc" where
  "transition_start m b = (if cstate b \<noteq> Open then Reply m else Look m)"

definition transition_look :: "breaker_method \<Rightarrow> instant \<Rightarrow> circuit_breaker \<Rightarrow> breaker_pc" where
  "transition_look m now b = (if should_transition now b then Transit m else Reply m)"

definition transition_set :: "breaker_method \<Rightarrow> circuit_breaker \<Rightarrow> breaker_pc \<times> circuit_breaker" where
  "transition_set m b = (if cstate b = Open then (Clear m, b\<lparr>cstate := HalfOpen\<rparr>) else (Reply m, b))"

definition reply :: "breaker_method \<Rightarrow> circuit_breaker \<Rightarrow> breaker_answer" where
  "reply m b = (if m = MAllow then Allowed (cstate b \<noteq> Open) else IsState (cstate b))"

definition success_start :: "build \<Rightarrow> circuit_breaker \<Rightarrow> breaker_pc \<times> circuit_breaker" where
  "success_start bld b =
     (case cstate b of
        Closed \<Rightarrow> (Returned Recorded, b\<lparr>failure_count := 0\<rparr>)
      | HalfOpen \<Rightarrow>
          (case uadd bld (success_count b) 1 of
             None \<Rightarrow> Returned Panicked
           | Some count \<Rightarrow> if 3 \<le> count then CloseState else Returned Recorded,
           b\<lparr>success_count := success_count b + 1\<rparr>)
      | Open \<Rightarrow> (Returned Recorded, b))"

definition failure_start :: "build \<Rightarrow> circuit_breaker \<Rightarrow> breaker_pc \<times> circuit_breaker" where
  "failure_start bld b =
     (case cstate b of
        Closed \<Rightarrow>
          (case uadd bld (failure_count b) 1 of
             None \<Rightarrow> Returned Panicked
           | Some count \<Rightarrow> if ucast (failure_threshold b) \<le> count then OpenState else Returned Recorded,
           b\<lparr>failure_count := failure_count b + 1\<rparr>)
      | HalfOpen \<Rightarrow> (OpenState, b)
      | Open \<Rightarrow> (Returned Recorded, b))"

fun call_move :: "build \<Rightarrow> instant \<Rightarrow> breaker_pc \<Rightarrow> circuit_breaker \<Rightarrow> breaker_pc \<times> circuit_breaker" where
  "call_move bld now (Begin m) b =
     (case m of
        MAllow \<Rightarrow> (transition_start m b, b)
      | MState \<Rightarrow> (transition_start m b, b)
      | MSuccess \<Rightarrow> success_start bld b
      | MFailure \<Rightarrow> failure_start bld b
      | MReset \<Rightarrow> (CloseState, b))"
| "call_move bld now (Look m) b = (transition_look m now b, b)"
| "call_move bld now (Transit m) b = transition_set m b"
| "call_move bld now (Clear m) b = (Reply m, b\<lparr>success_count := 0\<rparr>)"
| "call_move bld now (Reply m) b = (Returned (reply m b), b)"
| "call_move bld now OpenState b = (OpenTime, b\<lparr>cstate := Open\<rparr>)"
| "call_move bld now OpenTime b = (OpenCount, b\<lparr>opened_at := Some now\<rparr>)"
| "call_move bld now OpenCount b = (Returned Recorded, b\<lparr>success_count := 0\<rparr>)"
| "call_move bld now CloseState b = (CloseFailures, b\<lparr>cstate := Closed\<rparr>)"
| "call_move bld now CloseFailures b = (CloseSuccesses, b\<lparr>failure_count := 0\<rparr>)"
| "call_move bld now CloseSuccesses b = (CloseTime, b\<lparr>success_count := 0\<rparr>)"
| "call_move bld now CloseTime b = (Returned Recorded, b\<lparr>opened_at := None\<rparr>)"
| "call_move bld now (Returned r) b = (Returned r, b)"

record breaker_threads =
  bt_pcs :: "breaker_pc list"
  bt_breaker :: circuit_breaker
  bt_now :: instant

datatype breaker_event = Go nat | Pass duration

fun threads_step :: "build \<Rightarrow> breaker_threads \<Rightarrow> breaker_event \<Rightarrow> breaker_threads" where
  "threads_step bld s (Go i) =
     (if i < length (bt_pcs s)
      then (case call_move bld (bt_now s) (bt_pcs s ! i) (bt_breaker s) of
              (p, b) \<Rightarrow> s\<lparr>bt_pcs := (bt_pcs s)[i := p], bt_breaker := b\<rparr>)
      else s)"
| "threads_step bld s (Pass d) = s\<lparr>bt_now := bt_now s + d\<rparr>"

definition threads_start :: "circuit_breaker \<Rightarrow> instant \<Rightarrow> breaker_method list \<Rightarrow> breaker_threads" where
  "threads_start b now ms = \<lparr>bt_pcs = map Begin ms, bt_breaker = b, bt_now = now\<rparr>"

lemmas call_defs = transition_start_def transition_look_def transition_set_def reply_def
  success_start_def failure_start_def

lemma threads_step_length [simp]: "length (bt_pcs (threads_step bld s e)) = length (bt_pcs s)"
  by (cases e) (auto split: prod.split)

section \<open>A call alone is the method\<close>

text \<open>A call that no other overlaps has the effect and the answer of the method in \<open>Policy_Breaker\<close>.\<close>

fun call_alone :: "build \<Rightarrow> instant \<Rightarrow> nat \<Rightarrow> breaker_pc \<times> circuit_breaker \<Rightarrow> breaker_pc \<times> circuit_breaker" where
  "call_alone bld now 0 pb = pb"
| "call_alone bld now (Suc n) pb = call_alone bld now n (call_move bld now (fst pb) (snd pb))"

lemma call_alone_returned [simp]: "call_alone bld now n (Returned r, b) = (Returned r, b)"
  by (induction n) simp_all

lemma alone_allow: "call_alone bld now 5 (Begin MAllow, b) = (Returned (Allowed (fst (breaker_allow now b))), snd (breaker_allow now b))"
  by (simp add: numeral_eq_Suc call_defs breaker_allow_def maybe_transition_def Let_def split: circuit_state.splits)

lemma alone_state: "call_alone bld now 5 (Begin MState, b) = (Returned (IsState (fst (breaker_state now b))), snd (breaker_state now b))"
  by (simp add: numeral_eq_Suc call_defs breaker_state_def maybe_transition_def Let_def)

lemma alone_reset: "call_alone bld now 5 (Begin MReset, b) = (Returned Recorded, breaker_reset b)"
  by (simp add: numeral_eq_Suc breaker_reset_def breaker_close_def)

lemma alone_success:
  "\<not> record_success_panics bld b \<Longrightarrow> call_alone bld now 5 (Begin MSuccess, b) = (Returned Recorded, record_success b)"
  by (auto simp: numeral_eq_Suc call_defs record_success_panics_def record_success_def breaker_close_def Let_def
      split: circuit_state.splits option.splits dest: uadd_Some_eq)

lemma alone_failure:
  "\<not> record_failure_panics bld b \<Longrightarrow> call_alone bld now 5 (Begin MFailure, b) = (Returned Recorded, record_failure now b)"
  by (auto simp: numeral_eq_Suc call_defs record_failure_panics_def record_failure_def breaker_open_def Let_def
      split: circuit_state.splits option.splits dest: uadd_Some_eq)

section \<open>An open breaker blocks\<close>

text \<open>A call that cannot end the open state at once: it has not begun or is about to look or to read the state.\<close>

fun settled :: "breaker_pc \<Rightarrow> bool" where
  "settled (Begin m) = (m \<noteq> MReset)"
| "settled (Look m) = True"
| "settled (Reply m) = True"
| "settled (Returned r) = (r \<noteq> Allowed True)"
| "settled p = False"

definition blocked :: "circuit_breaker \<Rightarrow> breaker_threads \<Rightarrow> bool" where
  "blocked b s \<longleftrightarrow> bt_breaker s = b \<and> list_all settled (bt_pcs s)"

lemma settled_move:
  assumes "cstate b = Open" "\<not> should_transition now b" "settled p"
  shows "settled (fst (call_move bld now p b)) \<and> snd (call_move bld now p b) = b"
  using assms by (cases p) (simp_all add: call_defs split: breaker_method.splits)

lemma should_transition_later: "now \<le> now' \<Longrightarrow> \<not> should_transition now' b \<Longrightarrow> \<not> should_transition now b"
  by (auto simp: should_transition_def split: option.splits)

lemma threads_step_now: "bt_now s \<le> bt_now (threads_step bld s e)"
  by (cases e) (auto split: prod.split)

lemma threads_run_now: "bt_now s \<le> bt_now (run (threads_step bld) s es)"
proof (induction es arbitrary: s)
  case (Cons e es)
  from threads_step_now [of s bld e] Cons.IH [of "threads_step bld s e"] show ?case by simp
qed simp

lemma blocked_step:
  assumes "blocked b s" "cstate b = Open" "\<not> should_transition (bt_now s) b"
  shows "blocked b (threads_step bld s e)"
proof (cases e)
  case (Go i)
  show ?thesis
  proof (cases "i < length (bt_pcs s)")
    case True
    with assms(1) have "settled (bt_pcs s ! i)" by (simp add: blocked_def list_all_length)
    from settled_move [OF assms(2,3) this, of bld] assms(1) show ?thesis
      by (simp add: Go True blocked_def list_all_update case_prod_beta)
  qed (use assms Go in simp)
qed (use assms in \<open>simp add: blocked_def\<close>)

lemma blocked_run:
  assumes "cstate b = Open" "list_all (\<lambda>m. m \<noteq> MReset) ms"
    and "\<not> should_transition (bt_now (run (threads_step bld) (threads_start b now ms) es)) b"
  shows "blocked b (run (threads_step bld) (threads_start b now ms) es)"
proof -
  have "blocked b (run (threads_step bld) s es)"
    if "blocked b s" "\<not> should_transition (bt_now (run (threads_step bld) s es)) b" for s
    using that
  proof (induction es arbitrary: s)
    case (Cons e es)
    have "\<not> should_transition (bt_now s) b"
      by (rule should_transition_later [OF threads_run_now Cons.prems(2)])
    with blocked_step [OF Cons.prems(1) assms(1)] Cons.IH Cons.prems(2) show ?case by simp
  qed simp
  moreover have "blocked b (threads_start b now ms)"
    using assms(2) by (simp add: blocked_def threads_start_def list_all_iff)
  ultimately show ?thesis using assms(3) by blast
qed

lemma blockedD: "blocked b s \<Longrightarrow> bt_breaker s = b \<and> Returned (Allowed True) \<notin> set (bt_pcs s)"
  by (auto simp: blocked_def list_all_iff)

text \<open>C2: While no call is between its steps, an open breaker blocks until its timeout whatever any number of threads
  do then, in whatever order their steps come, as long as none resets it: its state is unchanged and no
  request is let through.\<close>

theorem open_blocks_under_threads:
  assumes "cstate b = Open" "list_all (\<lambda>m. m \<noteq> MReset) ms"
    and "\<not> should_transition (bt_now (run (threads_step bld) (threads_start b now ms) es)) b"
  shows "bt_breaker (run (threads_step bld) (threads_start b now ms) es) = b
    \<and> Returned (Allowed True) \<notin> set (bt_pcs (run (threads_step bld) (threads_start b now ms) es))"
  by (rule blockedD [OF blocked_run [OF assms]])

lemma probes_wait:
  assumes "cstate b = Open" "opened_at b = Some 7" "recovery_timeout b = 100"
  shows "bt_now (run (threads_step Debug) (threads_start b 8 [MAllow, MFailure, MSuccess, MAllow])
    [Go 0, Go 1, Pass 90, Go 3, Go 0, Go 2, Go 3, Go 0]) = 98"
  using assms by (simp add: threads_start_def transition_start_def transition_look_def failure_start_def
      success_start_def should_transition_def)

theorem open_blocks_under_threads_witness:
  "case run (threads_step Debug) (threads_start (breaker_open 7 (breaker_new 1 100)) 8 [MAllow, MFailure, MSuccess, MAllow])
      [Go 0, Go 1, Pass 90, Go 3, Go 0, Go 2, Go 3, Go 0] of
      s \<Rightarrow> bt_breaker s = breaker_open 7 (breaker_new 1 100) \<and> Returned (Allowed True) \<notin> set (bt_pcs s)"
proof -
  let ?b = "breaker_open 7 (breaker_new 1 100)"
  have b: "cstate ?b = Open" "opened_at ?b = Some 7" "recovery_timeout ?b = 100" by (simp_all add: breaker_open_def breaker_new_def)
  moreover have "\<not> should_transition 98 ?b" by (simp add: should_transition_def b)
  ultimately show ?thesis
    using open_blocks_under_threads [OF b(1), of "[MAllow, MFailure, MSuccess, MAllow]" Debug 8] probes_wait [OF b]
    by (simp del: run.simps)
qed

text \<open>C5: A probe can end a fresh open state at once. Two threads ask after the timeout; the first has looked at the
  clock but not yet taken the write lock when the second is let through, fails and opens the breaker
  anew. The first then makes that fresh open state half-open and is let through, before any time passed.\<close>

theorem stale_probe_ends_fresh_open:
  assumes "cstate b = Open" "opened_at b = Some t" "recovery_timeout b \<le> now - t" "0 < recovery_timeout b"
  shows "\<exists>es fs. case run (threads_step bld) (threads_start b now [MAllow, MAllow, MFailure]) es of s \<Rightarrow>
      bt_breaker s = breaker_open now b \<and> bt_now s = now \<and> \<not> should_transition now (bt_breaker s)
      \<and> fst (breaker_allow now (bt_breaker s)) = False
      \<and> (case run (threads_step bld) s fs of s' \<Rightarrow>
          bt_pcs s' = [Returned (Allowed True), Returned (Allowed True), Returned Recorded]
          \<and> cstate (bt_breaker s') = HalfOpen \<and> bt_now s' = now)"
proof (intro exI)
  let ?es = "[Go 0, Go 0, Go 1, Go 1, Go 1, Go 1, Go 1, Go 2, Go 2, Go 2, Go 2]"
  let ?fs = "[Go 0, Go 0, Go 0]"
  show "case run (threads_step bld) (threads_start b now [MAllow, MAllow, MFailure]) ?es of s \<Rightarrow>
      bt_breaker s = breaker_open now b \<and> bt_now s = now \<and> \<not> should_transition now (bt_breaker s)
      \<and> fst (breaker_allow now (bt_breaker s)) = False
      \<and> (case run (threads_step bld) s ?fs of s' \<Rightarrow>
          bt_pcs s' = [Returned (Allowed True), Returned (Allowed True), Returned Recorded]
          \<and> cstate (bt_breaker s') = HalfOpen \<and> bt_now s' = now)"
    using assms by (simp add: threads_start_def call_defs should_transition_def breaker_open_def breaker_allow_def
        maybe_transition_def Let_def)
qed

theorem stale_probe_ends_fresh_open_witness:
  "\<exists>s fs. bt_now s = 150 \<and> fst (breaker_allow 150 (bt_breaker s)) = False
     \<and> (case run (threads_step Debug) s fs of s' \<Rightarrow>
          bt_pcs s' = [Returned (Allowed True), Returned (Allowed True), Returned Recorded] \<and> bt_now s' = 150)"
proof -
  have "cstate (breaker_open 7 (breaker_new 1 100)) = Open" "opened_at (breaker_open 7 (breaker_new 1 100)) = Some 7"
    "recovery_timeout (breaker_open 7 (breaker_new 1 100)) \<le> 150 - 7" "0 < recovery_timeout (breaker_open 7 (breaker_new 1 100))"
    by (simp_all add: breaker_open_def breaker_new_def)
  from stale_probe_ends_fresh_open [OF this, of Debug] show ?thesis by blast
qed

section \<open>Opening against closing\<close>

fun closing :: "breaker_pc \<Rightarrow> bool" where
  "closing CloseFailures = True"
| "closing CloseSuccesses = True"
| "closing CloseTime = True"
| "closing p = False"

fun quiet :: "breaker_pc \<Rightarrow> bool" where
  "quiet (Begin m) = True"
| "quiet (Returned r) = True"
| "quiet p = False"

text \<open>The first write of an \<open>open\<close> comes between the first and the last write of a \<open>close\<close>.\<close>

fun intrudes :: "breaker_threads \<Rightarrow> breaker_event \<Rightarrow> bool" where
  "intrudes s (Go i) = (i < length (bt_pcs s) \<and> bt_pcs s ! i = OpenState \<and> list_ex closing (bt_pcs s))"
| "intrudes s (Pass d) = False"

fun orderly :: "build \<Rightarrow> breaker_threads \<Rightarrow> breaker_event list \<Rightarrow> bool" where
  "orderly bld s [] = True"
| "orderly bld s (e # es) = (\<not> intrudes s e \<and> orderly bld (threads_step bld s e) es)"

definition opening_timed :: "breaker_threads \<Rightarrow> bool" where
  "opening_timed s \<longleftrightarrow> (cstate (bt_breaker s) = Open \<longrightarrow> opened_at (bt_breaker s) = None \<longrightarrow> OpenTime \<in> set (bt_pcs s))
     \<and> (list_ex closing (bt_pcs s) \<longrightarrow> cstate (bt_breaker s) = Closed)"

lemma in_update_kept: "x \<in> set xs \<Longrightarrow> xs ! i \<noteq> x \<Longrightarrow> x \<in> set (xs[i := y])"
proof (induction xs arbitrary: i)
  case (Cons a xs)
  then show ?case by (cases i) auto
qed simp

lemma list_ex_update: "list_ex P (xs[i := y]) \<Longrightarrow> list_ex P xs \<or> P y"
  by (auto simp: list_ex_iff dest: set_update_subset_insert [THEN subsetD])

lemma success_start_keeps:
  "cstate (snd (success_start bld b)) = cstate b" "opened_at (snd (success_start bld b)) = opened_at b"
  "fst (success_start bld b) \<noteq> OpenState" "fst (success_start bld b) \<noteq> OpenTime" "\<not> closing (fst (success_start bld b))"
  by (simp_all add: success_start_def split: circuit_state.split option.split)

lemma failure_start_keeps:
  "cstate (snd (failure_start bld b)) = cstate b" "opened_at (snd (failure_start bld b)) = opened_at b"
  "\<not> closing (fst (failure_start bld b))"
  by (simp_all add: failure_start_def split: circuit_state.split option.split)

text \<open>What one move does to the state and the opening time.\<close>

lemmas move_keeps = success_start_keeps failure_start_keeps transition_start_def transition_look_def transition_set_def

lemma call_move_opens: "cstate (snd (call_move bld now p b)) = Open \<Longrightarrow> p \<noteq> OpenState \<Longrightarrow> cstate b = Open"
  by (cases p) (simp_all add: move_keeps split: breaker_method.splits if_splits)

lemma call_move_untimes:
  "opened_at (snd (call_move bld now p b)) = None \<Longrightarrow> p \<noteq> CloseTime \<Longrightarrow> opened_at b = None \<and> p \<noteq> OpenTime"
  by (cases p) (simp_all add: move_keeps split: breaker_method.splits if_splits)

lemma call_move_closes:
  "closing (fst (call_move bld now p b)) \<Longrightarrow> closing p \<or> cstate (snd (call_move bld now p b)) = Closed"
  by (cases p) (simp_all add: move_keeps split: breaker_method.splits if_splits)

lemma call_move_stays_closed: "cstate b = Closed \<Longrightarrow> p \<noteq> OpenState \<Longrightarrow> cstate (snd (call_move bld now p b)) = Closed"
  by (cases p) (simp_all add: move_keeps split: breaker_method.splits if_splits)

lemma opening_timed_step:
  assumes "opening_timed s" "\<not> intrudes s e"
  shows "opening_timed (threads_step bld s e)"
proof (cases e)
  case (Go i)
  show ?thesis
  proof (cases "i < length (bt_pcs s)")
    case True
    let ?p = "bt_pcs s ! i"
    obtain p' b' where move: "call_move bld (bt_now s) ?p (bt_breaker s) = (p', b')" by force
    note cases = call_move_opens [of bld "bt_now s" ?p "bt_breaker s"] call_move_untimes [of bld "bt_now s" ?p "bt_breaker s"]
      call_move_closes [of bld "bt_now s" ?p "bt_breaker s"] call_move_stays_closed [of "bt_breaker s" ?p bld "bt_now s"]
    note cases = cases [unfolded move fst_conv snd_conv]
    have here: "closing ?p \<Longrightarrow> list_ex closing (bt_pcs s)" using True by (auto simp: list_ex_iff)
    have "OpenTime \<in> set ((bt_pcs s)[i := p'])" if b': "cstate b' = Open" "opened_at b' = None"
    proof (cases "?p = OpenState")
      case True
      with move \<open>i < length (bt_pcs s)\<close> show ?thesis by (auto intro: set_update_memI)
    next
      case False
      with cases(1) b' have "cstate (bt_breaker s) = Open" by blast
      moreover from this assms(1) here have "?p \<noteq> CloseTime" by (auto simp: opening_timed_def)
      moreover from this cases(2) b' have "opened_at (bt_breaker s) = None" "?p \<noteq> OpenTime" by blast+
      ultimately show ?thesis using assms(1) by (simp add: opening_timed_def in_update_kept)
    qed
    moreover have "cstate b' = Closed" if "list_ex closing ((bt_pcs s)[i := p'])"
    proof (cases "list_ex closing (bt_pcs s)")
      case True
      with assms \<open>i < length (bt_pcs s)\<close> cases(4) show ?thesis by (auto simp: Go opening_timed_def)
    next
      case False
      with list_ex_update [OF that] cases(3) here show ?thesis by blast
    qed
    ultimately show ?thesis by (simp add: Go True move opening_timed_def)
  qed (use assms Go in simp)
qed (use assms in \<open>simp add: opening_timed_def\<close>)

lemma opening_timed_run: "opening_timed s \<Longrightarrow> orderly bld s es \<Longrightarrow> opening_timed (run (threads_step bld) s es)"
  by (induction es arbitrary: s) (simp_all add: opening_timed_step)

lemma opening_timed_start: "breaker_wf b \<Longrightarrow> opening_timed (threads_start b now ms)"
  by (auto simp: opening_timed_def threads_start_def breaker_wf_def list_ex_iff)

lemma allow_later:
  assumes "cstate b = Open \<Longrightarrow> opened_at b \<noteq> None"
  shows "\<exists>t. \<forall>now. t \<le> now \<longrightarrow> fst (breaker_allow now b)"
proof (cases "opened_at b")
  case None
  with assms show ?thesis by (auto simp: breaker_allow_def maybe_transition_def Let_def split: circuit_state.split)
next
  case (Some t)
  then have "fst (breaker_allow now b)" if "t + recovery_timeout b \<le> now" for now
    using that by (auto simp: breaker_allow_def maybe_transition_def should_transition_def Let_def split: circuit_state.split)
  then show ?thesis by blast
qed

text \<open>C4: The race of \<open>open\<close> and \<open>close\<close> is the only way to lose a breaker: as long as no call starts to open while another
  is closing, in each state where no call is under way a request is let through from some time on.\<close>

theorem recovers_without_intrusion:
  assumes "breaker_wf b" "orderly bld (threads_start b now ms) es"
    and "list_all quiet (bt_pcs (run (threads_step bld) (threads_start b now ms) es))"
  shows "\<exists>t. \<forall>now'. t \<le> now' \<longrightarrow> fst (breaker_allow now' (bt_breaker (run (threads_step bld) (threads_start b now ms) es)))"
proof (rule allow_later)
  let ?s = "run (threads_step bld) (threads_start b now ms) es"
  have "OpenTime \<notin> set (bt_pcs ?s)" using assms(3) by (auto simp: list_all_iff)
  moreover have "opening_timed ?s" by (rule opening_timed_run [OF opening_timed_start [OF assms(1)] assms(2)])
  ultimately show "cstate (bt_breaker ?s) = Open \<Longrightarrow> opened_at (bt_breaker ?s) \<noteq> None" by (auto simp: opening_timed_def)
qed

lemma in_turn_is_orderly:
  assumes "cstate b = Closed" "failure_threshold b = 1" "failure_count b = 0"
  shows "orderly Debug (threads_start b 5 [MFailure, MReset, MFailure])
      [Go 0, Go 0, Go 0, Go 0, Go 1, Go 1, Go 1, Go 1, Go 1, Go 2, Go 2, Go 2, Go 2]
    \<and> list_all quiet (bt_pcs (run (threads_step Debug) (threads_start b 5 [MFailure, MReset, MFailure])
      [Go 0, Go 0, Go 0, Go 0, Go 1, Go 1, Go 1, Go 1, Go 1, Go 2, Go 2, Go 2, Go 2]))"
  using assms by (simp add: threads_start_def failure_start_def uadd_def)

theorem recovers_without_intrusion_witness:
  "\<exists>t. \<forall>now. t \<le> now \<longrightarrow> fst (breaker_allow now (bt_breaker (run (threads_step Debug)
     (threads_start (breaker_new 1 100) 5 [MFailure, MReset, MFailure])
     [Go 0, Go 0, Go 0, Go 0, Go 1, Go 1, Go 1, Go 1, Go 1, Go 2, Go 2, Go 2, Go 2])))"
proof -
  have "cstate (breaker_new 1 100) = Closed" "failure_threshold (breaker_new 1 100) = 1" "failure_count (breaker_new 1 100) = 0"
    by (simp_all add: breaker_new_def)
  from in_turn_is_orderly [OF this] recovers_without_intrusion [OF breaker_new_wf] show ?thesis by blast
qed

text \<open>C3: And the race loses it: a failure that reaches the threshold against a \<open>reset\<close> can end with both calls returned
  and a breaker that from then on, at any time and under any number of threads, lets no request through
  and never changes again, until it is reset.\<close>

theorem race_blocks_for_ever:
  assumes "cstate b = Closed" "ucast (failure_threshold b) \<le> failure_count b + 1"
    and "uadd bld (failure_count b) 1 \<noteq> None"
  shows "\<exists>es. case run (threads_step bld) (threads_start b now [MFailure, MReset]) es of s \<Rightarrow>
      bt_pcs s = [Returned Recorded, Returned Recorded]
      \<and> (\<forall>now ms fs. case run (threads_step bld) (threads_start (bt_breaker s) now (filter (\<lambda>m. m \<noteq> MReset) ms)) fs of s' \<Rightarrow>
           bt_breaker s' = bt_breaker s \<and> Returned (Allowed True) \<notin> set (bt_pcs s'))"
proof -
  let ?es = "[Go 0, Go 1, Go 1, Go 0, Go 0, Go 0, Go 1, Go 1, Go 1]"
  let ?b = "b\<lparr>cstate := Open, failure_count := 0, success_count := 0, opened_at := None\<rparr>"
  have add: "uadd bld (failure_count b) 1 = Some (failure_count b + 1)" using assms(3) uadd_Some_eq by blast
  have ran: "run (threads_step bld) (threads_start b now [MFailure, MReset]) ?es
      = \<lparr>bt_pcs = [Returned Recorded, Returned Recorded], bt_breaker = ?b, bt_now = now\<rparr>"
    using assms(1,2) add by (simp add: threads_start_def failure_start_def)
  have "blocked ?b (run (threads_step bld) (threads_start ?b now (filter (\<lambda>m. m \<noteq> MReset) ms)) fs)" for now ms fs
    by (rule blocked_run) (simp_all add: list_all_iff should_transition_def)
  note blocks = blockedD [OF this]
  show ?thesis
    by (rule exI [of _ ?es], unfold ran breaker_threads.simps, simp only: refl simp_thms, intro allI blocks)
qed

theorem race_blocks_for_ever_witness:
  "\<exists>b. \<forall>now fs. case run (threads_step Debug) (threads_start b now [MAllow, MSuccess, MFailure, MAllow]) fs of s \<Rightarrow>
     bt_breaker s = b \<and> Returned (Allowed True) \<notin> set (bt_pcs s)"
proof -
  have "cstate (breaker_new 1 100) = Closed" "ucast (failure_threshold (breaker_new 1 100)) \<le> failure_count (breaker_new 1 100) + 1"
    "uadd Debug (failure_count (breaker_new 1 100)) 1 \<noteq> None"
    by (simp_all add: breaker_new_def uadd_def)
  from race_blocks_for_ever [OF this, of 3] obtain b where
    "\<And>now ms fs. case run (threads_step Debug) (threads_start b now (filter (\<lambda>m. m \<noteq> MReset) ms)) fs of s \<Rightarrow>
       bt_breaker s = b \<and> Returned (Allowed True) \<notin> set (bt_pcs s)"
    by meson
  from this [of _ "[MAllow, MSuccess, MFailure, MAllow]"] show ?thesis by auto
qed

section \<open>Calls end\<close>

fun moves_left :: "breaker_pc \<Rightarrow> nat" where
  "moves_left (Begin m) = 5"
| "moves_left (Look m) = 4"
| "moves_left (Transit m) = 3"
| "moves_left (Clear m) = 2"
| "moves_left (Reply m) = 1"
| "moves_left OpenState = 3"
| "moves_left OpenTime = 2"
| "moves_left OpenCount = 1"
| "moves_left CloseState = 4"
| "moves_left CloseFailures = 3"
| "moves_left CloseSuccesses = 2"
| "moves_left CloseTime = 1"
| "moves_left (Returned r) = 0"

lemma moves_left_move: "moves_left (fst (call_move bld now p b)) \<le> moves_left p - 1"
  by (cases p) (simp_all add: call_defs split: breaker_method.split circuit_state.split option.split)

lemma moves_left_step:
  "i < length (bt_pcs s) \<Longrightarrow>
     moves_left (bt_pcs (threads_step bld s e) ! i) \<le> moves_left (bt_pcs s ! i) - (if e = Go i then 1 else 0)"
  using moves_left_move [of bld "bt_now s" "bt_pcs s ! i" "bt_breaker s"]
  by (cases e) (auto simp: case_prod_beta nth_list_update)

lemma moves_left_run:
  "i < length (bt_pcs s) \<Longrightarrow>
     moves_left (bt_pcs (run (threads_step bld) s es) ! i) \<le> moves_left (bt_pcs s ! i) - count_list es (Go i)"
proof (induction es arbitrary: s)
  case (Cons e es)
  then have "moves_left (bt_pcs (run (threads_step bld) s (e # es)) ! i)
      \<le> moves_left (bt_pcs (threads_step bld s e) ! i) - count_list es (Go i)" by simp
  with moves_left_step [OF Cons.prems, of bld e] show ?case by (simp split: if_splits)
qed simp

text \<open>No call waits for others: whatever they do in between, it has returned after five steps of its own.\<close>

theorem breaker_calls_return:
  assumes "i < length ms" "5 \<le> count_list es (Go i)"
  shows "\<exists>r. bt_pcs (run (threads_step bld) (threads_start b now ms) es) ! i = Returned r"
proof -
  have "moves_left (bt_pcs (run (threads_step bld) (threads_start b now ms) es) ! i) = 0"
    using moves_left_run [of i "threads_start b now ms" bld es] assms by (simp add: threads_start_def)
  then show ?thesis by (cases "bt_pcs (run (threads_step bld) (threads_start b now ms) es) ! i") simp_all
qed

theorem breaker_calls_return_witness:
  "\<exists>r. bt_pcs (run (threads_step Debug) (threads_start (breaker_new 1 0) 3 [MAllow, MReset])
     [Go 1, Go 0, Go 1, Go 1, Go 0, Go 1, Go 1, Go 0]) ! 1 = Returned r"
  by (rule breaker_calls_return) simp_all

section \<open>Failures trip the breaker\<close>

lemma length_filter_update:
  "i < length xs \<Longrightarrow> length (filter P (xs[i := y])) + of_bool (P (xs ! i)) = length (filter P xs) + of_bool (P y)"
proof (induction xs arbitrary: i)
  case (Cons x xs)
  show ?case
  proof (cases i)
    case (Suc j)
    with Cons show ?thesis using Cons.IH [of j] by simp
  qed simp
qed simp

text \<open>What calls of \<open>record_failure\<close>, \<open>allow\<close> and \<open>state\<close> come through.\<close>

fun failing :: "breaker_pc \<Rightarrow> bool" where
  "failing (Begin m) = (m \<noteq> MSuccess \<and> m \<noteq> MReset)"
| "failing CloseState = False"
| "failing CloseFailures = False"
| "failing CloseSuccesses = False"
| "failing CloseTime = False"
| "failing (Returned r) = (r \<noteq> Panicked)"
| "failing p = True"

fun late_opener :: "breaker_pc \<Rightarrow> bool" where
  "late_opener OpenTime = True"
| "late_opener OpenCount = True"
| "late_opener p = False"

definition recorded :: "breaker_pc list \<Rightarrow> nat" where
  "recorded ps = length (filter (\<lambda>p. p = Returned Recorded) ps)"

definition unbegun :: "breaker_pc list \<Rightarrow> nat" where
  "unbegun ps = length (filter (\<lambda>p. p = Begin MFailure) ps)"

definition begun :: "breaker_pc list \<Rightarrow> nat" where
  "begun ps = length (filter (\<lambda>p. p \<in> {OpenState, OpenTime, OpenCount, Returned Recorded}) ps)"

definition trips :: "breaker_threads \<Rightarrow> bool" where
  "trips s \<longleftrightarrow>
     (let b = bt_breaker s; ps = bt_pcs s; n = unat (failure_threshold b); c = unat (failure_count b)
      in list_all failing ps
       \<and> (cstate b = Closed \<longrightarrow> list_all (\<lambda>p. \<not> late_opener p) ps \<and> recorded ps \<le> c \<and> (recorded ps < n \<or> recorded ps = 0)
            \<and> c + unbegun ps < 2 ^ 64)
       \<and> (cstate b \<noteq> Closed \<or> OpenState \<in> set ps \<longrightarrow> n \<le> c)
       \<and> c \<le> begun ps)"

lemma failing_move:
  assumes "failing p" "cstate b = Closed \<longrightarrow> p = Begin MFailure \<longrightarrow> Suc (unat (failure_count b)) < 2 ^ 64"
  shows "failing (fst (call_move bld now p b))"
  using assms
  by (cases p) (auto simp: call_defs uadd_def split: breaker_method.splits circuit_state.splits)

lemma move_threshold: "failure_threshold (snd (call_move bld now p b)) = failure_threshold b"
  by (cases p) (simp_all add: call_defs split: breaker_method.split circuit_state.split)

text \<open>A move that is no first step of \<open>record_failure\<close> leaves the count of failures alone.\<close>

lemma other_move:
  assumes "failing p" "p \<noteq> Begin MFailure" "call_move bld now p b = (p', b')"
  shows "failure_count b' = failure_count b" "p' \<noteq> Begin MFailure" "p' \<noteq> OpenState"
    and "p' \<in> {OpenState, OpenTime, OpenCount, Returned Recorded} \<longleftrightarrow> p \<in> {OpenState, OpenTime, OpenCount, Returned Recorded}"
    and "cstate b' = Closed \<longleftrightarrow> cstate b = Closed \<and> p \<noteq> OpenState"
    and "cstate b' = Closed \<Longrightarrow> \<not> late_opener p \<Longrightarrow> \<not> late_opener p' \<and> (p' = Returned Recorded \<longleftrightarrow> p = Returned Recorded)"
  using assms by (cases p; auto simp: call_defs split: breaker_method.splits if_splits)+

lemma failure_move_closed:
  assumes "cstate b = Closed" "Suc (unat (failure_count b)) < 2 ^ 64"
  shows "call_move bld now (Begin MFailure) b =
      (if unat (failure_threshold b) \<le> Suc (unat (failure_count b)) then OpenState else Returned Recorded,
       b\<lparr>failure_count := failure_count b + 1\<rparr>)
    \<and> unat (failure_count b + 1) = Suc (unat (failure_count b))"
proof -
  have "unat (failure_count b + 1) = Suc (unat (failure_count b))" using assms(2) by (simp add: unat_suc_in_range)
  then show ?thesis using assms by (simp add: failure_start_def uadd_in_range threshold_le_iff)
qed

lemma failure_move_not_closed:
  "cstate b \<noteq> Closed \<Longrightarrow>
     call_move bld now (Begin MFailure) b = (if cstate b = HalfOpen then OpenState else Returned Recorded, b)"
  by (simp add: failure_start_def split: circuit_state.split)

lemma trips_failure:
  assumes "trips s" "i < length (bt_pcs s)" "bt_pcs s ! i = Begin MFailure"
  shows "trips (threads_step bld s (Go i))"
proof -
  let ?ps = "bt_pcs s" and ?b = "bt_breaker s"
  note count = length_filter_update [OF assms(2), of "\<lambda>p. p = Returned Recorded", folded recorded_def]
    length_filter_update [OF assms(2), of "\<lambda>p. p = Begin MFailure", folded unbegun_def]
    length_filter_update [OF assms(2), of "\<lambda>p. p \<in> {OpenState, OpenTime, OpenCount, Returned Recorded}", folded begun_def]
  note kept = list_all_update [of _ ?ps _ i]
  have other: "OpenState \<in> set ?ps" if "OpenState \<in> set (?ps[i := Returned r])" for r
    using that set_update_subset_insert [of ?ps i "Returned r"] by auto
  show ?thesis
  proof (cases "cstate ?b = Closed")
    case False
    with assms(1) failure_move_not_closed [OF this, of bld "bt_now s"] count [of "OpenState"] count [of "Returned Recorded"]
    show ?thesis by (simp add: trips_def Let_def assms(2,3) kept del: call_move.simps)
  next
    case True
    then have "unat (failure_count ?b) + unbegun ?ps < 2 ^ 64" using assms(1) by (simp add: trips_def Let_def)
    moreover have "0 < unbegun ?ps" using count(2) [of OpenState] assms(3) by simp
    ultimately have "Suc (unat (failure_count ?b)) < 2 ^ 64" by simp
    from failure_move_closed [OF True this, of bld "bt_now s"] assms(1) True count [of "OpenState"] count [of "Returned Recorded"]
    show ?thesis by (auto simp: trips_def Let_def assms(2,3) kept dest: other simp del: call_move.simps)
  qed
qed

lemma trips_other:
  assumes "trips s" "i < length (bt_pcs s)" "bt_pcs s ! i \<noteq> Begin MFailure"
  shows "trips (threads_step bld s (Go i))"
proof -
  let ?ps = "bt_pcs s" and ?p = "bt_pcs s ! i"
  obtain p' b' where move: "call_move bld (bt_now s) ?p (bt_breaker s) = (p', b')" by force
  have here: "failing ?p" "cstate (bt_breaker s) = Closed \<Longrightarrow> \<not> late_opener ?p" "?p = OpenState \<Longrightarrow> OpenState \<in> set ?ps"
    using assms(1,2) by (auto simp: trips_def Let_def list_all_length dest: nth_mem)
  note same = other_move [OF here(1) assms(3) move]
  have "failing p'" using failing_move [OF here(1), of "bt_breaker s" bld "bt_now s"] assms(3) move by simp
  moreover have "failure_threshold b' = failure_threshold (bt_breaker s)"
    using move_threshold [of bld "bt_now s" ?p "bt_breaker s"] move by simp
  moreover have "unbegun (?ps[i := p']) = unbegun ?ps" "begun (?ps[i := p']) = begun ?ps"
    using length_filter_update [OF assms(2), of "\<lambda>p. p = Begin MFailure" p']
      length_filter_update [OF assms(2), of "\<lambda>p. p \<in> {OpenState, OpenTime, OpenCount, Returned Recorded}" p'] same(2,4) assms(3)
    by (simp_all only: unbegun_def begun_def simp_thms of_bool_eq add_0_right add_right_cancel)
  moreover have "recorded (?ps[i := p']) = recorded ?ps" "\<not> late_opener p'" if "cstate b' = Closed"
    using length_filter_update [OF assms(2), of "\<lambda>p. p = Returned Recorded" p'] same(6) that here(2) same(5)
    by (simp_all add: recorded_def)
  moreover have "OpenState \<in> set ?ps" if "OpenState \<in> set (?ps[i := p'])"
    using that same(3) set_update_subset_insert [of ?ps i p'] by auto
  ultimately show ?thesis
    using assms(1) same(1,5) here(3) by (auto simp: trips_def Let_def assms(2) move list_all_update)
qed

lemma trips_step [inv_intro]: "trips s \<Longrightarrow> trips (threads_step bld s e)"
proof (cases e)
  case (Go i)
  then show "trips s \<Longrightarrow> ?thesis"
    using trips_failure [of s i bld] trips_other [of s i bld] by (cases "i < length (bt_pcs s)") (auto simp del: threads_step.simps, simp)
qed (simp add: trips_def Let_def)

interpretation breaker_trips: invariant_machine "threads_step bld" trips for bld
  by unfold_locales (rule trips_step)

lemma trips_start:
  assumes "list_all (\<lambda>m. m \<in> {MFailure, MAllow, MState}) ms" "length ms < 2 ^ 64"
  shows "trips (threads_start (breaker_new n d) now ms)"
proof -
  have "unbegun (map Begin ms) \<le> length ms" unfolding unbegun_def by (metis length_filter_le length_map)
  moreover have "recorded (map Begin ms) = 0" by (simp add: recorded_def filter_empty_conv)
  ultimately show ?thesis
    using assms by (auto simp: trips_def Let_def threads_start_def breaker_new_def list_all_iff)
qed

text \<open>C6: The breaker trips under threads exactly when it should: whatever the order of the steps of threads that record
  failures and ask, while it is closed fewer failures have been recorded than the threshold, and when it
  is not closed at least the threshold of them have begun. No call panics.\<close>

theorem breaker_trips_under_threads:
  assumes "list_all (\<lambda>m. m \<in> {MFailure, MAllow, MState}) ms" "length ms < 2 ^ 64" "0 < n"
    and "s = run (threads_step bld) (threads_start (breaker_new n d) now ms) es"
  shows "(if cstate (bt_breaker s) = Closed then recorded (bt_pcs s) < unat n else unat n \<le> begun (bt_pcs s))
    \<and> Returned Panicked \<notin> set (bt_pcs s)"
proof -
  have "trips s" unfolding assms(4) by (rule breaker_trips.run_good [OF trips_start [OF assms(1,2)]])
  moreover have "failure_threshold (bt_breaker (run (threads_step bld) t es)) = failure_threshold (bt_breaker t)" for t
  proof (induction es arbitrary: t)
    case (Cons e es)
    have "failure_threshold (bt_breaker (threads_step bld t e)) = failure_threshold (bt_breaker t)"
      by (cases e) (simp_all add: case_prod_beta move_threshold)
    with Cons.IH show ?case by simp
  qed simp
  then have "failure_threshold (bt_breaker s) = n" by (simp add: assms(4) threads_start_def breaker_new_def)
  ultimately show ?thesis using assms(3) by (auto simp: trips_def Let_def word_less_nat_alt list_all_iff)
qed

theorem breaker_trips_under_threads_witness:
  "case run (threads_step Debug) (threads_start (breaker_new 2 100) 3 [MFailure, MFailure, MAllow]) [Go 0, Go 1, Go 1, Go 2] of s \<Rightarrow>
     (if cstate (bt_breaker s) = Closed then recorded (bt_pcs s) < 2 else 2 \<le> begun (bt_pcs s))"
  using breaker_trips_under_threads [of "[MFailure, MFailure, MAllow]" 2, OF _ _ _ refl, of Debug 100 3 "[Go 0, Go 1, Go 1, Go 2]"]
  by (simp del: run.simps One_nat_def split: if_splits)

end
