(* ===== verification/Rust_Text.thy ===== *)
theory Rust_Text
  imports Prelude "HOL-Library.Sublist"
begin

text \<open>
  The string operations of the Rust standard library that the sources call.

  A \<open>str\<close> is its UTF-8 bytes, so lengths and positions are byte lengths and byte positions, as in
  Rust. White space is Unicode \<open>White_Space\<close>, given by the byte sequences that encode it; in valid
  UTF-8 such a sequence can only start at a character boundary, so matching bytes is matching
  characters. Numbers are printed and parsed as \<open>Display\<close> and \<open>FromStr\<close> of the integer types do.
\<close>

section \<open>Decimal numbers\<close>

definition is_digit :: "char \<Rightarrow> bool" where
  "is_digit c \<longleftrightarrow> 48 \<le> (of_char c :: nat) \<and> (of_char c :: nat) \<le> 57"

definition digit_val :: "char \<Rightarrow> nat" where
  "digit_val c = of_char c - 48"

definition digit_char :: "nat \<Rightarrow> char" where
  "digit_char n = char_of (48 + n)"

fun show_nat :: "nat \<Rightarrow> string" where
  "show_nat n = (if n < 10 then [digit_char n] else show_nat (n div 10) @ [digit_char (n mod 10)])"

declare show_nat.simps [simp del]

definition show_int :: "int \<Rightarrow> string" where
  "show_int i = (if i < 0 then CHR ''-'' # show_nat (nat (- i)) else show_nat (nat i))"

definition digits_val :: "string \<Rightarrow> nat" where
  "digits_val s = foldl (\<lambda>n c. 10 * n + digit_val c) 0 s"

definition parse_digits :: "string \<Rightarrow> nat option" where
  "parse_digits s = (if s \<noteq> [] \<and> list_all is_digit s then Some (digits_val s) else None)"

text \<open>\<open>str::parse\<close> for an unsigned type of \<open>w\<close> bits: an optional plus, digits, no overflow.\<close>

definition parse_unsigned :: "nat \<Rightarrow> string \<Rightarrow> nat option" where
  "parse_unsigned w s =
     (case parse_digits (case s of c # cs \<Rightarrow> if c = CHR ''+'' then cs else s | [] \<Rightarrow> s) of
        Some n \<Rightarrow> if n < 2 ^ w then Some n else None
      | None \<Rightarrow> None)"

text \<open>\<open>str::parse\<close> for a signed type of \<open>w\<close> bits.\<close>

definition parse_signed :: "nat \<Rightarrow> string \<Rightarrow> int option" where
  "parse_signed w s =
     (case s of
        c # cs \<Rightarrow>
          if c = CHR ''-'' then
            (case parse_digits cs of
               Some n \<Rightarrow> if n \<le> 2 ^ (w - 1) then Some (- int n) else None
             | None \<Rightarrow> None)
          else
            (case parse_digits (if c = CHR ''+'' then cs else s) of
               Some n \<Rightarrow> if n < 2 ^ (w - 1) then Some (int n) else None
             | None \<Rightarrow> None)
      | [] \<Rightarrow> None)"

abbreviation parse_u32 :: "string \<Rightarrow> u32 option" where
  "parse_u32 s \<equiv> map_option of_nat (parse_unsigned 32 s)"

abbreviation parse_u64 :: "string \<Rightarrow> u64 option" where
  "parse_u64 s \<equiv> map_option of_nat (parse_unsigned 64 s)"

abbreviation parse_i32 :: "string \<Rightarrow> i32 option" where
  "parse_i32 s \<equiv> map_option of_int (parse_signed 32 s)"

abbreviation show_word :: "'w::len word \<Rightarrow> string" where
  "show_word x \<equiv> show_nat (unat x)"

abbreviation show_i32 :: "i32 \<Rightarrow> string" where
  "show_i32 x \<equiv> show_int (sint x)"

lemma digit_char_inv [simp]: "n < 10 \<Longrightarrow> digit_val (digit_char n) = n"
  by (simp add: digit_val_def digit_char_def)

lemma is_digit_digit_char [simp]: "n < 10 \<Longrightarrow> is_digit (digit_char n)"
  by (simp add: is_digit_def digit_char_def)

lemma is_digit_not_sign: "is_digit c \<Longrightarrow> c \<noteq> CHR ''+'' \<and> c \<noteq> CHR ''-''"
  by (auto simp: is_digit_def)

lemma show_nat_nonempty [simp]: "show_nat n \<noteq> []"
  by (subst show_nat.simps) simp

lemma show_nat_digits: "list_all is_digit (show_nat n)"
proof (induction n rule: show_nat.induct)
  case (1 n)
  then show ?case by (cases "n < 10") (simp_all add: show_nat.simps [of n])
qed

lemma digits_val_snoc: "digits_val (s @ [c]) = 10 * digits_val s + digit_val c"
  by (simp add: digits_val_def)

lemma digits_val_show_nat [simp]: "digits_val (show_nat n) = n"
proof (induction n rule: show_nat.induct)
  case (1 n)
  show ?case
  proof (cases "n < 10")
    case True
    then show ?thesis by (simp add: show_nat.simps [of n] digits_val_def)
  next
    case False
    with 1 show ?thesis by (simp add: show_nat.simps [of n] digits_val_snoc)
  qed
qed

lemma parse_digits_show_nat [simp]: "parse_digits (show_nat n) = Some n"
  by (simp add: parse_digits_def show_nat_digits)

lemma show_nat_hd:
  obtains c cs where "show_nat n = c # cs" "is_digit c" "c \<noteq> CHR ''+''" "c \<noteq> CHR ''-''"
proof -
  obtain c cs where s: "show_nat n = c # cs" by (cases "show_nat n") auto
  with show_nat_digits [of n] have "is_digit c" by simp
  with s that is_digit_not_sign show ?thesis by blast
qed

lemma parse_unsigned_show: "parse_unsigned w (show_nat n) = (if n < 2 ^ w then Some n else None)"
proof -
  obtain c cs where "show_nat n = c # cs" "c \<noteq> CHR ''+''" by (rule show_nat_hd)
  then have "parse_unsigned w (show_nat n) =
      (case parse_digits (show_nat n) of Some n \<Rightarrow> if n < 2 ^ w then Some n else None | None \<Rightarrow> None)"
    by (simp add: parse_unsigned_def)
  then show ?thesis by simp
qed

lemma parse_signed_show:
  assumes "0 < w" "- (2 ^ (w - 1)) \<le> i" "i < 2 ^ (w - 1)"
  shows "parse_signed w (show_int i) = Some i"
proof (cases "i < 0")
  case True
  with assms have "nat (- i) \<le> 2 ^ (w - 1)" by (simp add: nat_le_iff)
  with True show ?thesis by (simp add: parse_signed_def show_int_def)
next
  case False
  obtain c cs where "show_nat (nat i) = c # cs" "c \<noteq> CHR ''+''" "c \<noteq> CHR ''-''" by (rule show_nat_hd)
  then have "parse_signed w (show_nat (nat i)) =
      (case parse_digits (show_nat (nat i)) of
         Some n \<Rightarrow> if n < 2 ^ (w - 1) then Some (int n) else None | None \<Rightarrow> None)"
    by (simp add: parse_signed_def)
  with False assms(3) show ?thesis by (simp add: show_int_def nat_less_iff)
qed

lemma parse_u32_show [simp]: "parse_u32 (show_word (x :: u32)) = Some x"
  using unat_bound [of x] by (simp add: parse_unsigned_show)

lemma parse_u64_show [simp]: "parse_u64 (show_word (x :: u64)) = Some x"
  using unat_bound [of x] by (simp add: parse_unsigned_show)

lemma parse_i32_show [simp]: "parse_i32 (show_i32 x) = Some x"
  using sint_range_size [of x] by (subst parse_signed_show) (simp_all add: word_size)

interpretation decimal_u32: codec "show_word :: u32 \<Rightarrow> string" parse_u32
  by unfold_locales simp

interpretation decimal_u64: codec "show_word :: u64 \<Rightarrow> string" parse_u64
  by unfold_locales simp

interpretation decimal_i32: codec show_i32 parse_i32
  by unfold_locales simp

lemma show_nat_inject [simp]: "show_nat m = show_nat n \<longleftrightarrow> m = n"
  by (metis digits_val_show_nat)

text \<open>Evaluation of concrete numbers.\<close>

lemma digit_chars:
  "digit_char 0 = CHR ''0''" "digit_char (Suc 0) = CHR ''1''" "digit_char 1 = CHR ''1''"
  "digit_char 2 = CHR ''2''" "digit_char 3 = CHR ''3''" "digit_char 4 = CHR ''4''"
  "digit_char 5 = CHR ''5''" "digit_char 6 = CHR ''6''" "digit_char 7 = CHR ''7''"
  "digit_char 8 = CHR ''8''" "digit_char 9 = CHR ''9''"
  by code_simp+

lemma show_nat_digit: "n < 10 \<Longrightarrow> show_nat n = [digit_char n]"
  by (simp add: show_nat.simps)

lemma show_nat_more: "10 \<le> n \<Longrightarrow> show_nat n = show_nat (n div 10) @ [digit_char (n mod 10)]"
  by (simp add: show_nat.simps [of n])

lemmas show_nat_eval = show_nat_digit show_nat_more digit_chars

section \<open>Prefixes, search, replacement\<close>

definition strip_prefix :: "string \<Rightarrow> string \<Rightarrow> string option" where
  "strip_prefix p s = (if prefix p s then Some (drop (length p) s) else None)"

definition strip_suffix :: "string \<Rightarrow> string \<Rightarrow> string option" where
  "strip_suffix p s = (if suffix p s then Some (take (length s - length p) s) else None)"

fun find_sub :: "string \<Rightarrow> string \<Rightarrow> nat option" where
  "find_sub p [] = (if p = [] then Some 0 else None)"
| "find_sub p (c # cs) = (if prefix p (c # cs) then Some 0 else map_option Suc (find_sub p cs))"

definition contains :: "string \<Rightarrow> string \<Rightarrow> bool" where
  "contains p s \<longleftrightarrow> find_sub p s \<noteq> None"

fun rfind_char :: "char \<Rightarrow> string \<Rightarrow> nat option" where
  "rfind_char x [] = None"
| "rfind_char x (c # cs) =
     (case rfind_char x cs of Some i \<Rightarrow> Some (Suc i) | None \<Rightarrow> if c = x then Some 0 else None)"

definition replace_char :: "char \<Rightarrow> string \<Rightarrow> string \<Rightarrow> string" where
  "replace_char x r s = concat (map (\<lambda>c. if c = x then r else [c]) s)"

fun join :: "string \<Rightarrow> string list \<Rightarrow> string" where
  "join sep [] = []"
| "join sep [x] = x"
| "join sep (x # y # zs) = x @ sep @ join sep (y # zs)"

lemma strip_prefix_append [simp]: "strip_prefix p (p @ s) = Some s"
  by (simp add: strip_prefix_def)

lemma strip_prefix_Some_iff: "strip_prefix p s = Some r \<longleftrightarrow> s = p @ r"
  by (auto simp: strip_prefix_def prefix_def)

lemma strip_suffix_Some_iff: "strip_suffix p s = Some r \<longleftrightarrow> s = r @ p"
  by (auto simp: strip_suffix_def suffix_def)

lemma find_sub_None_iff: "find_sub p s = None \<longleftrightarrow> (\<forall>u v. s \<noteq> u @ p @ v)"
proof (induction s)
  case (Cons c cs)
  then show ?case
    by (auto simp: prefix_def Cons_eq_append_conv)
qed auto

lemma contains_iff: "contains p s \<longleftrightarrow> (\<exists>u v. s = u @ p @ v)"
  using find_sub_None_iff [of p s] by (auto simp: contains_def)

lemma contains_iff_sublist: "contains p s \<longleftrightarrow> sublist p s"
  by (auto simp: contains_iff sublist_def)

text \<open>A key whose first letter occurs in it once, and that occurs in a text once: it is found there only, so a longer
  pattern that starts with it is in the text exactly when it continues there.\<close>

lemma contains_after_key:
  assumes key: "k = x # ks" "x \<notin> set ks"
    and once: "\<not> contains k pre" "\<not> contains k post"
  shows "contains (k @ t) (pre @ k @ post) \<longleftrightarrow> prefix t post"
proof
  assume "prefix t post"
  then show "contains (k @ t) (pre @ k @ post)"
    unfolding contains_iff prefix_def by (metis append.assoc)
next
  assume "contains (k @ t) (pre @ k @ post)"
  then obtain u v where eq: "pre @ k @ post = u @ k @ t @ v" by (auto simp: contains_iff)
  have "length u = length pre"
  proof (rule linorder_cases [of "length u" "length pre"])
    assume less: "length u < length pre"
    define d where "d = length pre - length u"
    have pre: "pre = u @ take d (k @ t @ v)"
      using arg_cong [OF eq, of "take (length pre)"] less by (simp add: d_def)
    have rest: "k @ post = drop d (k @ t @ v)"
      using arg_cong [OF eq, of "drop (length pre)"] less by (simp add: d_def)
    have "length k \<le> d \<Longrightarrow> contains k pre"
    proof -
      assume "length k \<le> d"
      with pre have "pre = u @ k @ take (d - length k) (t @ v)" by simp
      then show ?thesis unfolding contains_iff by blast
    qed
    with once have d: "d < length k" by (cases "length k \<le> d") auto
    have "(k @ post) ! 0 = k ! 0" using key(1) by simp
    moreover have "drop d (k @ t @ v) ! 0 = k ! d" using d by (simp add: nth_append)
    ultimately have "k ! 0 = k ! d" using rest by simp
    with key d less have "x \<in> set ks"
      by (cases d) (auto simp: d_def)
    with key show ?thesis by simp
  next
    assume less: "length pre < length u"
    define d where "d = length u - length pre"
    have rest: "drop d (k @ post) = k @ t @ v"
      using arg_cong [OF eq, of "drop (length u)"] less by (simp add: d_def)
    show ?thesis
    proof (cases "length k \<le> d")
      case True
      then have "drop (d - length k) post = k @ t @ v" using rest by simp
      then have "post = take (d - length k) post @ k @ t @ v" by (metis append_take_drop_id)
      then have "contains k post" unfolding contains_iff by blast
      with once show ?thesis by simp
    next
      case False
      then have "drop d (k @ post) ! 0 = k ! d" by (simp add: nth_append)
      moreover have "(k @ t @ v) ! 0 = k ! 0" using key(1) by simp
      ultimately have "k ! d = k ! 0" using rest by simp
      with key False less have "x \<in> set ks"
        by (cases d) (auto simp: d_def)
      with key show ?thesis by simp
    qed
  qed simp
  with eq show "prefix t post" by (auto simp: prefix_def)
qed

lemma rfind_char_None [simp]: "rfind_char x s = None \<longleftrightarrow> x \<notin> set s"
  by (induction s) (auto split: option.splits)

lemma rfind_char_Some:
  "rfind_char x s = Some i \<longleftrightarrow> i < length s \<and> s ! i = x \<and> x \<notin> set (drop (Suc i) s)"
proof (induction s arbitrary: i)
  case (Cons c cs)
  show ?case
  proof (cases "rfind_char x cs")
    case None
    then have notin: "x \<notin> set cs" by simp
    from None have val: "rfind_char x (c # cs) = (if c = x then Some 0 else None)"
      by (simp del: rfind_char_None)
    from notin show ?thesis unfolding val by (cases i) (auto simp: in_set_conv_nth)
  next
    case (Some j)
    have mem: "x \<in> set cs" using Some rfind_char_None [of x cs] by (metis option.distinct(1))
    show ?thesis
    proof (cases i)
      case (Suc k)
      with Cons.IH [of k] Some show ?thesis by simp
    qed (use Some mem in simp)
  qed
qed simp

lemma rfind_char_append: "x \<notin> set v \<Longrightarrow> rfind_char x (u @ x # v) = Some (length u)"
  by (simp add: rfind_char_Some)

lemma replace_char_notin: "x \<notin> set r \<Longrightarrow> x \<notin> set (replace_char x r s)"
  by (auto simp: replace_char_def split: if_splits)

lemma replace_char_id: "x \<notin> set s \<Longrightarrow> replace_char x r s = s"
  by (induction s) (auto simp: replace_char_def)

lemma set_replace_char: "set (replace_char x r s) \<subseteq> (set s - {x}) \<union> set r"
  by (auto simp: replace_char_def split: if_splits)

section \<open>White space\<close>

abbreviation byte :: "nat \<Rightarrow> char" where
  "byte n \<equiv> char_of n"

definition white_space :: "string list" where
  "white_space =
     map (\<lambda>n. [byte n]) [9, 10, 11, 12, 13, 32] @
     [[byte 194, byte 133], [byte 194, byte 160], [byte 225, byte 154, byte 128]] @
     map (\<lambda>n. [byte 226, byte 128, byte n]) ([128..<139] @ [168, 169, 175]) @
     [[byte 226, byte 129, byte 159], [byte 227, byte 128, byte 128]]"

definition match_len :: "string list \<Rightarrow> string \<Rightarrow> nat" where
  "match_len seqs s = (case find (\<lambda>p. prefix p s) seqs of Some p \<Rightarrow> length p | None \<Rightarrow> 0)"

definition ws_len :: "string \<Rightarrow> nat" where
  "ws_len s = match_len white_space s"

function trim_by :: "string list \<Rightarrow> string \<Rightarrow> string" where
  "trim_by seqs s = (if match_len seqs s = 0 then s else trim_by seqs (drop (match_len seqs s) s))"
  by pat_completeness auto
termination
proof (relation "measure (\<lambda>(_, s). length s)")
  fix seqs s
  assume "match_len seqs s \<noteq> 0"
  then have "s \<noteq> []" by (auto simp: match_len_def find_Some_iff split: option.splits)
  with \<open>match_len seqs s \<noteq> 0\<close>
  show "((seqs, drop (match_len seqs s) s), seqs, s) \<in> measure (\<lambda>(_, s). length s)" by simp
qed simp

declare trim_by.simps [simp del]

definition trim_start :: "string \<Rightarrow> string" where
  "trim_start s = trim_by white_space s"

definition trim_end :: "string \<Rightarrow> string" where
  "trim_end s = rev (trim_by (map rev white_space) (rev s))"

definition trim :: "string \<Rightarrow> string" where
  "trim s = trim_end (trim_start s)"

definition flush :: "string \<Rightarrow> string list" where
  "flush acc = (if acc = [] then [] else [acc])"

function split_ws_from :: "string \<Rightarrow> string \<Rightarrow> string list" where
  "split_ws_from acc [] = flush acc"
| "split_ws_from acc (c # cs) =
     (if ws_len (c # cs) = 0 then split_ws_from (acc @ [c]) cs
      else flush acc @ split_ws_from [] (drop (ws_len (c # cs)) (c # cs)))"
  by pat_completeness auto
termination
  by (relation "measure (\<lambda>(_, s). length s)") auto

declare split_ws_from.simps(2) [simp del]

definition split_whitespace :: "string \<Rightarrow> string list" where
  "split_whitespace s = split_ws_from [] s"

text \<open>Fields of printable ASCII, separated by blanks, come back as they were.\<close>

definition graphic :: "char \<Rightarrow> bool" where
  "graphic c \<longleftrightarrow> 33 \<le> (of_char c :: nat) \<and> (of_char c :: nat) \<le> 126"

definition word_text :: "string \<Rightarrow> bool" where
  "word_text s \<longleftrightarrow> s \<noteq> [] \<and> list_all graphic s"

lemma white_space_heads:
  "list_all (\<lambda>p. p \<noteq> [] \<and> (of_char (hd p) :: nat) \<in> {9, 10, 11, 12, 13, 32, 194, 225, 226, 227}
     \<and> ((of_char (hd p) :: nat) < 128 \<longrightarrow> length p = 1)) white_space"
  by (simp add: white_space_def upt_rec)

lemma white_space_head:
  assumes "p \<in> set white_space" "prefix p (c # cs)"
  shows "(of_char c :: nat) \<in> {9, 10, 11, 12, 13, 32, 194, 225, 226, 227}"
    and "(of_char c :: nat) < 128 \<Longrightarrow> p = [c]"
proof -
  have p: "p \<noteq> []" "(of_char (hd p) :: nat) \<in> {9, 10, 11, 12, 13, 32, 194, 225, 226, 227}"
    "(of_char (hd p) :: nat) < 128 \<longrightarrow> length p = 1"
    using assms(1) white_space_heads by (simp_all add: list_all_iff)
  moreover from p(1) assms(2) have "hd p = c" by (cases p) auto
  ultimately show "(of_char c :: nat) \<in> {9, 10, 11, 12, 13, 32, 194, 225, 226, 227}"
    and "(of_char c :: nat) < 128 \<Longrightarrow> p = [c]"
    by (simp, cases p) auto
qed

lemma ws_len_graphic [simp]: "graphic c \<Longrightarrow> ws_len (c # cs) = 0"
proof -
  assume "graphic c"
  then have "find (\<lambda>p. prefix p (c # cs)) white_space = None"
    using white_space_head(1) [of _ c cs] by (fastforce simp: find_None_iff graphic_def)
  then show ?thesis by (simp add: ws_len_def match_len_def)
qed

definition blank :: "char \<Rightarrow> bool" where
  "blank c \<longleftrightarrow> (of_char c :: nat) \<in> {9, 10, 11, 12, 13, 32}"

lemma blank_white_space: "blank c \<Longrightarrow> [c] \<in> set white_space"
proof -
  assume "blank c"
  then have "of_char c \<in> set [9, 10, 11, 12, 13, 32 :: nat]" by (simp add: blank_def)
  then have "[byte (of_char c)] \<in> set (map (\<lambda>n. [byte n]) [9, 10, 11, 12, 13, 32 :: nat])"
    unfolding list.set_map by (rule imageI)
  then show ?thesis unfolding white_space_def by (simp only: char_of_char set_append) blast
qed

lemma ws_len_blank [simp]: "blank c \<Longrightarrow> ws_len (c # cs) = 1"
proof (cases "find (\<lambda>p. prefix p (c # cs)) white_space")
  case None
  assume "blank c"
  with None blank_white_space show ?thesis by (fastforce simp: find_None_iff)
next
  case (Some p)
  assume "blank c"
  from Some have "p \<in> set white_space" "prefix p (c # cs)" by (auto simp: find_Some_iff)
  moreover have "(of_char c :: nat) < 128" using \<open>blank c\<close> by (auto simp: blank_def)
  ultimately have "p = [c]" using white_space_head(2) by blast
  with Some show ?thesis by (simp add: ws_len_def match_len_def)
qed

lemma blank_space [simp]: "blank (CHR '' '')"
  by (simp add: blank_def)

lemma split_ws_word:
  "list_all graphic w \<Longrightarrow> split_ws_from acc (w @ rest) = split_ws_from (acc @ w) rest"
  by (induction w arbitrary: acc) (simp_all add: split_ws_from.simps(2))

lemma split_ws_blank: "blank c \<Longrightarrow> split_ws_from acc (c # rest) = flush acc @ split_ws_from [] rest"
  by (simp add: split_ws_from.simps(2))

lemma split_whitespace_join:
  assumes "list_all word_text ws" "list_all blank tail"
  shows "split_whitespace (join '' '' ws @ tail) = ws"
proof -
  have tail: "split_ws_from acc tail = flush acc" for acc
    using assms(2) by (induction tail arbitrary: acc) (simp_all add: split_ws_blank flush_def)
  from assms(1) show ?thesis
    unfolding split_whitespace_def
  proof (induction ws rule: induct_list012)
    case (2 w)
    then show ?case using split_ws_word [of w "[]" tail] tail by (simp add: word_text_def flush_def)
  next
    case (3 w v ws)
    have "split_ws_from [] (join '' '' (w # v # ws) @ tail) = split_ws_from [] (w @ '' '' @ join '' '' (v # ws) @ tail)"
      by simp
    also have "\<dots> = flush w @ split_ws_from [] (join '' '' (v # ws) @ tail)"
      using 3(3) split_ws_word [of w "[]"] by (simp add: word_text_def split_ws_blank)
    finally show ?case using 3 by (simp add: word_text_def flush_def)
  qed (simp add: tail flush_def)
qed

text \<open>\<open>str::lines\<close>: pieces ended by a line feed, without it and without a carriage return before it.\<close>

fun split_lf :: "string \<Rightarrow> string \<Rightarrow> string list" where
  "split_lf acc [] = (if acc = [] then [] else [acc])"
| "split_lf acc (c # cs) =
     (if of_char c = (10 :: nat) then
        (if acc \<noteq> [] \<and> of_char (last acc) = (13 :: nat) then butlast acc else acc) # split_lf [] cs
      else split_lf (acc @ [c]) cs)"

definition lines :: "string \<Rightarrow> string list" where
  "lines s = split_lf [] s"

lemma split_lf_line:
  "list_all (\<lambda>c. of_char c \<noteq> (10 :: nat)) l \<Longrightarrow>
     split_lf acc (l @ byte 10 # rest) =
       (if acc @ l \<noteq> [] \<and> of_char (last (acc @ l)) = (13 :: nat) then butlast (acc @ l) else acc @ l)
       # split_lf [] rest"
  by (induction l arbitrary: acc) auto

lemma lines_single: "list_all (\<lambda>c. of_char c \<noteq> (10 :: nat)) s \<Longrightarrow> s \<noteq> [] \<Longrightarrow> lines s = [s]"
proof -
  have "list_all (\<lambda>c. of_char c \<noteq> (10 :: nat)) s \<Longrightarrow> split_lf acc s = (if acc @ s = [] then [] else [acc @ s])" for acc
    by (induction s arbitrary: acc) auto
  then show "list_all (\<lambda>c. of_char c \<noteq> (10 :: nat)) s \<Longrightarrow> s \<noteq> [] \<Longrightarrow> lines s = [s]"
    by (simp add: lines_def)
qed

text \<open>Lines without line breaks, each ended by a line feed, come back.\<close>

definition line_text :: "string \<Rightarrow> bool" where
  "line_text l \<longleftrightarrow> list_all (\<lambda>c. of_char c \<noteq> (10 :: nat) \<and> of_char c \<noteq> (13 :: nat)) l"

definition unlines :: "string list \<Rightarrow> string" where
  "unlines ls = concat (map (\<lambda>l. l @ [byte 10]) ls)"

lemma lines_unlines: "list_all line_text ls \<Longrightarrow> lines (unlines ls) = ls"
  unfolding lines_def
proof (induction ls)
  case (Cons l ls)
  then have "list_all (\<lambda>c. of_char c \<noteq> (10 :: nat)) l" by (auto simp: line_text_def list_all_iff)
  moreover have "l = [] \<or> of_char (last l) \<noteq> (13 :: nat)"
    using Cons.prems by (auto simp: line_text_def list_all_iff)
  ultimately have "split_lf [] (l @ byte 10 # unlines ls) = l # split_lf [] (unlines ls)"
    using split_lf_line [of l "[]"] by auto
  with Cons show ?case by (simp add: unlines_def)
qed (simp add: unlines_def)

section \<open>Trimming\<close>

lemma match_len_no_head:
  assumes "list_all (\<lambda>p. p \<noteq> [] \<and> \<not> graphic (hd p)) seqs" "graphic c"
  shows "match_len seqs (c # cs) = 0"
proof -
  have "\<not> prefix p (c # cs)" if "p \<in> set seqs" for p
    using assms that by (cases p) (auto simp: list_all_iff)
  then have "find (\<lambda>p. prefix p (c # cs)) seqs = None" by (simp add: find_None_iff)
  then show ?thesis by (simp add: match_len_def)
qed

lemma white_space_rev: "list_all (\<lambda>p. p \<noteq> [] \<and> \<not> graphic (hd p)) (map rev white_space)"
  by (simp add: white_space_def graphic_def upt_rec)

lemma trim_start_blanks: "list_all blank bs \<Longrightarrow> trim_start (bs @ s) = trim_start s"
proof (induction bs)
  case (Cons b bs)
  then have "match_len white_space (b # bs @ s) = 1" using ws_len_blank [of b] by (simp add: ws_len_def)
  then have "trim_start (b # bs @ s) = trim_start (bs @ s)"
    unfolding trim_start_def by (subst trim_by.simps) simp
  with Cons show ?case by simp
qed simp

lemma trim_start_graphic: "graphic c \<Longrightarrow> trim_start (c # cs) = c # cs"
  using ws_len_graphic [of c cs] by (simp add: trim_start_def trim_by.simps [of _ "c # cs"] ws_len_def)

lemma trim_end_graphic: "graphic c \<Longrightarrow> trim_end (cs @ [c]) = cs @ [c]"
  using match_len_no_head [OF white_space_rev, of c "rev cs"]
  by (simp add: trim_end_def trim_by.simps [of _ "c # rev cs"])

lemma trim_eq:
  assumes "list_all blank bs" "s \<noteq> []" "graphic (hd s)" "graphic (last s)"
  shows "trim (bs @ s) = s"
proof -
  have "trim_start (bs @ s) = s"
    using assms trim_start_blanks [of bs s] trim_start_graphic [of "hd s" "tl s"] by simp
  moreover have "trim_end s = s"
    using assms trim_end_graphic [of "last s" "butlast s"] by simp
  ultimately show ?thesis by (simp add: trim_def)
qed

lemma show_nat_graphic: "graphic (hd (show_nat n))" "graphic (last (show_nat n))"
proof -
  have "is_digit c \<Longrightarrow> graphic c" for c by (simp add: is_digit_def graphic_def)
  then have "c \<in> set (show_nat n) \<Longrightarrow> graphic c" for c
    using show_nat_digits [of n] by (simp add: list_all_iff)
  then show "graphic (hd (show_nat n))" "graphic (last (show_nat n))" by simp_all
qed

section \<open>Slices\<close>

text \<open>\<open>&s[i..]\<close>; \<open>None\<close> is the panic, past the end or inside a character.\<close>

definition slice_from :: "nat \<Rightarrow> string \<Rightarrow> string option" where
  "slice_from i s =
     (if i \<le> length s \<and> (i = length s \<or> \<not> (128 \<le> (of_char (s ! i) :: nat) \<and> (of_char (s ! i) :: nat) < 192))
      then Some (drop i s) else None)"

section \<open>Cutting and searching\<close>

text \<open>\<open>str::split\<close> at a character.\<close>

fun split_char :: "char \<Rightarrow> string \<Rightarrow> string list" where
  "split_char x [] = [[]]"
| "split_char x (c # cs) =
     (if c = x then [] # split_char x cs
      else (case split_char x cs of p # ps \<Rightarrow> (c # p) # ps | [] \<Rightarrow> [[c]]))"

text \<open>\<open>Iterator::find_map\<close>, and the value of the first line that starts with a key.\<close>

fun find_map :: "('a \<Rightarrow> 'b option) \<Rightarrow> 'a list \<Rightarrow> 'b option" where
  "find_map f [] = None"
| "find_map f (x # xs) = (case f x of Some y \<Rightarrow> Some y | None \<Rightarrow> find_map f xs)"

abbreviation first_value :: "string \<Rightarrow> string list \<Rightarrow> string option" where
  "first_value key \<equiv> find_map (strip_prefix key)"

lemma find_map_append: "find_map f (xs @ ys) = (case find_map f xs of Some y \<Rightarrow> Some y | None \<Rightarrow> find_map f ys)"
  by (induction xs) (auto split: option.split)

lemma find_map_None: "find_map f xs = None \<longleftrightarrow> (\<forall>x\<in>set xs. f x = None)"
  by (induction xs) (auto split: option.split)

lemma split_char_notin: "x \<notin> set s \<Longrightarrow> split_char x s = [s]"
  by (induction s) auto

lemma split_char_append: "x \<notin> set s \<Longrightarrow> split_char x (s @ x # t) = s # split_char x t"
  by (induction s) auto

text \<open>\<open>trim_matches\<close> and \<open>trim_end_matches\<close> with single characters.\<close>

definition trim_end_matches :: "(char \<Rightarrow> bool) \<Rightarrow> string \<Rightarrow> string" where
  "trim_end_matches p s = rev (dropWhile p (rev s))"

definition trim_matches :: "(char \<Rightarrow> bool) \<Rightarrow> string \<Rightarrow> string" where
  "trim_matches p s = trim_end_matches p (dropWhile p s)"

text \<open>Lower case of ASCII letters.\<close>

definition to_lowercase :: "string \<Rightarrow> string" where
  "to_lowercase s =
     map (\<lambda>c. let b = of_char c :: nat in if 65 \<le> b \<and> b \<le> 90 then char_of (b + 32) else c) s"

section \<open>Paths\<close>

text \<open>\<open>Path::join\<close> on Unix: an absolute second part replaces the first.\<close>

definition path_join :: "string \<Rightarrow> string \<Rightarrow> string" where
  "path_join a b =
     (if prefix ''/'' b then b else if a = [] \<or> last a = CHR ''/'' then a @ b else a @ ''/'' @ b)"

text \<open>\<open>Path::file_name\<close>: the last component, if it is a name; empty components and dots at the end do not count.\<close>

definition file_name :: "string \<Rightarrow> string option" where
  "file_name path =
     (case dropWhile (\<lambda>p. p = [] \<or> p = ''.'') (rev (split_char (CHR ''/'') path)) of
        p # _ \<Rightarrow> if p = ''..'' then None else Some p
      | [] \<Rightarrow> None)"

end
