(* ===== verification/Core_Types.thy ===== *)
theory Core_Types
  imports Rust_Text
begin

text \<open>
  The types every crate shares: \<open>crates/duende-core/src/types.rs\<close> (daemon ids, lifecycle status,
  signals, exit reasons, health reports) and \<open>error.rs\<close> (the error enum and its classification). The signal
  \<open>Int\<close> is written \<open>Int'\<close> here.
  A \<open>Uuid\<close> is 128 bits; its printed form is the \<open>uuid\<close> crate's, so operations that print an id
  take the printer as an argument.
\<close>

section \<open>Ids, status, signals\<close>

type_synonym daemon_id = "128 word"

type_synonym id_printer = "daemon_id \<Rightarrow> string"

datatype failure_reason =
    FSignal i32
  | FExitCode i32
  | FResourceExhausted
  | FPolicyViolation
  | FHealthCheckTimeout
  | FInternal

datatype daemon_status =
    Created | Starting | Running | Paused | Stopping | Stopped | Failed failure_reason

fun is_terminal :: "daemon_status \<Rightarrow> bool" where
  "is_terminal Stopped = True"
| "is_terminal (Failed _) = True"
| "is_terminal _ = False"

fun is_active :: "daemon_status \<Rightarrow> bool" where
  "is_active Running = True"
| "is_active Paused = True"
| "is_active _ = False"

fun can_signal :: "daemon_status \<Rightarrow> bool" where
  "can_signal Running = True"
| "can_signal Paused = True"
| "can_signal Stopping = True"
| "can_signal _ = False"

datatype signal = Hup | Int' | Quit | Term | Kill | Usr1 | Usr2 | Stop | Cont

definition signal_as_i32 :: "signal \<Rightarrow> i32" where
  "signal_as_i32 s =
     (case s of Hup \<Rightarrow> 1 | Int' \<Rightarrow> 2 | Quit \<Rightarrow> 3 | Term \<Rightarrow> 15 | Kill \<Rightarrow> 9
      | Usr1 \<Rightarrow> 10 | Usr2 \<Rightarrow> 12 | Stop \<Rightarrow> 19 | Cont \<Rightarrow> 18)"

definition signal_from_i32 :: "i32 \<Rightarrow> signal option" where
  "signal_from_i32 n =
     (if n = 1 then Some Hup else if n = 2 then Some Int' else if n = 3 then Some Quit
      else if n = 15 then Some Term else if n = 9 then Some Kill else if n = 10 then Some Usr1
      else if n = 12 then Some Usr2 else if n = 19 then Some Stop else if n = 18 then Some Cont
      else None)"

datatype exit_reason =
    Graceful
  | ExitSignal signal
  | ExitError string
  | ExitResourceExhausted string
  | ExitPolicyViolation string

section \<open>Derived \<open>Debug\<close> text, used in error messages\<close>

fun debug_signal :: "signal \<Rightarrow> string" where
  "debug_signal Hup = ''Hup''"
| "debug_signal Int' = ''Int''"
| "debug_signal Quit = ''Quit''"
| "debug_signal Term = ''Term''"
| "debug_signal Kill = ''Kill''"
| "debug_signal Usr1 = ''Usr1''"
| "debug_signal Usr2 = ''Usr2''"
| "debug_signal Stop = ''Stop''"
| "debug_signal Cont = ''Cont''"

fun debug_failure :: "failure_reason \<Rightarrow> string" where
  "debug_failure (FSignal n) = ''Signal('' @ show_i32 n @ '')''"
| "debug_failure (FExitCode n) = ''ExitCode('' @ show_i32 n @ '')''"
| "debug_failure FResourceExhausted = ''ResourceExhausted''"
| "debug_failure FPolicyViolation = ''PolicyViolation''"
| "debug_failure FHealthCheckTimeout = ''HealthCheckTimeout''"
| "debug_failure FInternal = ''Internal''"

fun debug_status :: "daemon_status \<Rightarrow> string" where
  "debug_status Created = ''Created''"
| "debug_status Starting = ''Starting''"
| "debug_status Running = ''Running''"
| "debug_status Paused = ''Paused''"
| "debug_status Stopping = ''Stopping''"
| "debug_status Stopped = ''Stopped''"
| "debug_status (Failed r) = ''Failed('' @ debug_failure r @ '')''"

section \<open>Health reports\<close>

record health_check =
  hc_name :: string
  hc_passed :: bool
  hc_message :: "string option"

record health_status =
  hs_healthy :: bool
  hs_checks :: "health_check list"
  hs_latency_ms :: u64
  hs_last_check_epoch_ms :: u64

text \<open>\<open>since_epoch\<close> is the system clock, \<open>None\<close> when it is set before 1970.\<close>

definition epoch_ms :: "duration option \<Rightarrow> u64" where
  "epoch_ms since_epoch = (case since_epoch of Some d \<Rightarrow> of_nat (as_millis d) | None \<Rightarrow> 0)"

definition health_ok :: "duration option \<Rightarrow> u64 \<Rightarrow> health_status" where
  "health_ok since_epoch latency =
     \<lparr>hs_healthy = True, hs_checks = [], hs_latency_ms = latency,
      hs_last_check_epoch_ms = epoch_ms since_epoch\<rparr>"

definition health_bad :: "duration option \<Rightarrow> string \<Rightarrow> u64 \<Rightarrow> health_status" where
  "health_bad since_epoch reason latency =
     \<lparr>hs_healthy = False,
      hs_checks = [\<lparr>hc_name = ''main'', hc_passed = False, hc_message = Some reason\<rparr>],
      hs_latency_ms = latency, hs_last_check_epoch_ms = epoch_ms since_epoch\<rparr>"

definition is_healthy :: "health_status \<Rightarrow> bool" where
  "is_healthy s = hs_healthy s"

section \<open>Errors\<close>

text \<open>\<open>io\<close> stands for \<open>std::io::Error\<close>: the operations only pass it on.\<close>

datatype 'io daemon_error =
    DConfig string
  | DInit string
  | DRuntime string
  | DShutdown string
  | DShutdownTimeout duration
  | DHealthCheck string
  | DResourceLimit string u64 u64
  | DPolicyViolation string
  | DSignal string
  | DNotFound string
  | DState string
  | DIo 'io
  | DSerialization string
  | DInternal string

text \<open>The \<open>Display\<close> text; the texts of a duration and of an I/O error are the standard library's.\<close>

fun show_daemon_error :: "(duration \<Rightarrow> string) \<Rightarrow> ('io \<Rightarrow> string) \<Rightarrow> 'io daemon_error \<Rightarrow> string" where
  "show_daemon_error sd sio (DConfig s) = ''configuration error: '' @ s"
| "show_daemon_error sd sio (DInit s) = ''initialization failed: '' @ s"
| "show_daemon_error sd sio (DRuntime s) = ''runtime error: '' @ s"
| "show_daemon_error sd sio (DShutdown s) = ''shutdown error: '' @ s"
| "show_daemon_error sd sio (DShutdownTimeout d) = ''shutdown timed out after '' @ sd d"
| "show_daemon_error sd sio (DHealthCheck s) = ''health check failed: '' @ s"
| "show_daemon_error sd sio (DResourceLimit r l a) =
     ''resource limit exceeded: '' @ r @ '' (limit: '' @ show_word l @ '', actual: '' @ show_word a @ '')''"
| "show_daemon_error sd sio (DPolicyViolation s) = ''policy violation: '' @ s"
| "show_daemon_error sd sio (DSignal s) = ''signal error: '' @ s"
| "show_daemon_error sd sio (DNotFound s) = ''daemon not found: '' @ s"
| "show_daemon_error sd sio (DState s) = ''invalid state: '' @ s"
| "show_daemon_error sd sio (DIo e) = ''I/O error: '' @ sio e"
| "show_daemon_error sd sio (DSerialization s) = ''serialization error: '' @ s"
| "show_daemon_error sd sio (DInternal s) = ''internal error: '' @ s"

fun error_is_recoverable :: "'io daemon_error \<Rightarrow> bool" where
  "error_is_recoverable (DHealthCheck _) = True"
| "error_is_recoverable (DResourceLimit _ _ _) = True"
| "error_is_recoverable (DPolicyViolation _) = True"
| "error_is_recoverable _ = False"

fun error_is_fatal :: "'io daemon_error \<Rightarrow> bool" where
  "error_is_fatal (DInit _) = True"
| "error_is_fatal (DInternal _) = True"
| "error_is_fatal _ = False"

section \<open>Facts\<close>

lemma terminal_not_active: "is_terminal s \<Longrightarrow> \<not> is_active s"
  by (cases s) auto

lemma terminal_cannot_signal: "is_terminal s \<Longrightarrow> \<not> can_signal s"
  by (cases s) auto

lemma can_signal_iff: "can_signal s \<longleftrightarrow> is_active s \<or> s = Stopping"
  by (cases s) auto

lemma recoverable_not_fatal: "error_is_recoverable e \<Longrightarrow> \<not> error_is_fatal e"
  by (cases e) auto

interpretation signal_number: exact_codec signal_as_i32 signal_from_i32
proof
  fix s show "signal_from_i32 (signal_as_i32 s) = Some s"
    by (cases s) (simp_all add: signal_as_i32_def signal_from_i32_def)
next
  fix n s assume "signal_from_i32 n = Some s"
  then show "signal_as_i32 s = n"
    by (auto simp: signal_as_i32_def signal_from_i32_def split: if_splits)
qed

text \<open>Signals and their Unix numbers: \<open>from_i32\<close> accepts exactly the nine numbers that
  \<open>as_i32\<close> produces and the two are inverse to each other, so no two signals share a number.\<close>

theorem signal_number_roundtrip:
  "signal_from_i32 (signal_as_i32 s) = Some s
   \<and> (signal_from_i32 n = Some s \<longleftrightarrow> n = signal_as_i32 s)
   \<and> (signal_as_i32 s = signal_as_i32 t \<longleftrightarrow> s = t)"
  by (simp add: signal_number.dec_enc signal_number.dec_Some_iff signal_number.enc_inject)

text \<open>The lifecycle predicates agree: the seven states split into the terminal ones, the
  active ones and the three in transit; exactly the active ones and \<open>Stopping\<close> take signals, so a
  terminal daemon never does.\<close>

theorem status_classes:
  "(is_terminal s \<noteq> (is_active s \<or> s \<in> {Created, Starting, Stopping}))
   \<and> (is_active s \<noteq> (is_terminal s \<or> s \<in> {Created, Starting, Stopping}))
   \<and> (can_signal s \<longleftrightarrow> is_active s \<or> s = Stopping)"
  by (cases s) auto

end
