(* ===== verification/F64.thy ===== *)
theory F64
  imports Rust_Text Complex_Main "HOL-Library.Log_Nat"
begin

text \<open>
  IEEE 754 binary64, the \<open>f64\<close> of the sources.

  A finite value is the rational number it stands for; arithmetic computes the exact rational
  result and rounds it to nearest, ties to even, with 53 bits of precision, gradual underflow to
  \<open>2 powi -1074\<close> and overflow to an infinity. The sign of zero is not kept: no comparison, cast or
  division by a non-zero value in the modelled code can see it. Everything is executable.

  The lemmas give what the components use: rounding is monotone, odd, and exact on what the format
  represents (all integers up to \<open>2 ^ 53\<close>, every power of two in range).
\<close>

section \<open>Rounding\<close>

definition pow2 :: "int \<Rightarrow> rat" where
  "pow2 e = 2 powi e"

lemma pow2_pos [simp]: "0 < pow2 e"
  by (simp add: pow2_def)

lemma pow2_nonzero [simp]: "pow2 e \<noteq> 0"
  by (simp add: pow2_def)

lemma pow2_nonneg [simp]: "0 \<le> pow2 e"
  by (rule less_imp_le) (rule pow2_pos)

lemma pow2_add: "pow2 (a + b) = pow2 a * pow2 b"
  by (simp add: pow2_def power_int_add)

lemma pow2_mono: "a \<le> b \<Longrightarrow> pow2 a \<le> pow2 b"
  by (simp add: pow2_def power_int_increasing)

lemma pow2_less_iff: "pow2 a < pow2 b \<longleftrightarrow> a < b"
proof
  show "pow2 a < pow2 b \<Longrightarrow> a < b" using pow2_mono [of b a] by (meson leD not_le_imp_less)
  show "a < b \<Longrightarrow> pow2 a < pow2 b" by (simp add: pow2_def power_int_strict_increasing)
qed

lemma pow2_nonneg_exp: "0 \<le> e \<Longrightarrow> pow2 e = of_int (2 ^ nat e)"
  by (simp add: pow2_def power_int_nonneg_exp)

text \<open>The binary exponent of a positive number, from the lengths of numerator and denominator.\<close>

definition ilog2 :: "rat \<Rightarrow> int" where
  "ilog2 x = (let (p, q) = quotient_of x; k = bitlen p - bitlen q in if pow2 k \<le> x then k else k - 1)"

definition fexp :: "rat \<Rightarrow> int" where
  "fexp x = max (-1074) (ilog2 \<bar>x\<bar> - 52)"

definition round_even :: "rat \<Rightarrow> int" where
  "round_even y =
     (let f = \<lfloor>y\<rfloor>; d = y - of_int f
      in if d < 1 / 2 then f else if 1 / 2 < d then f + 1 else if even f then f else f + 1)"

definition rndq :: "rat \<Rightarrow> rat" where
  "rndq x = (if x = 0 then 0 else of_int (round_even (x / pow2 (fexp x))) * pow2 (fexp x))"

lemma bitlen_pow2_bounds:
  assumes "0 < p"
  shows "pow2 (bitlen p - 1) \<le> of_int p" "of_int p < pow2 (bitlen p)"
proof -
  have "1 \<le> bitlen p" using assms by (simp add: bitlen_alt_def)
  then show "pow2 (bitlen p - 1) \<le> of_int p" "of_int p < pow2 (bitlen p)"
    using bitlen_bounds [OF assms] by (simp_all only: pow2_nonneg_exp of_int_le_iff of_int_less_iff)
qed

lemma ilog2_bounds:
  assumes "0 < x"
  shows "pow2 (ilog2 x) \<le> x" "x < pow2 (ilog2 x + 1)"
proof -
  obtain p q where pq: "quotient_of x = (p, q)" by (cases "quotient_of x")
  then have q: "0 < q" and x: "x = of_int p / of_int q"
    by (auto intro: quotient_of_denom_pos quotient_of_div)
  with assms have p: "0 < p" by (simp add: zero_less_divide_iff)
  let ?k = "bitlen p - bitlen q"
  have "pow2 (?k - 1) * of_int q \<le> pow2 (?k - 1) * pow2 (bitlen q)"
    using bitlen_pow2_bounds(2) [OF q] by (intro mult_left_mono) (simp_all add: less_imp_le)
  also have "\<dots> = pow2 (bitlen p - 1)" by (simp flip: pow2_add)
  also have "\<dots> \<le> of_int p" by (rule bitlen_pow2_bounds(1) [OF p])
  finally have lower: "pow2 (?k - 1) \<le> x" using q by (simp add: x field_simps)
  have "of_int p < pow2 (bitlen p)" by (rule bitlen_pow2_bounds(2) [OF p])
  also have "\<dots> = pow2 (?k + 1) * pow2 (bitlen q - 1)" by (simp flip: pow2_add)
  also have "\<dots> \<le> pow2 (?k + 1) * of_int q"
    using bitlen_pow2_bounds(1) [OF q] by (intro mult_left_mono) simp_all
  finally have upper: "x < pow2 (?k + 1)" using q by (simp add: x field_simps)
  show "pow2 (ilog2 x) \<le> x" "x < pow2 (ilog2 x + 1)"
    using lower upper by (auto simp: ilog2_def pq Let_def)
qed

lemma ilog2_unique:
  assumes "0 < x" "pow2 k \<le> x" "x < pow2 (k + 1)"
  shows "ilog2 x = k"
proof -
  have "pow2 (ilog2 x) < pow2 (k + 1)" "pow2 k < pow2 (ilog2 x + 1)"
    using ilog2_bounds [OF assms(1)] assms(2,3) by auto
  then show ?thesis by (simp add: pow2_less_iff)
qed

lemma ilog2_mono: "0 < x \<Longrightarrow> x \<le> y \<Longrightarrow> ilog2 x \<le> ilog2 y"
proof -
  assume "0 < x" "x \<le> y"
  then have "pow2 (ilog2 x) < pow2 (ilog2 y + 1)"
    using ilog2_bounds(1) [of x] ilog2_bounds(2) [of y] by linarith
  then show ?thesis by (simp add: pow2_less_iff)
qed

lemma ilog2_less_pow2: "0 < x \<Longrightarrow> ilog2 x < k \<Longrightarrow> x < pow2 k"
  using ilog2_bounds(2) [of x] pow2_mono [of "ilog2 x + 1" k] by auto

lemma round_even_of_int [simp]: "round_even (of_int n) = n"
  by (simp add: round_even_def)

lemma round_even_mono: "x \<le> y \<Longrightarrow> round_even x \<le> round_even y"
proof -
  assume xy: "x \<le> y"
  show ?thesis
  proof (cases "\<lfloor>x\<rfloor> = \<lfloor>y\<rfloor>")
    case True
    with xy show ?thesis by (auto simp: round_even_def Let_def)
  next
    case False
    with xy have "\<lfloor>x\<rfloor> + 1 \<le> \<lfloor>y\<rfloor>" using floor_mono [OF xy] by simp
    moreover have "round_even x \<le> \<lfloor>x\<rfloor> + 1" "\<lfloor>y\<rfloor> \<le> round_even y"
      by (simp_all add: round_even_def Let_def)
    ultimately show ?thesis by linarith
  qed
qed

lemma round_even_minus: "round_even (- y) = - round_even y"
proof (cases "of_int \<lfloor>y\<rfloor> = y")
  case True
  then show ?thesis by (metis of_int_minus round_even_of_int)
next
  case False
  then have "\<lfloor>- y\<rfloor> = - \<lfloor>y\<rfloor> - 1"
    using ceiling_altdef [of y] by (simp add: ceiling_def)
  with False show ?thesis by (auto simp: round_even_def Let_def)
qed

lemma fexp_minus [simp]: "fexp (- x) = fexp x"
  by (simp add: fexp_def)

lemma rndq_0 [simp]: "rndq 0 = 0"
  by (simp add: rndq_def)

lemma rndq_minus: "rndq (- x) = - rndq x"
  by (simp add: rndq_def round_even_minus)

text \<open>A multiple of a power of two no finer than the grid at \<open>x\<close> is on that grid.\<close>

lemma on_grid:
  assumes "fexp x \<le> k"
  obtains n where "of_int m * pow2 k = of_int n * pow2 (fexp x)"
proof
  have "pow2 k = of_int (2 ^ nat (k - fexp x)) * pow2 (fexp x)"
    using assms pow2_add [of "k - fexp x" "fexp x"] by (simp add: pow2_nonneg_exp)
  then show "of_int m * pow2 k = of_int (m * 2 ^ nat (k - fexp x)) * pow2 (fexp x)" by simp
qed

lemma rndq_exact: "fexp (of_int m * pow2 k) \<le> k \<Longrightarrow> rndq (of_int m * pow2 k) = of_int m * pow2 k"
  using on_grid [of "of_int m * pow2 k" k m] by (metis nonzero_mult_div_cancel_right pow2_nonzero
      rndq_def round_even_of_int)

lemma rndq_mono_same:
  assumes "0 < x" "x \<le> y" "fexp x = fexp y"
  shows "rndq x \<le> rndq y"
proof -
  have "x / pow2 (fexp y) \<le> y / pow2 (fexp y)" using assms(2) by (rule divide_right_mono) simp
  then have "round_even (x / pow2 (fexp y)) \<le> round_even (y / pow2 (fexp y))"
    by (rule round_even_mono)
  with assms show ?thesis by (simp add: rndq_def)
qed

lemma grid_le_rndq:
  assumes "0 < x" "of_int n * pow2 (fexp x) \<le> x"
  shows "of_int n * pow2 (fexp x) \<le> rndq x"
proof -
  have "of_int n \<le> x / pow2 (fexp x)" using assms(2) by (simp add: pos_le_divide_eq)
  then have "n \<le> round_even (x / pow2 (fexp x))" by (metis round_even_mono round_even_of_int)
  with assms show ?thesis by (simp add: rndq_def)
qed

lemma rndq_le_grid:
  assumes "0 < x" "x \<le> of_int n * pow2 (fexp x)"
  shows "rndq x \<le> of_int n * pow2 (fexp x)"
proof -
  have "x / pow2 (fexp x) \<le> of_int n" using assms(2) by (simp add: pos_divide_le_eq)
  then have "round_even (x / pow2 (fexp x)) \<le> n" by (metis round_even_mono round_even_of_int)
  with assms show ?thesis by (simp add: rndq_def)
qed

lemma rndq_mono_pos:
  assumes "0 < x" "x \<le> y"
  shows "rndq x \<le> rndq y"
proof (cases "fexp x = fexp y")
  case True
  with assms show ?thesis by (intro rndq_mono_same)
next
  case False
  from assms have y: "0 < y" by simp
  with assms have "fexp x \<le> fexp y" using ilog2_mono [OF assms] by (simp add: fexp_def)
  with False have less: "fexp x < fexp y" by simp
  with y assms(1) have big: "fexp y = ilog2 y - 52" and logs: "ilog2 x < ilog2 y"
    by (auto simp: fexp_def max_def split: if_splits)
  let ?p = "pow2 (ilog2 y)"
  have "x < ?p" by (rule ilog2_less_pow2 [OF assms(1) logs])
  moreover obtain n where "?p = of_int n * pow2 (fexp x)"
    using on_grid [of x "ilog2 y" 1] big less by auto
  ultimately have "rndq x \<le> ?p" using rndq_le_grid [OF assms(1), of n] by simp
  moreover obtain m where "?p = of_int m * pow2 (fexp y)"
    using on_grid [of y "ilog2 y" 1] big by auto
  then have "?p \<le> rndq y" using grid_le_rndq [OF y, of m] ilog2_bounds(1) [OF y] by simp
  ultimately show ?thesis by simp
qed

lemma rndq_nonneg: "0 \<le> x \<Longrightarrow> 0 \<le> rndq x"
  using grid_le_rndq [of x 0] by (cases "x = 0") auto

lemma rndq_mono: "x \<le> y \<Longrightarrow> rndq x \<le> rndq y"
proof -
  assume xy: "x \<le> y"
  consider "0 < x" | "x \<le> 0" "0 \<le> y" | "y < 0" by linarith
  then show ?thesis
  proof cases
    case 1 with xy show ?thesis by (simp add: rndq_mono_pos)
  next
    case 2
    then have "0 \<le> - rndq x" "0 \<le> rndq y" using rndq_nonneg [of "- x"] rndq_nonneg [of y]
      by (simp_all add: rndq_minus)
    then show ?thesis by simp
  next
    case 3
    with xy have "rndq (- y) \<le> rndq (- x)" by (intro rndq_mono_pos) simp_all
    then show ?thesis by (simp add: rndq_minus)
  qed
qed

section \<open>The type\<close>

datatype f64 = NaN | PInf | NInf | Fin rat

text \<open>A result too large for the format after rounding is infinite.\<close>

definition f_round :: "rat \<Rightarrow> f64" where
  "f_round x = (let r = rndq x in
     if pow2 1024 \<le> r then PInf else if r \<le> - pow2 1024 then NInf else Fin r)"

fun f_add :: "f64 \<Rightarrow> f64 \<Rightarrow> f64" where
  "f_add (Fin x) (Fin y) = f_round (x + y)"
| "f_add NaN _ = NaN"
| "f_add _ NaN = NaN"
| "f_add PInf NInf = NaN"
| "f_add NInf PInf = NaN"
| "f_add PInf _ = PInf"
| "f_add _ PInf = PInf"
| "f_add NInf _ = NInf"
| "f_add _ NInf = NInf"

fun f_neg :: "f64 \<Rightarrow> f64" where
  "f_neg NaN = NaN"
| "f_neg PInf = NInf"
| "f_neg NInf = PInf"
| "f_neg (Fin x) = Fin (- x)"

definition f_sub :: "f64 \<Rightarrow> f64 \<Rightarrow> f64" where
  "f_sub x y = f_add x (f_neg y)"

definition inf_of_sign :: "rat \<Rightarrow> f64" where
  "inf_of_sign s = (if s = 0 then NaN else if 0 < s then PInf else NInf)"

fun f_mul :: "f64 \<Rightarrow> f64 \<Rightarrow> f64" where
  "f_mul (Fin x) (Fin y) = f_round (x * y)"
| "f_mul NaN _ = NaN"
| "f_mul _ NaN = NaN"
| "f_mul PInf PInf = PInf"
| "f_mul NInf NInf = PInf"
| "f_mul PInf NInf = NInf"
| "f_mul NInf PInf = NInf"
| "f_mul PInf (Fin y) = inf_of_sign y"
| "f_mul NInf (Fin y) = inf_of_sign (- y)"
| "f_mul (Fin x) PInf = inf_of_sign x"
| "f_mul (Fin x) NInf = inf_of_sign (- x)"

text \<open>A zero divisor counts as \<open>+0\<close>.\<close>

fun f_div :: "f64 \<Rightarrow> f64 \<Rightarrow> f64" where
  "f_div (Fin x) (Fin y) = (if y = 0 then inf_of_sign x else f_round (x / y))"
| "f_div NaN _ = NaN"
| "f_div _ NaN = NaN"
| "f_div PInf (Fin y) = (if 0 \<le> y then PInf else NInf)"
| "f_div NInf (Fin y) = (if 0 \<le> y then NInf else PInf)"
| "f_div (Fin _) _ = Fin 0"
| "f_div _ _ = NaN"

fun f_lt :: "f64 \<Rightarrow> f64 \<Rightarrow> bool" where
  "f_lt (Fin x) (Fin y) = (x < y)"
| "f_lt (Fin _) PInf = True"
| "f_lt NInf (Fin _) = True"
| "f_lt NInf PInf = True"
| "f_lt _ _ = False"

fun f_le :: "f64 \<Rightarrow> f64 \<Rightarrow> bool" where
  "f_le NaN _ = False"
| "f_le _ NaN = False"
| "f_le x y = (\<not> f_lt y x)"

abbreviation f_gt :: "f64 \<Rightarrow> f64 \<Rightarrow> bool" where "f_gt x y \<equiv> f_lt y x"
abbreviation f_ge :: "f64 \<Rightarrow> f64 \<Rightarrow> bool" where "f_ge x y \<equiv> f_le y x"

text \<open>\<open>f64::min\<close> and \<open>f64::max\<close> ignore a NaN argument.\<close>

definition f_min :: "f64 \<Rightarrow> f64 \<Rightarrow> f64" where
  "f_min x y = (if x = NaN then y else if y = NaN then x else if f_lt y x then y else x)"

definition f_max :: "f64 \<Rightarrow> f64 \<Rightarrow> f64" where
  "f_max x y = (if x = NaN then y else if y = NaN then x else if f_lt x y then y else x)"

fun f_abs :: "f64 \<Rightarrow> f64" where
  "f_abs (Fin x) = Fin \<bar>x\<bar>"
| "f_abs NaN = NaN"
| "f_abs _ = PInf"

definition f_of_nat :: "nat \<Rightarrow> f64" where
  "f_of_nat n = f_round (of_nat n)"

definition f_of_int :: "int \<Rightarrow> f64" where
  "f_of_int n = f_round (of_int n)"

abbreviation f_of_word :: "'w::len word \<Rightarrow> f64" where
  "f_of_word w \<equiv> f_of_nat (unat w)"

text \<open>A decimal literal \<open>p / q\<close>.\<close>

abbreviation f_lit :: "rat \<Rightarrow> f64" where
  "f_lit q \<equiv> f_round q"

text \<open>\<open>as u64\<close> truncates, saturates and sends NaN to 0.\<close>

fun f_to_u64 :: "f64 \<Rightarrow> u64" where
  "f_to_u64 (Fin x) =
     (if x \<le> 0 then 0 else if 2 ^ 64 \<le> x then - 1 else word_of_int \<lfloor>x\<rfloor>)"
| "f_to_u64 PInf = - 1"
| "f_to_u64 NInf = 0"
| "f_to_u64 NaN = 0"

fun f_to_u32 :: "f64 \<Rightarrow> u32" where
  "f_to_u32 (Fin x) =
     (if x \<le> 0 then 0 else if 2 ^ 32 \<le> x then - 1 else word_of_int \<lfloor>x\<rfloor>)"
| "f_to_u32 PInf = - 1"
| "f_to_u32 NInf = 0"
| "f_to_u32 NaN = 0"

text \<open>Square root, correctly rounded: the nearest multiple of the unit in the last place.\<close>

fun isqrt :: "nat \<Rightarrow> nat" where
  "isqrt n = (if n = 0 then 0 else
     (let r = 2 * isqrt (n div 4) in if (r + 1) * (r + 1) \<le> n then r + 1 else r))"

declare isqrt.simps [simp del]

definition sqrtq :: "rat \<Rightarrow> rat" where
  "sqrtq x = (if x \<le> 0 then 0 else
     (let u = pow2 (ilog2 x div 2 - 52); y = x / (u * u); m = isqrt (nat \<lfloor>y\<rfloor>);
          h = of_nat m + 1 / 2
      in (if y < h * h then of_nat m else of_nat m + 1) * u))"

fun f_sqrt :: "f64 \<Rightarrow> f64" where
  "f_sqrt (Fin x) = (if x < 0 then NaN else Fin (sqrtq x))"
| "f_sqrt PInf = PInf"
| "f_sqrt _ = NaN"

text \<open>\<open>Duration::as_secs_f64\<close>: whole seconds plus the nanosecond fraction, each step rounded.\<close>

definition as_secs_f64 :: "duration \<Rightarrow> f64" where
  "as_secs_f64 d = f_add (f_of_nat (d div 1000000000))
     (f_div (f_of_nat (d mod 1000000000)) (Fin 1000000000))"

section \<open>Order, exactness, sign\<close>

lemma f_lt_irrefl [simp]: "\<not> f_lt x x"
  by (cases x) auto

lemma f_lt_trans: "f_lt x y \<Longrightarrow> f_lt y z \<Longrightarrow> f_lt x z"
  by (cases x; cases y; cases z) auto

lemma f_le_refl_iff [simp]: "f_le x x \<longleftrightarrow> x \<noteq> NaN"
  by (cases x) auto

lemma f_le_trans: "f_le x y \<Longrightarrow> f_le y z \<Longrightarrow> f_le x z"
  by (cases x; cases y; cases z) auto

lemma f_le_not_NaN: "f_le x y \<Longrightarrow> x \<noteq> NaN \<and> y \<noteq> NaN"
  by (cases x; cases y) auto

lemma f_not_lt: "x \<noteq> NaN \<Longrightarrow> y \<noteq> NaN \<Longrightarrow> \<not> f_lt x y \<longleftrightarrow> f_le y x"
  by (cases x; cases y) auto

lemma f_NaN_compare [simp]: "\<not> f_lt NaN x" "\<not> f_lt x NaN" "\<not> f_le NaN x" "\<not> f_le x NaN"
  by (cases x; simp)+

lemma f_le_Fin [simp]: "f_le (Fin x) (Fin y) \<longleftrightarrow> x \<le> y"
  by auto

lemma f_round_not_NaN [simp]: "f_round x \<noteq> NaN"
  by (simp add: f_round_def Let_def)

lemma f_round_mono: "x \<le> y \<Longrightarrow> f_le (f_round x) (f_round y)"
  using rndq_mono [of x y] by (auto simp: f_round_def Let_def)

lemma f_round_0 [simp]: "f_round 0 = Fin 0"
  using pow2_pos [of 1024] by (simp add: f_round_def not_le del: pow2_pos)

lemma pow2_1024: "pow2 1024 = 2 ^ 1024"
  by (simp add: pow2_def)

lemma rndq_pow2: "- 1074 \<le> k \<Longrightarrow> rndq (pow2 k) = pow2 k"
proof -
  assume "- 1074 \<le> k"
  moreover have "ilog2 (pow2 k) = k" by (rule ilog2_unique) (simp_all add: pow2_less_iff)
  ultimately have "rndq (of_int 1 * pow2 k) = of_int 1 * pow2 k"
    by (intro rndq_exact) (simp add: fexp_def)
  then show ?thesis by simp
qed

lemma fexp_small_int:
  assumes "0 < n" "n \<le> 2 ^ 53"
  shows "fexp (of_int n * pow2 0) \<le> 0 \<or> n = 2 ^ 53"
proof (cases "n = 2 ^ 53")
  case False
  with assms have "(of_int n :: rat) < of_int (2 ^ 53)" by (simp only: of_int_less_iff)
  then have "of_int n < pow2 53" by (simp add: pow2_def)
  then have "pow2 (ilog2 (of_int n)) < pow2 53"
    using ilog2_bounds(1) [of "of_int n"] assms(1) by simp
  then have "ilog2 (of_int n) < 53" by (simp only: pow2_less_iff)
  moreover have "pow2 0 = 1" by (simp add: pow2_def)
  ultimately show ?thesis using assms(1) by (simp add: fexp_def)
qed simp

lemma rndq_small_nat: "n \<le> 2 ^ 53 \<Longrightarrow> rndq (of_nat n) = of_nat n"
proof -
  assume n: "n \<le> 2 ^ 53"
  consider "n = 0" | "n = 2 ^ 53" | "0 < n" "n < 2 ^ 53" using n by linarith
  then show ?thesis
  proof cases
    case 2
    with rndq_pow2 [of 53] show ?thesis by (simp add: pow2_def)
  next
    case 3
    then have "int n \<le> 2 ^ 53" "int n \<noteq> 2 ^ 53" by auto
    then have "fexp (of_int (int n) * pow2 0) \<le> 0"
      using fexp_small_int [of "int n"] 3 by linarith
    then show ?thesis using rndq_exact [of "int n" 0] by (simp add: pow2_def)
  qed simp
qed

lemma f_round_range:
  assumes "0 \<le> x" "x \<le> 2 ^ 1023"
  shows "f_round x = Fin (rndq x)"
proof -
  have "rndq (pow2 1023) = pow2 1023" by (rule rndq_pow2) simp
  moreover have "x \<le> pow2 1023" using assms(2) by (simp add: pow2_def)
  ultimately have "rndq x \<le> pow2 1023" using rndq_mono [of x "pow2 1023"] by simp
  moreover have "pow2 1023 < pow2 1024" by (simp add: pow2_less_iff)
  ultimately have "rndq x < pow2 1024" by linarith
  moreover have "0 \<le> rndq x" using assms(1) by (rule rndq_nonneg)
  moreover have "0 < pow2 1024" by (rule pow2_pos)
  ultimately have "\<not> pow2 1024 \<le> rndq x" "\<not> rndq x \<le> - pow2 1024" by linarith+
  then show ?thesis by (simp add: f_round_def)
qed

lemma f_of_nat_small: "n \<le> 2 ^ 53 \<Longrightarrow> f_of_nat n = Fin (of_nat n)"
proof -
  assume n: "n \<le> 2 ^ 53"
  have "(2 :: nat) ^ 53 \<le> 2 ^ 1023" by (rule power_increasing) simp_all
  with n have "n \<le> 2 ^ 1023" by linarith
  then have "(of_nat n :: rat) \<le> of_nat (2 ^ 1023)" by (simp only: of_nat_le_iff)
  then show ?thesis
    using f_round_range [of "of_nat n"] rndq_small_nat [OF n] by (simp add: f_of_nat_def)
qed

lemma f_of_nat_mono: "m \<le> n \<Longrightarrow> f_le (f_of_nat m) (f_of_nat n)"
  by (simp add: f_of_nat_def f_round_mono)

lemma f_of_word_finite:
  obtains q where "f_of_word (w :: u64) = Fin q" "0 \<le> q" "0 < unat w \<Longrightarrow> 1 \<le> q" "q \<le> 2 ^ 64"
proof
  have "unat w < 2 ^ 64" using unat_bound [of w] by simp
  moreover have "(2 :: nat) ^ 64 \<le> 2 ^ 1023" by (rule power_increasing) simp_all
  ultimately have "unat w \<le> 2 ^ 1023" by linarith
  then have "(of_nat (unat w) :: rat) \<le> of_nat (2 ^ 1023)" by (simp only: of_nat_le_iff)
  then have "(of_nat (unat w) :: rat) \<le> 2 ^ 1023" by (simp only: of_nat_power of_nat_numeral)
  then show "f_of_word w = Fin (rndq (of_nat (unat w)))"
    unfolding f_of_nat_def by (intro f_round_range of_nat_0_le_iff)
  show "0 \<le> rndq (of_nat (unat w))" by (rule rndq_nonneg) (rule of_nat_0_le_iff)
  have "(of_nat (unat w) :: rat) \<le> of_nat (2 ^ 64)"
    using \<open>unat w < 2 ^ 64\<close> by (simp only: of_nat_le_iff less_imp_le)
  then have "of_nat (unat w) \<le> pow2 64" by (simp only: of_nat_power of_nat_numeral) (simp add: pow2_def)
  then show "rndq (of_nat (unat w)) \<le> 2 ^ 64"
    using rndq_mono [of "of_nat (unat w)" "pow2 64"] rndq_pow2 [of 64] by (simp add: pow2_def)
  show "1 \<le> rndq (of_nat (unat w))" if "0 < unat w"
  proof -
    have "(of_nat 1 :: rat) \<le> of_nat (unat w)" using that by (simp only: of_nat_le_iff)
    then have "rndq (of_nat 1) \<le> rndq (of_nat (unat w))" by (rule rndq_mono)
    then show ?thesis using rndq_small_nat [of 1] by simp
  qed
qed

text \<open>A quotient of counters is a finite non-negative number.\<close>

lemma f_quotient_finite:
  assumes "0 < unat (b :: u64)"
  obtains r where "f_div (f_of_word (a :: u64)) (f_of_word b) = Fin r" "0 \<le> r"
proof -
  obtain p where p: "f_of_word a = Fin p" "0 \<le> p" "p \<le> 2 ^ 64" by (rule f_of_word_finite)
  obtain q where q: "f_of_word b = Fin q" "1 \<le> q" using assms by (metis f_of_word_finite)
  have "p / q \<le> p / 1" using p q by (intro divide_left_mono) simp_all
  also have "\<dots> \<le> 2 ^ 1023" using p(3) power_increasing [of 64 1023 "2 :: rat"] by simp
  finally have "f_round (p / q) = Fin (rndq (p / q))" using p q by (intro f_round_range) simp_all
  with p q that rndq_nonneg [of "p / q"] show ?thesis by simp
qed

text \<open>A ratio of counters is a number between 0 and 1.\<close>

lemma f_ratio_unit:
  assumes "unat (a :: u64) \<le> unat b" "0 < unat (b :: u64)"
  obtains r where "f_div (f_of_word a) (f_of_word b) = Fin r" "0 \<le> r" "r \<le> 1"
proof -
  obtain p where p: "f_of_word a = Fin p" "0 \<le> p" by (rule f_of_word_finite)
  obtain q where q: "f_of_word b = Fin q" "1 \<le> q"
    using assms(2) by (metis f_of_word_finite)
  have "p \<le> q" using f_of_nat_mono [OF assms(1)] p q by simp
  with p q have le1: "p / q \<le> 1" and ge0: "0 \<le> p / q" by (simp_all add: divide_le_eq)
  have "(1 :: rat) \<le> 2 ^ 1023" by (rule one_le_power) simp
  with le1 have "p / q \<le> 2 ^ 1023" by (rule order_trans)
  then have "f_round (p / q) = Fin (rndq (p / q))" using ge0 f_round_range by blast
  moreover have "rndq (p / q) \<le> 1" using rndq_mono [OF le1] rndq_small_nat [of 1] by simp
  moreover have "0 \<le> rndq (p / q)" using ge0 by (rule rndq_nonneg)
  ultimately show ?thesis using p q that by auto
qed

lemma f_round_small: "0 \<le> x \<Longrightarrow> x \<le> 2 ^ 64 \<Longrightarrow> f_round x = Fin (rndq x)"
proof -
  assume x: "0 \<le> x" "x \<le> 2 ^ 64"
  have "(2 :: rat) ^ 64 \<le> 2 ^ 1023" by (rule power_increasing) simp_all
  with x(2) have "x \<le> 2 ^ 1023" by (rule order_trans)
  with x(1) show ?thesis by (rule f_round_range)
qed

lemma as_secs_f64_whole: "s \<le> 2 ^ 53 \<Longrightarrow> as_secs_f64 (from_secs s) = Fin (of_nat s)"
  using f_of_nat_small [of s] rndq_small_nat [of s]
  by (auto simp: as_secs_f64_def f_of_nat_small [of 0] simp flip: f_of_nat_def)

text \<open>Non-negative arithmetic stays non-negative.\<close>

definition f_nonneg :: "f64 \<Rightarrow> bool" where
  "f_nonneg x \<longleftrightarrow> f_le (Fin 0) x"

lemma f_nonneg_simps [simp]:
  "f_nonneg PInf" "\<not> f_nonneg NInf" "\<not> f_nonneg NaN" "f_nonneg (Fin x) \<longleftrightarrow> 0 \<le> x"
  by (auto simp: f_nonneg_def)

lemma f_nonneg_round: "0 \<le> x \<Longrightarrow> f_nonneg (f_round x)"
  using f_round_mono [of 0 x] by (simp add: f_nonneg_def)

lemma f_nonneg_of_nat: "f_nonneg (f_of_nat n)"
  unfolding f_of_nat_def by (rule f_nonneg_round) (rule of_nat_0_le_iff)

lemma f_nonneg_add: "f_nonneg x \<Longrightarrow> f_nonneg y \<Longrightarrow> f_nonneg (f_add x y)"
  by (cases x; cases y) (auto intro: f_nonneg_round)

lemma f_nonneg_mul: "f_nonneg x \<Longrightarrow> f_nonneg y \<Longrightarrow> f_nonneg (f_mul x y) \<or> f_mul x y = NaN"
  by (cases x; cases y) (auto simp: inf_of_sign_def intro: f_nonneg_round)

lemma f_mul_NaN: "f_mul NaN x = NaN" "f_mul x NaN = NaN"
  by (cases x; simp)+

lemma f_nonneg_div: "f_nonneg x \<Longrightarrow> 0 < y \<Longrightarrow> f_nonneg (f_div x (Fin y))"
  by (cases x) (auto intro: f_nonneg_round)

lemma f_nonneg_as_secs [simp]: "f_nonneg (as_secs_f64 d)"
  by (simp add: as_secs_f64_def f_nonneg_add f_nonneg_of_nat f_nonneg_div)

section \<open>Rounding error\<close>

lemma round_even_error: "\<bar>of_int (round_even y) - y\<bar> \<le> 1 / 2"
proof -
  have "of_int \<lfloor>y\<rfloor> \<le> y" "y < of_int \<lfloor>y\<rfloor> + 1" using floor_correct [of y] by simp_all
  then show ?thesis
    by (cases "y - of_int \<lfloor>y\<rfloor> < 1 / 2"; cases "1 / 2 < y - of_int \<lfloor>y\<rfloor>")
      (auto simp: round_even_def Let_def abs_le_iff)
qed

lemma rndq_error:
  assumes "pow2 (- 1022) \<le> x"
  shows "\<bar>rndq x - x\<bar> \<le> x * pow2 (- 53)"
proof -
  have pos: "0 < x" using assms pow2_pos [of "- 1022"] by linarith
  have "pow2 (- 1022) < pow2 (ilog2 x + 1)" using assms ilog2_bounds(2) [OF pos] by linarith
  then have u: "fexp x = ilog2 x - 52" using pos by (simp add: pow2_less_iff fexp_def)
  let ?u = "pow2 (fexp x)"
  have "rndq x - x = (of_int (round_even (x / ?u)) - x / ?u) * ?u"
    using pos by (simp add: rndq_def left_diff_distrib)
  then have "\<bar>rndq x - x\<bar> = \<bar>of_int (round_even (x / ?u)) - x / ?u\<bar> * ?u"
    by (simp add: abs_mult)
  also have "\<dots> \<le> 1 / 2 * ?u" by (rule mult_right_mono [OF round_even_error]) simp
  also have "\<dots> = pow2 (ilog2 x) * pow2 (- 53)"
  proof -
    have "?u = pow2 (ilog2 x) * pow2 (- 52)" by (simp add: u flip: pow2_add)
    moreover have "1 / 2 * pow2 (- 52) = pow2 (- 53)" by (simp add: pow2_def power_int_minus)
    ultimately show ?thesis by simp
  qed
  also have "\<dots> \<le> x * pow2 (- 53)"
    by (rule mult_right_mono [OF ilog2_bounds(1) [OF pos]]) simp
  finally show ?thesis .
qed

text \<open>A concrete rounding, from its exponent and its significand.\<close>

lemma round_even_eqI: "of_int n - 1 / 2 < y \<Longrightarrow> y < of_int n + 1 / 2 \<Longrightarrow> round_even y = n"
proof -
  assume y: "of_int n - 1 / 2 < y" "y < of_int n + 1 / 2"
  have "of_int (round_even y) - y \<le> 1 / 2" "y - of_int (round_even y) \<le> 1 / 2"
    using round_even_error [of y] unfolding abs_le_iff by simp_all
  with y have "of_int (n - 1) < (of_int (round_even y) :: rat)" "of_int (round_even y) < (of_int (n + 1) :: rat)"
    unfolding of_int_diff of_int_add of_int_1 by linarith+
  then show ?thesis by (simp only: of_int_less_iff)
qed

lemma rndq_eqI:
  assumes "pow2 k \<le> x" "x < pow2 (k + 1)" "- 1022 \<le> k"
    and "of_int n - 1 / 2 < x / pow2 (k - 52)" "x / pow2 (k - 52) < of_int n + 1 / 2"
  shows "rndq x = of_int n * pow2 (k - 52)"
proof -
  have pos: "0 < x" using assms(1) pow2_pos [of k] by linarith
  have "ilog2 x = k" using pos assms(1,2) by (rule ilog2_unique)
  with pos assms(3) have "fexp x = k - 52" by (simp add: fexp_def)
  with pos assms(4,5) show ?thesis by (simp add: rndq_def round_even_eqI)
qed

section \<open>Square root\<close>

lemma isqrt_bounds: "isqrt n * isqrt n \<le> n \<and> n < Suc (isqrt n) * Suc (isqrt n)"
proof (induction n rule: isqrt.induct)
  case (1 n)
  show ?case
  proof (cases "n = 0")
    case True
    then show ?thesis by (simp add: isqrt.simps)
  next
    case False
    let ?q = "isqrt (n div 4)"
    have IH: "?q * ?q \<le> n div 4" "n div 4 < Suc ?q * Suc ?q" using 1 False by simp_all
    have "4 * (?q * ?q) \<le> n" using IH(1) by linarith
    moreover have "n < 4 * (Suc ?q * Suc ?q)" using IH(2) by linarith
    ultimately show ?thesis using False
      by (subst (1 2 3 4) isqrt.simps) (simp add: Let_def algebra_simps)
  qed
qed

lemma sqrtq_nonneg: "0 \<le> sqrtq x"
  by (simp add: sqrtq_def Let_def)

section \<open>Printing\<close>

text \<open>\<open>{:.2}\<close> of a number, its exact decimal value rounded half to even.\<close>

definition show_fixed2 :: "f64 \<Rightarrow> string" where
  "show_fixed2 x =
     (case x of
        Fin q \<Rightarrow>
          (let n = nat \<bar>round_even (q * 100)\<bar>
           in (if q < 0 then ''-'' else []) @ show_nat (n div 100) @ ''.''
              @ [digit_char (n mod 100 div 10), digit_char (n mod 10)])
      | PInf \<Rightarrow> ''inf'' | NInf \<Rightarrow> ''-inf'' | NaN \<Rightarrow> ''NaN'')"

end
