(* ===== verification/Core_Config.thy ===== *)
theory Core_Config
  imports Core_Types F64
begin

text \<open>
  Daemon configuration, \<open>crates/duende-core/src/config.rs\<close>: the records, their defaults,
  validation and loading. Paths are strings; the environment is the list of its entries in the
  order the hash map iterates. Names are checked character by character, so the UTF-8 bytes are
  decoded; which code points beyond ASCII are alphanumeric is the Unicode table, an argument
  \<open>ucd\<close>. Reading a file and parsing TOML are arguments of \<open>load\<close>.
\<close>

section \<open>Characters\<close>

definition utf8_len :: "char \<Rightarrow> nat" where
  "utf8_len c = (let b = of_char c :: nat
     in if b < 128 then 1 else if b < 224 then 2 else if b < 240 then 3 else 4)"

definition utf8_lead :: "char \<Rightarrow> nat" where
  "utf8_lead c = (let b = of_char c :: nat
     in if b < 128 then b else if b < 224 then b mod 32 else if b < 240 then b mod 16 else b mod 8)"

definition utf8_fold :: "nat \<Rightarrow> string \<Rightarrow> nat" where
  "utf8_fold = foldl (\<lambda>n c. 64 * n + of_char c mod 64)"

fun chars :: "string \<Rightarrow> nat list" where
  "chars [] = []"
| "chars (c # cs) =
     utf8_fold (utf8_lead c) (take (utf8_len c - 1) cs) # chars (drop (utf8_len c - 1) cs)"

definition is_alphanumeric :: "(nat \<Rightarrow> bool) \<Rightarrow> nat \<Rightarrow> bool" where
  "is_alphanumeric ucd c =
     (if c < 128 then 48 \<le> c \<and> c \<le> 57 \<or> 65 \<le> c \<and> c \<le> 90 \<or> 97 \<le> c \<and> c \<le> 122 else ucd c)"

definition name_char :: "(nat \<Rightarrow> bool) \<Rightarrow> nat \<Rightarrow> bool" where
  "name_char ucd c \<longleftrightarrow> is_alphanumeric ucd c \<or> c = 45 \<or> c = 95"

section \<open>Records and defaults\<close>

record resource_config =
  rc_memory_bytes :: u64
  rc_memory_swap_bytes :: u64
  rc_cpu_quota_percent :: f64
  rc_cpu_shares :: u64
  rc_io_read_bps :: u64
  rc_io_write_bps :: u64
  rc_pids_max :: u64
  rc_open_files_max :: u64
  rc_lock_memory :: bool
  rc_lock_memory_required :: bool

definition resource_default :: resource_config where
  "resource_default =
     \<lparr>rc_memory_bytes = 512 * 1024 * 1024, rc_memory_swap_bytes = 1024 * 1024 * 1024,
      rc_cpu_quota_percent = Fin 100, rc_cpu_shares = 1024,
      rc_io_read_bps = 0, rc_io_write_bps = 0, rc_pids_max = 100, rc_open_files_max = 1024,
      rc_lock_memory = False, rc_lock_memory_required = False\<rparr>"

record health_check_config =
  hcc_enabled :: bool
  hcc_interval :: duration
  hcc_timeout :: duration
  hcc_retries :: u32

definition health_check_default :: health_check_config where
  "health_check_default =
     \<lparr>hcc_enabled = True, hcc_interval = from_secs 30, hcc_timeout = from_secs 10, hcc_retries = 3\<rparr>"

datatype restart_policy = Never | OnFailure | Always | UnlessStopped

record platform_config =
  pc_container_image :: "string option"
  pc_vcpus :: "u32 option"
  pc_kernel_path :: "string option"
  pc_rootfs_path :: "string option"
  pc_priority :: "u8 option"

definition platform_default :: platform_config where
  "platform_default =
     \<lparr>pc_container_image = None, pc_vcpus = None, pc_kernel_path = None, pc_rootfs_path = None,
      pc_priority = None\<rparr>"

record daemon_config =
  dc_name :: string
  dc_version :: string
  dc_description :: string
  dc_binary_path :: string
  dc_config_path :: "string option"
  dc_args :: "string list"
  dc_env :: "(string \<times> string) list"
  dc_user :: "string option"
  dc_group :: "string option"
  dc_working_dir :: "string option"
  dc_resources :: resource_config
  dc_health_check :: health_check_config
  dc_restart :: restart_policy
  dc_shutdown_timeout :: duration
  dc_platform :: platform_config

definition config_new :: "string \<Rightarrow> string \<Rightarrow> daemon_config" where
  "config_new name binary_path =
     \<lparr>dc_name = name, dc_version = ''0.1.0'', dc_description = '''', dc_binary_path = binary_path,
      dc_config_path = None, dc_args = [], dc_env = [], dc_user = None, dc_group = None,
      dc_working_dir = None, dc_resources = resource_default,
      dc_health_check = health_check_default, dc_restart = OnFailure,
      dc_shutdown_timeout = from_secs 30, dc_platform = platform_default\<rparr>"

section \<open>Validation\<close>

definition resource_validate :: "resource_config \<Rightarrow> ('io daemon_error, unit) outcome" where
  "resource_validate r =
     (if rc_memory_bytes r = 0 then Err (DConfig ''memory_bytes must be greater than 0'')
      else if f_le (rc_cpu_quota_percent r) (Fin 0)
        then Err (DConfig ''cpu_quota_percent must be positive'')
      else if rc_pids_max r = 0 then Err (DConfig ''pids_max must be greater than 0'')
      else Ok ())"

definition config_validate :: "(nat \<Rightarrow> bool) \<Rightarrow> daemon_config \<Rightarrow> ('io daemon_error, unit) outcome" where
  "config_validate ucd c =
     (if dc_name c = [] then Err (DConfig ''name cannot be empty'')
      else if \<not> list_all (name_char ucd) (chars (dc_name c))
        then Err (DConfig
          ''name must contain only alphanumeric characters, hyphens, and underscores'')
      else if dc_binary_path c = [] then Err (DConfig ''binary_path cannot be empty'')
      else and_then (resource_validate (dc_resources c)) (\<lambda>_. Ok ()))"

text \<open>\<open>read_file\<close> and \<open>from_toml\<close> give the value or the text of their error.\<close>

definition config_load ::
  "(string \<Rightarrow> (string, string) outcome) \<Rightarrow> (string \<Rightarrow> (string, daemon_config) outcome)
   \<Rightarrow> (nat \<Rightarrow> bool) \<Rightarrow> string \<Rightarrow> ('io daemon_error, daemon_config) outcome" where
  "config_load read_file from_toml ucd path =
     (case read_file path of
        Err e \<Rightarrow> Err (DConfig (''failed to read config: '' @ e))
      | Panic \<Rightarrow> Panic
      | Ok content \<Rightarrow>
          (case from_toml content of
             Err e \<Rightarrow> Err (DConfig (''failed to parse config: '' @ e))
           | Panic \<Rightarrow> Panic
           | Ok config \<Rightarrow> and_then (config_validate ucd config) (\<lambda>_. Ok config)))"

section \<open>What validation promises\<close>

definition config_ok :: "(nat \<Rightarrow> bool) \<Rightarrow> daemon_config \<Rightarrow> bool" where
  "config_ok ucd c \<longleftrightarrow>
     dc_name c \<noteq> [] \<and> list_all (name_char ucd) (chars (dc_name c)) \<and> dc_binary_path c \<noteq> []
     \<and> 0 < unat (rc_memory_bytes (dc_resources c)) \<and> 0 < unat (rc_pids_max (dc_resources c))
     \<and> (f_lt (Fin 0) (rc_cpu_quota_percent (dc_resources c))
        \<or> rc_cpu_quota_percent (dc_resources c) = NaN)"

lemma f_le_zero_iff: "f_le x (Fin 0) \<longleftrightarrow> \<not> (f_lt (Fin 0) x \<or> x = NaN)"
  by (cases x) auto

lemma resource_validate_iff:
  "resource_validate r = Ok () \<longleftrightarrow>
     0 < unat (rc_memory_bytes r) \<and> 0 < unat (rc_pids_max r)
     \<and> (f_lt (Fin 0) (rc_cpu_quota_percent r) \<or> rc_cpu_quota_percent r = NaN)"
  by (auto simp: resource_validate_def unat_gt_0 f_le_zero_iff)

lemma config_validate_iff: "config_validate ucd c = Ok () \<longleftrightarrow> config_ok ucd c"
  by (auto simp: config_validate_def config_ok_def and_then_eq_Ok resource_validate_iff)

lemma config_validate_rejects:
  "\<not> config_ok ucd c \<Longrightarrow> \<exists>m. config_validate ucd c = Err (DConfig m)"
  by (auto simp: config_ok_def config_validate_def resource_validate_def unat_gt_0 f_le_zero_iff)

text \<open>For a name in ASCII the check is the one on its bytes.\<close>

lemma chars_ascii: "list_all (\<lambda>c. of_char c < (128 :: nat)) s \<Longrightarrow> chars s = map of_char s"
  by (induction s) (auto simp: utf8_len_def utf8_lead_def utf8_fold_def)

lemma chars_nonempty [simp]: "chars s = [] \<longleftrightarrow> s = []"
  by (cases s) simp_all

text \<open>C8: Validation accepts exactly the configurations with a non-empty name of alphanumeric
  characters, hyphens and underscores, a binary path, and non-zero limits; the CPU quota has to be
  above zero or NaN (the comparison with zero lets NaN through). Everything else is a
  configuration error, never a panic, and \<open>load\<close> hands out accepted configurations only.\<close>

theorem validate_accepts_exactly:
  "(config_validate ucd c = (Ok () :: ('io daemon_error, unit) outcome) \<longleftrightarrow> config_ok ucd c)
   \<and> (config_ok ucd c \<or> (\<exists>m. config_validate ucd c = (Err (DConfig m) :: ('io daemon_error, unit) outcome)))
   \<and> (config_load rd toml ucd p = (Ok c :: ('io daemon_error, daemon_config) outcome) \<longleftrightarrow>
        (\<exists>t. rd p = Ok t \<and> toml t = Ok c) \<and> config_ok ucd c)"
proof (intro conjI)
  show "config_ok ucd c \<or>
      (\<exists>m. config_validate ucd c = (Err (DConfig m) :: ('io daemon_error, unit) outcome))"
    using config_validate_rejects by blast
qed (auto simp: config_validate_iff config_load_def and_then_eq_Ok split: outcome.splits)

text \<open>A new configuration passes whenever its name and path do: the defaults are accepted.\<close>

lemma config_new_ok:
  "config_ok ucd (config_new name path) \<longleftrightarrow>
     name \<noteq> [] \<and> list_all (name_char ucd) (chars name) \<and> path \<noteq> []"
  by (auto simp: config_ok_def config_new_def resource_default_def)

end
