(* ===== verification/Core_Daemon.thy ===== *)
theory Core_Daemon
  imports Core_Config
begin

text \<open>
  The runtime context of a daemon, \<open>crates/duende-core/src/daemon.rs\<close>: the signal receiver, the
  shutdown flag and the configuration, and the handle that sends signals.

  The channel is tokio's: \<open>'rx\<close> is its receiver and \<open>try_recv\<close>, \<open>recv\<close> are its two receives
  (\<open>None\<close>: nothing there, or closed); \<open>send\<close> acts on the world \<open>'w\<close> and is delivered, refused
  because the receiver is gone, or waits for ever on a full channel.
\<close>

section \<open>Receiving\<close>

record 'rx daemon_context =
  cx_signal_rx :: 'rx
  cx_shutdown :: bool
  cx_config :: daemon_config

type_synonym 'rx receive = "'rx \<Rightarrow> signal option \<times> 'rx"

definition context_new :: "'rx \<Rightarrow> 'h \<Rightarrow> daemon_config \<Rightarrow> 'rx daemon_context \<times> 'h" where
  "context_new rx handle config =
     (\<lparr>cx_signal_rx = rx, cx_shutdown = False, cx_config = config\<rparr>, handle)"

definition should_shutdown :: "'rx daemon_context \<Rightarrow> bool" where
  "should_shutdown cx = cx_shutdown cx"

definition request_shutdown :: "'rx daemon_context \<Rightarrow> 'rx daemon_context" where
  "request_shutdown cx = cx\<lparr>cx_shutdown := True\<rparr>"

fun terminates :: "signal \<Rightarrow> bool" where
  "terminates Term = True"
| "terminates Int' = True"
| "terminates Quit = True"
| "terminates _ = False"

definition try_recv_signal ::
  "'rx receive \<Rightarrow> 'rx daemon_context \<Rightarrow> signal option \<times> 'rx daemon_context" where
  "try_recv_signal try_recv cx =
     (case try_recv (cx_signal_rx cx) of
        (Some s, rx) \<Rightarrow>
          (Some s, cx\<lparr>cx_signal_rx := rx, cx_shutdown := cx_shutdown cx \<or> terminates s\<rparr>)
      | (None, rx) \<Rightarrow> (None, cx\<lparr>cx_signal_rx := rx\<rparr>))"

definition recv_signal ::
  "'rx receive \<Rightarrow> 'rx daemon_context \<Rightarrow> signal option \<times> 'rx daemon_context" where
  "recv_signal recv cx =
     (case recv (cx_signal_rx cx) of
        (None, rx) \<Rightarrow> (None, cx\<lparr>cx_signal_rx := rx\<rparr>)
      | (Some s, rx) \<Rightarrow>
          (Some s, cx\<lparr>cx_signal_rx := rx, cx_shutdown := cx_shutdown cx \<or> terminates s\<rparr>))"

section \<open>Sending\<close>

datatype delivery = Delivered | Receiver_gone | Never_completes

type_synonym ('h, 'w) sender = "'h \<Rightarrow> signal \<Rightarrow> 'w \<Rightarrow> delivery \<times> 'w"

text \<open>\<open>None\<close>: the future never completes.\<close>

definition send_signal ::
  "('h, 'w) sender \<Rightarrow> 'h \<Rightarrow> signal \<Rightarrow> 'w \<Rightarrow> ('io daemon_error, unit) outcome option \<times> 'w" where
  "send_signal send handle s w =
     (case send handle s w of
        (Delivered, w') \<Rightarrow> (Some (Ok ()), w')
      | (Receiver_gone, w') \<Rightarrow> (Some (Err (DSignal ''daemon context closed'')), w')
      | (Never_completes, w') \<Rightarrow> (None, w'))"

definition handle_shutdown ::
  "('h, 'w) sender \<Rightarrow> 'h \<Rightarrow> 'w \<Rightarrow> ('io daemon_error, unit) outcome option \<times> 'w" where
  "handle_shutdown send handle w = send_signal send handle Term w"

section \<open>The shutdown flag\<close>

datatype 'rx context_call = TryRecv | Recv | RequestShutdown

fun context_step ::
  "'rx receive \<Rightarrow> 'rx receive \<Rightarrow> 'rx daemon_context \<Rightarrow> 'rx context_call \<Rightarrow> 'rx daemon_context" where
  "context_step try_recv recv cx TryRecv = snd (try_recv_signal try_recv cx)"
| "context_step try_recv recv cx Recv = snd (recv_signal recv cx)"
| "context_step try_recv recv cx RequestShutdown = request_shutdown cx"

text \<open>What a run of the context is told: the signals that came, and the explicit requests.\<close>

fun context_log ::
  "'rx receive \<Rightarrow> 'rx receive \<Rightarrow> 'rx daemon_context \<Rightarrow> 'rx context_call list \<Rightarrow> signal option list" where
  "context_log try_recv recv cx [] = []"
| "context_log try_recv recv cx (TryRecv # cs) =
     (case try_recv_signal try_recv cx of
        (Some s, cx') \<Rightarrow> Some s # context_log try_recv recv cx' cs
      | (None, cx') \<Rightarrow> context_log try_recv recv cx' cs)"
| "context_log try_recv recv cx (Recv # cs) =
     (case recv_signal recv cx of
        (Some s, cx') \<Rightarrow> Some s # context_log try_recv recv cx' cs
      | (None, cx') \<Rightarrow> context_log try_recv recv cx' cs)"
| "context_log try_recv recv cx (RequestShutdown # cs) =
     None # context_log try_recv recv (request_shutdown cx) cs"

text \<open>\<open>None\<close> is a request of the daemon itself.\<close>

definition asks_shutdown :: "signal option \<Rightarrow> bool" where
  "asks_shutdown x \<longleftrightarrow> x \<in> {None, Some Term, Some Int', Some Quit}"

lemma asks_shutdown_simps: "asks_shutdown None" "asks_shutdown (Some s) = terminates s"
  by (simp add: asks_shutdown_def) (cases s; simp add: asks_shutdown_def)

lemma try_recv_signal_flag:
  "should_shutdown (snd (try_recv_signal r cx)) \<longleftrightarrow>
     should_shutdown cx \<or> (\<exists>s. fst (try_recv_signal r cx) = Some s \<and> terminates s)"
  by (auto simp: try_recv_signal_def should_shutdown_def split: prod.splits option.splits)

lemma recv_is_try_recv: "recv_signal r cx = try_recv_signal r cx"
  by (auto simp: recv_signal_def try_recv_signal_def split: prod.splits option.splits)

lemma context_run_flag:
  "should_shutdown (run (context_step t r) cx cs) \<longleftrightarrow>
     should_shutdown cx \<or> list_ex asks_shutdown (context_log t r cx cs)"
proof (induction cs arbitrary: cx)
  case (Cons c cs)
  show ?case
  proof (cases c)
    case TryRecv
    with Cons.IH try_recv_signal_flag [of t cx] show ?thesis
      by (auto simp: asks_shutdown_simps split: prod.splits option.splits)
  next
    case Recv
    with Cons.IH try_recv_signal_flag [of r cx] show ?thesis
      by (auto simp: asks_shutdown_simps recv_is_try_recv split: prod.splits option.splits)
  next
    case RequestShutdown
    with Cons.IH show ?thesis
      by (simp add: asks_shutdown_simps should_shutdown_def request_shutdown_def)
  qed
qed simp

lemma context_run_config: "cx_config (run (context_step t r) cx cs) = cx_config cx"
proof (induction cs arbitrary: cx)
  case (Cons c cs)
  then show ?case
    by (cases c) (auto simp: recv_is_try_recv try_recv_signal_def request_shutdown_def
        split: prod.splits option.splits)
qed simp

text \<open>C9: From a new context, whatever the channel delivers, the shutdown flag is set exactly when
  the daemon asked for it or a termination signal (\<open>Term\<close>, \<open>Int\<close>, \<open>Quit\<close>) was received, once set
  it stays, and the configuration never changes.\<close>

theorem context_shutdown_exactly:
  "(should_shutdown (run (context_step t r) (fst (context_new rx h c)) cs) \<longleftrightarrow>
      list_ex asks_shutdown (context_log t r (fst (context_new rx h c)) cs))
   \<and> (should_shutdown (run (context_step t r) cx (cs @ ds)) \<longleftrightarrow>
        should_shutdown (run (context_step t r) cx cs)
        \<or> list_ex asks_shutdown (context_log t r (run (context_step t r) cx cs) ds))
   \<and> cx_config (run (context_step t r) (fst (context_new rx h c)) cs) = c"
proof (intro conjI)
  show "should_shutdown (run (context_step t r) (fst (context_new rx h c)) cs) \<longleftrightarrow>
      list_ex asks_shutdown (context_log t r (fst (context_new rx h c)) cs)"
    by (simp add: context_run_flag) (simp add: should_shutdown_def context_new_def)
  show "should_shutdown (run (context_step t r) cx (cs @ ds)) \<longleftrightarrow>
        should_shutdown (run (context_step t r) cx cs)
        \<or> list_ex asks_shutdown (context_log t r (run (context_step t r) cx cs) ds)"
    unfolding run_append by (rule context_run_flag)
qed (simp add: context_run_config context_new_def)

text \<open>A channel as what each look into it finds, so that a signal may come between any two looks.\<close>

definition polled :: "signal option list receive" where
  "polled qs = (case qs of [] \<Rightarrow> (None, []) | q # rest \<Rightarrow> (q, rest))"

text \<open>A witness run: \<open>Hup\<close> leaves the flag alone, \<open>Term\<close> sets it.\<close>

definition list_recv :: "signal list receive" where
  "list_recv ss = (case ss of [] \<Rightarrow> (None, []) | s # rest \<Rightarrow> (Some s, rest))"

lemma context_example:
  "map (\<lambda>n. should_shutdown (run (context_step list_recv list_recv)
      (fst (context_new [Hup, Term] () (config_new ''d'' ''/d''))) (replicate n TryRecv))) [1, 2]
   = [False, True]"
  by (simp add: context_new_def try_recv_signal_def list_recv_def should_shutdown_def numeral_2_eq_2)

end
