(* ===== verification/Core_Manager.thy ===== *)
theory Core_Manager
  imports Core_Daemon
begin

text \<open>
  The daemon manager, \<open>crates/duende-core/src/manager.rs\<close>: restart policies and backoff, the
  registry of managed daemons, and every method of \<open>DaemonManager\<close> as a function of the state.

  Each method holds the registry lock, and the entry's lock, over everything it does, so a method is
  one step; \<open>Manager_Tasks\<close> shows that from the single steps. The hash map is a map; the order in which it lists its keys is the argument \<open>iter\<close>.
  \<open>f64::powi\<close> has unspecified precision in Rust and is an argument too.
\<close>

section \<open>Restart policies\<close>

record backoff_config =
  bo_initial_delay :: duration
  bo_max_delay :: duration
  bo_multiplier :: f64
  bo_max_retries :: u32

definition with_initial_delay :: "duration \<Rightarrow> backoff_config \<Rightarrow> backoff_config" where
  "with_initial_delay delay c = c\<lparr>bo_initial_delay := delay\<rparr>"

definition with_max_delay :: "duration \<Rightarrow> backoff_config \<Rightarrow> backoff_config" where
  "with_max_delay delay c = c\<lparr>bo_max_delay := delay\<rparr>"

definition with_multiplier :: "f64 \<Rightarrow> backoff_config \<Rightarrow> backoff_config" where
  "with_multiplier multiplier c = c\<lparr>bo_multiplier := multiplier\<rparr>"

definition with_max_retries :: "u32 \<Rightarrow> backoff_config \<Rightarrow> backoff_config" where
  "with_max_retries max_retries c = c\<lparr>bo_max_retries := max_retries\<rparr>"

datatype manager_policy =
    RNever
  | RAlways
  | ROnFailure
  | RMaxRetries u32
  | RWithBackoff backoff_config

definition backoff_default :: backoff_config where
  "backoff_default =
     \<lparr>bo_initial_delay = from_secs 1, bo_max_delay = from_secs 300, bo_multiplier = Fin 2,
      bo_max_retries = 10\<rparr>"

text \<open>\<open>Duration::from_secs_f64\<close>: nearest nanosecond; panics (\<open>None\<close>) on a negative, too large or
  non-finite argument.\<close>

fun duration_from_secs_f64 :: "f64 \<Rightarrow> duration option" where
  "duration_from_secs_f64 (Fin x) =
     (if x < 0 \<or> 2 ^ 64 \<le> x then None else Some (nat (round_even (x * 1000000000))))"
| "duration_from_secs_f64 _ = None"

definition delay_for :: "(f64 \<Rightarrow> i32 \<Rightarrow> f64) \<Rightarrow> backoff_config \<Rightarrow> u32 \<Rightarrow> duration option" where
  "delay_for pow_i c restart_count =
     (let base_secs = as_secs_f64 (bo_initial_delay c);
          exp_secs = f_mul base_secs (pow_i (bo_multiplier c) restart_count);
          clamped_secs = f_min exp_secs (as_secs_f64 (bo_max_delay c))
      in duration_from_secs_f64 clamped_secs)"

fun failed_exit :: "exit_reason \<Rightarrow> bool" where
  "failed_exit (ExitError _) = True"
| "failed_exit (ExitResourceExhausted _) = True"
| "failed_exit _ = False"

fun should_restart :: "manager_policy \<Rightarrow> exit_reason \<Rightarrow> u32 \<Rightarrow> bool" where
  "should_restart RNever r n = False"
| "should_restart RAlways r n = True"
| "should_restart ROnFailure r n = failed_exit r"
| "should_restart (RMaxRetries k) r n = (n < k)"
| "should_restart (RWithBackoff c) r n = (n < bo_max_retries c \<and> failed_exit r)"

fun restart_delay :: "(f64 \<Rightarrow> i32 \<Rightarrow> f64) \<Rightarrow> manager_policy \<Rightarrow> u32 \<Rightarrow> duration option" where
  "restart_delay pow_i (RWithBackoff c) n = delay_for pow_i c n"
| "restart_delay pow_i _ n = Some (from_secs 1)"

section \<open>The registry\<close>

record 'h managed_daemon =
  md_id :: daemon_id
  md_name :: string
  md_status :: daemon_status
  md_config :: daemon_config
  md_restart_policy :: manager_policy
  md_restart_count :: u32
  md_last_health :: "health_status option"
  md_last_started :: "instant option"
  md_context_handle :: "'h option"

definition managed_new :: "daemon_id \<Rightarrow> string \<Rightarrow> daemon_config \<Rightarrow> 'h managed_daemon" where
  "managed_new i name config =
     \<lparr>md_id = i, md_name = name, md_status = Created, md_config = config,
      md_restart_policy = ROnFailure, md_restart_count = 0, md_last_health = None,
      md_last_started = None, md_context_handle = None\<rparr>"

definition with_restart_policy :: "manager_policy \<Rightarrow> 'h managed_daemon \<Rightarrow> 'h managed_daemon" where
  "with_restart_policy p d = d\<lparr>md_restart_policy := p\<rparr>"

record 'h manager =
  daemons :: "daemon_id \<rightharpoonup> 'h managed_daemon"
  health_check_interval :: duration
  mgr_shutdown_timeout :: duration

definition manager_new :: "'h manager" where
  "manager_new = \<lparr>daemons = (\<lambda>_. None), health_check_interval = from_secs 30,
     mgr_shutdown_timeout = from_secs 30\<rparr>"

definition with_health_check_interval :: "duration \<Rightarrow> 'h manager \<Rightarrow> 'h manager" where
  "with_health_check_interval interval m = m\<lparr>health_check_interval := interval\<rparr>"

definition with_shutdown_timeout :: "duration \<Rightarrow> 'h manager \<Rightarrow> 'h manager" where
  "with_shutdown_timeout timeout m = m\<lparr>mgr_shutdown_timeout := timeout\<rparr>"

type_synonym ('io, 'a) mresult = "('io daemon_error, 'a) outcome"

definition find_daemon :: "id_printer \<Rightarrow> 'h manager \<Rightarrow> daemon_id \<Rightarrow> ('io, 'h managed_daemon) mresult" where
  "find_daemon show_id m i = ok_or (daemons m i) (DNotFound (show_id i))"

definition register ::
  "id_printer \<Rightarrow> daemon_id \<Rightarrow> string \<Rightarrow> daemon_config \<Rightarrow> manager_policy \<Rightarrow> 'h manager
   \<Rightarrow> ('io, daemon_id) mresult \<times> 'h manager" where
  "register show_id i name config policy m =
     (let managed = with_restart_policy policy (managed_new i name config)
      in if daemons m i \<noteq> None
         then (Err (DConfig (''daemon '' @ show_id i @ '' already registered'')), m)
         else (Ok i, m\<lparr>daemons := (daemons m)(i \<mapsto> managed)\<rparr>))"

definition unregister :: "id_printer \<Rightarrow> daemon_id \<Rightarrow> 'h manager \<Rightarrow> ('io, unit) mresult \<times> 'h manager" where
  "unregister show_id i m =
     (case find_daemon show_id m i of
        Ok d \<Rightarrow>
          if is_active (md_status d)
          then (Err (DState (''cannot unregister active daemon '' @ show_id i)), m)
          else (Ok (), m\<lparr>daemons := (daemons m)(i := None)\<rparr>)
      | Err e \<Rightarrow> (Err e, m)
      | Panic \<Rightarrow> (Panic, m))"

definition status :: "id_printer \<Rightarrow> daemon_id \<Rightarrow> 'h manager \<Rightarrow> ('io, daemon_status) mresult" where
  "status show_id i m = and_then (find_daemon show_id m i) (\<lambda>d. Ok (md_status d))"

definition daemon_count :: "'h manager \<Rightarrow> nat" where
  "daemon_count m = card (dom (daemons m))"

definition list_daemons :: "('h manager \<Rightarrow> daemon_id list) \<Rightarrow> 'h manager \<Rightarrow> daemon_id list" where
  "list_daemons iter m = iter m"

text \<open>A send to a daemon; the outer option is \<open>None\<close> when the send waits for ever.\<close>

definition signal_daemon ::
  "id_printer \<Rightarrow> ('h, 'w) sender \<Rightarrow> daemon_id \<Rightarrow> signal \<Rightarrow> 'h manager \<Rightarrow> 'w
   \<Rightarrow> ('io, unit) mresult option \<times> 'w" where
  "signal_daemon show_id send i s m w =
     (case find_daemon show_id m i of
        Ok d \<Rightarrow>
          if \<not> can_signal (md_status d) then
            (Some (Err (DState (''daemon '' @ show_id i @ '' cannot receive signals in state ''
               @ debug_status (md_status d)))), w)
          else (case md_context_handle d of
              Some handle \<Rightarrow> send_signal send handle s w
            | None \<Rightarrow> (Some (Err (DState (''daemon '' @ show_id i @ '' has no context handle''))), w))
      | Err e \<Rightarrow> (Some (Err e), w)
      | Panic \<Rightarrow> (Some Panic, w))"

text \<open>The methods that change one entry: look it up, change it under its lock.\<close>

definition modify_daemon ::
  "id_printer \<Rightarrow> daemon_id \<Rightarrow> ('h managed_daemon \<Rightarrow> ('io, 'a) mresult \<times> 'h managed_daemon)
   \<Rightarrow> 'h manager \<Rightarrow> ('io, 'a) mresult \<times> 'h manager" where
  "modify_daemon show_id i f m =
     (case find_daemon show_id m i of
        Ok d \<Rightarrow> (fst (f d), m\<lparr>daemons := (daemons m)(i \<mapsto> snd (f d))\<rparr>)
      | Err e \<Rightarrow> (Err e, m)
      | Panic \<Rightarrow> (Panic, m))"

definition update_status ::
  "id_printer \<Rightarrow> daemon_id \<Rightarrow> daemon_status \<Rightarrow> 'h manager \<Rightarrow> ('io, unit) mresult \<times> 'h manager" where
  "update_status show_id i s m = modify_daemon show_id i (\<lambda>d. (Ok (), d\<lparr>md_status := s\<rparr>)) m"

definition set_context_handle ::
  "id_printer \<Rightarrow> daemon_id \<Rightarrow> 'h \<Rightarrow> instant \<Rightarrow> 'h manager \<Rightarrow> ('io, unit) mresult \<times> 'h manager" where
  "set_context_handle show_id i handle now m =
     modify_daemon show_id i
       (\<lambda>d. (Ok (), d\<lparr>md_context_handle := Some handle, md_last_started := Some now\<rparr>)) m"

definition increment_restart_count ::
  "build \<Rightarrow> id_printer \<Rightarrow> daemon_id \<Rightarrow> 'h manager \<Rightarrow> ('io, u32) mresult \<times> 'h manager" where
  "increment_restart_count bld show_id i m =
     modify_daemon show_id i
       (\<lambda>d. case uadd bld (md_restart_count d) 1 of
              Some n \<Rightarrow> (Ok n, d\<lparr>md_restart_count := n\<rparr>)
            | None \<Rightarrow> (Panic, d)) m"

definition get_restart_policy :: "id_printer \<Rightarrow> daemon_id \<Rightarrow> 'h manager \<Rightarrow> ('io, manager_policy) mresult" where
  "get_restart_policy show_id i m = and_then (find_daemon show_id m i) (\<lambda>d. Ok (md_restart_policy d))"

definition get_restart_count :: "id_printer \<Rightarrow> daemon_id \<Rightarrow> 'h manager \<Rightarrow> ('io, u32) mresult" where
  "get_restart_count show_id i m = and_then (find_daemon show_id m i) (\<lambda>d. Ok (md_restart_count d))"

definition update_health ::
  "id_printer \<Rightarrow> daemon_id \<Rightarrow> health_status \<Rightarrow> 'h manager \<Rightarrow> ('io, unit) mresult \<times> 'h manager" where
  "update_health show_id i h m =
     modify_daemon show_id i (\<lambda>d. (Ok (), d\<lparr>md_last_health := Some h\<rparr>)) m"

definition get_health :: "id_printer \<Rightarrow> daemon_id \<Rightarrow> 'h manager \<Rightarrow> ('io, health_status option) mresult" where
  "get_health show_id i m = and_then (find_daemon show_id m i) (\<lambda>d. Ok (md_last_health d))"

text \<open>\<open>shutdown_all\<close> signals every listed daemon in turn and only logs a failure, so a send that
  waits for ever stops it there.\<close>

fun shutdown_loop ::
  "id_printer \<Rightarrow> ('h, 'w) sender \<Rightarrow> daemon_id list \<Rightarrow> 'h manager \<Rightarrow> 'w \<Rightarrow> bool \<times> 'w" where
  "shutdown_loop show_id send [] m w = (True, w)"
| "shutdown_loop show_id send (i # is) m w =
     (case (signal_daemon show_id send i Term m w :: (unit, unit) mresult option \<times> _) of
        (None, w') \<Rightarrow> (False, w')
      | (Some _, w') \<Rightarrow> shutdown_loop show_id send is m w')"

definition shutdown_all ::
  "id_printer \<Rightarrow> ('h manager \<Rightarrow> daemon_id list) \<Rightarrow> ('h, 'w) sender \<Rightarrow> 'h manager \<Rightarrow> 'w
   \<Rightarrow> ('io, unit) mresult option \<times> 'w" where
  "shutdown_all show_id iter send m w =
     (case shutdown_loop show_id send (list_daemons iter m) m w of
        (True, w') \<Rightarrow> (Some (Ok ()), w')
      | (False, w') \<Rightarrow> (None, w'))"

lemmas manager_defs = register_def unregister_def modify_daemon_def update_status_def
  set_context_handle_def increment_restart_count_def update_health_def find_daemon_def
  with_restart_policy_def managed_new_def

section \<open>The registry as a status table\<close>

definition registry_wf :: "'h manager \<Rightarrow> bool" where
  "registry_wf m \<longleftrightarrow> finite (dom (daemons m)) \<and> (\<forall>i d. daemons m i = Some d \<longrightarrow> md_id d = i)"

datatype 'h manager_call =
    Register daemon_id string daemon_config manager_policy
  | Unregister daemon_id
  | Update_status daemon_id daemon_status
  | Set_handle daemon_id 'h instant
  | Increment daemon_id
  | Update_health daemon_id health_status

fun manager_step :: "build \<Rightarrow> id_printer \<Rightarrow> 'h manager \<Rightarrow> 'h manager_call \<Rightarrow> 'h manager" where
  "manager_step bld p m (Register i n c r) = snd (register p i n c r m :: (unit, _) mresult \<times> _)"
| "manager_step bld p m (Unregister i) = snd (unregister p i m :: (unit, _) mresult \<times> _)"
| "manager_step bld p m (Update_status i s) = snd (update_status p i s m :: (unit, _) mresult \<times> _)"
| "manager_step bld p m (Set_handle i h t) = snd (set_context_handle p i h t m :: (unit, _) mresult \<times> _)"
| "manager_step bld p m (Increment i) = snd (increment_restart_count bld p i m :: (unit, _) mresult \<times> _)"
| "manager_step bld p m (Update_health i h) = snd (update_health p i h m :: (unit, _) mresult \<times> _)"

text \<open>The specification: a table from ids to statuses.\<close>

type_synonym status_table = "daemon_id \<rightharpoonup> daemon_status"

fun table_step :: "status_table \<Rightarrow> 'h manager_call \<Rightarrow> status_table" where
  "table_step t (Register i n c r) = (if t i = None then t(i \<mapsto> Created) else t)"
| "table_step t (Unregister i) =
     (case t i of Some s \<Rightarrow> if is_active s then t else t(i := None) | None \<Rightarrow> t)"
| "table_step t (Update_status i s) = (if t i = None then t else t(i \<mapsto> s))"
| "table_step t _ = t"

definition table :: "'h manager \<Rightarrow> status_table" where
  "table m = (\<lambda>i. map_option md_status (daemons m i))"

lemma modify_daemon_wf:
  assumes "registry_wf m" "\<And>d. md_id (snd (f d)) = md_id d"
  shows "registry_wf (snd (modify_daemon p i f m))"
  using assms by (auto simp: modify_daemon_def find_daemon_def registry_wf_def split: outcome.splits)

lemma modify_daemon_table:
  "table (snd (modify_daemon p i f m)) =
     (case daemons m i of Some d \<Rightarrow> (table m)(i \<mapsto> md_status (snd (f d))) | None \<Rightarrow> table m)"
  by (auto simp: modify_daemon_def find_daemon_def table_def split: outcome.splits option.splits)

lemma modify_daemon_table_same:
  assumes "\<And>d. md_status (snd (f d)) = md_status d"
  shows "table (snd (modify_daemon p i f m)) = table m"
  by (simp add: modify_daemon_table assms split: option.split) (auto simp: table_def)

lemma manager_new_wf [inv_intro]: "registry_wf manager_new"
  by (simp add: registry_wf_def manager_new_def)

lemma register_wf [inv_intro]: "registry_wf m \<Longrightarrow> registry_wf (snd (register p i n c r m))"
  by (auto simp: manager_defs registry_wf_def)

lemma unregister_wf [inv_intro]: "registry_wf m \<Longrightarrow> registry_wf (snd (unregister p i m))"
  by (auto simp: unregister_def registry_wf_def split: outcome.splits)

lemma manager_step_wf [inv_intro]: "registry_wf m \<Longrightarrow> registry_wf (manager_step bld p m e)"
  by (cases e) (auto simp: update_status_def set_context_handle_def increment_restart_count_def
      update_health_def split: option.splits intro!: modify_daemon_wf register_wf unregister_wf)

lemma manager_step_table: "table (manager_step bld p m e) = table_step (table m) e"
proof (cases e)
  case (Register i n c r)
  then show ?thesis by (auto simp: manager_defs table_def)
next
  case (Unregister i)
  then show ?thesis
    by (auto simp: unregister_def find_daemon_def table_def split: option.splits outcome.splits)
next
  case (Update_status i s)
  then show ?thesis
    by (simp add: update_status_def modify_daemon_table split: option.split) (auto simp: table_def)
next
  case (Increment i)
  then show ?thesis
    by (simp add: increment_restart_count_def modify_daemon_table_same split: option.split)
qed (simp_all add: set_context_handle_def update_health_def modify_daemon_table_same)

interpretation registry: invariant_machine "manager_step bld p" registry_wf
  by unfold_locales (rule manager_step_wf)

interpretation registry: simulation "manager_step bld p" registry_wf table_step table
  by unfold_locales (rule manager_step_table)

lemma table_new [simp]: "table manager_new = (\<lambda>_. None)"
  by (simp add: table_def manager_new_def)

lemma status_table: "status p i m = ok_or (table m i) (DNotFound (p i))"
  by (cases "daemons m i") (simp_all add: status_def find_daemon_def table_def)

lemma register_Ok_iff:
  "fst (register p i n c r m :: ('io, _) mresult \<times> _) = Ok j \<longleftrightarrow> table m i = None \<and> j = i"
  by (auto simp: manager_defs table_def)

lemma unregister_Ok_iff:
  "fst (unregister p i m :: ('io, _) mresult \<times> _) = Ok () \<longleftrightarrow>
     (\<exists>s. table m i = Some s \<and> \<not> is_active s)"
  by (cases "daemons m i") (simp_all add: unregister_def find_daemon_def table_def)

text \<open>C10: After any sequence of calls on a new manager the registry is the table of statuses that
  the specification computes, each entry under its own id: registering succeeds exactly for an id
  not in the table, unregistering exactly for one that is there and not active, and \<open>status\<close>
  answers from it, \<open>NotFound\<close> otherwise.\<close>

theorem manager_refines_table:
  "let m = run (manager_step bld p) manager_new cs in
    table m = run table_step (\<lambda>_. None) cs \<and> registry_wf m
    \<and> status p i m = ok_or (table m i) (DNotFound (p i) :: 'io daemon_error)
    \<and> (fst (register p i n c r m :: ('io, _) mresult \<times> _) = Ok i \<longleftrightarrow> table m i = None)
    \<and> (fst (unregister p i m :: ('io, _) mresult \<times> _) = Ok ()
        \<longleftrightarrow> (\<exists>s. table m i = Some s \<and> \<not> is_active s))"
  by (simp add: Let_def registry.run_sim [OF manager_new_wf] registry.run_good manager_new_wf status_table
      register_Ok_iff unregister_Ok_iff)

definition touches_status :: "daemon_id \<Rightarrow> 'h manager_call \<Rightarrow> bool" where
  "touches_status i e = (case e of Update_status j _ \<Rightarrow> j = i | _ \<Rightarrow> False)"

lemma modify_daemon_entry:
  "daemons (snd (modify_daemon p j f m)) i =
     (if j = i then map_option (\<lambda>d. snd (f d)) (daemons m i) else daemons m i)"
  by (cases "daemons m j") (auto simp: modify_daemon_def find_daemon_def)

text \<open>What a call leaves as it is in the entry of an active daemon, unless it sets its status.\<close>

definition same_daemon :: "'h managed_daemon \<Rightarrow> 'h managed_daemon \<Rightarrow> bool" where
  "same_daemon d d' \<longleftrightarrow>
     md_id d' = md_id d \<and> md_name d' = md_name d \<and> md_status d' = md_status d \<and> md_config d' = md_config d
     \<and> md_restart_policy d' = md_restart_policy d"

lemma manager_step_active:
  assumes "daemons m i = Some d" "is_active (md_status d)" "\<not> touches_status i e"
  shows "\<exists>d'. daemons (manager_step bld p m e) i = Some d' \<and> same_daemon d d'"
proof (cases e)
  case (Increment j)
  with assms show ?thesis
    by (cases "uadd bld (md_restart_count d) 1")
      (auto simp: increment_restart_count_def modify_daemon_entry same_daemon_def)
qed (use assms in \<open>auto simp: touches_status_def register_def unregister_def find_daemon_def update_status_def
    set_context_handle_def update_health_def modify_daemon_entry same_daemon_def split: outcome.splits option.splits\<close>)

text \<open>C11: An active daemon cannot be lost or replaced: until its own status is changed, no sequence of calls, however it
  registers, unregisters or updates, removes it or alters its id, name, status, configuration or restart policy;
  only its handle, start time, restart count and health may change.\<close>

theorem active_daemon_stays:
  assumes "daemons m i = Some d" "is_active (md_status d)" "list_all (\<lambda>e. \<not> touches_status i e) cs"
  shows "status p i (run (manager_step bld p) m cs) = (Ok (md_status d) :: ('io, _) mresult)
    \<and> (\<exists>d'. daemons (run (manager_step bld p) m cs) i = Some d' \<and> same_daemon d d')"
proof -
  have "\<exists>d'. daemons (run (manager_step bld p) m cs) i = Some d' \<and> same_daemon d d'"
    using assms
  proof (induction cs arbitrary: m d)
    case (Cons e es)
    then obtain d' where d': "daemons (manager_step bld p m e) i = Some d'" "same_daemon d d'"
      using manager_step_active [of m i d e bld p] by auto
    with Cons.IH [OF d'(1)] Cons.prems show ?case by (auto simp: same_daemon_def)
  qed (simp add: same_daemon_def)
  then show ?thesis by (auto simp: status_def find_daemon_def same_daemon_def)
qed

definition running_one :: "nat manager" where
  "running_one = run (manager_step Debug (\<lambda>_. ''d'')) manager_new
     [Register 1 ''d'' (config_new ''d'' ''/d'') ROnFailure, Update_status 1 Running]"

theorem active_daemon_stays_witness:
  "case run (manager_step Debug (\<lambda>_. ''d'')) running_one
      [Unregister 1, Register 1 ''e'' (config_new ''e'' ''/e'') RNever, Set_handle 1 7 0] of
      m \<Rightarrow> status (\<lambda>_. ''d'') 1 m = (Ok Running :: (unit, _) mresult)
        \<and> (\<exists>d. daemons m 1 = Some d \<and> md_name d = ''d'' \<and> md_restart_policy d = ROnFailure)"
proof -
  obtain d where d: "daemons running_one 1 = Some d" "md_status d = Running" "md_name d = ''d''" "md_restart_policy d = ROnFailure"
    by (simp add: running_one_def manager_new_def manager_defs)
  from active_daemon_stays [OF d(1), where bld = Debug and p = "\<lambda>_. ''d''"
      and cs = "[Unregister 1, Register 1 ''e'' (config_new ''e'' ''/e'') RNever, Set_handle 1 7 0]" and ?'io = unit] d
  show ?thesis by (auto simp: touches_status_def same_daemon_def simp del: manager_step.simps)
qed

section \<open>Signals and shutdown\<close>

definition signal_target :: "'h manager \<Rightarrow> daemon_id \<Rightarrow> 'h option" where
  "signal_target m i =
     (case daemons m i of
        Some d \<Rightarrow> if can_signal (md_status d) then md_context_handle d else None
      | None \<Rightarrow> None)"

lemma signal_daemon_target:
  "signal_target m i = Some h \<Longrightarrow> signal_daemon p send i s m w = send_signal send h s w"
  by (auto simp: signal_target_def signal_daemon_def find_daemon_def split: option.splits if_splits)

lemma signal_daemon_no_target:
  "signal_target m i = None \<Longrightarrow>
     \<exists>e. signal_daemon p send i s m w = (Some (Err e), w)
       \<and> (daemons m i = None \<longleftrightarrow> e = DNotFound (p i))"
  by (auto simp: signal_target_def signal_daemon_def find_daemon_def split: option.splits)

text \<open>C12: A signal reaches a channel only when the daemon is registered, its status takes signals and
  it has a handle, and then its answer is the channel's; in every other case the call fails,
  \<open>NotFound\<close> exactly for an unknown id, and nothing is sent.\<close>

theorem signal_only_to_targets:
  "(\<exists>h. signal_target m i = Some h
        \<and> signal_daemon p send i s m w = (send_signal send h s w :: ('io, unit) mresult option \<times> _))
   \<or> (signal_target m i = None
        \<and> (\<exists>e. signal_daemon p send i s m w = (Some (Err e) :: ('io, unit) mresult option, w)
              \<and> (daemons m i = None \<longleftrightarrow> e = DNotFound (p i))))"
  using signal_daemon_target [of m i _ p send s w] signal_daemon_no_target [of m i p send s w]
  by (cases "signal_target m i") auto

lemma send_signal_completes:
  "fst (send h s w) \<noteq> Never_completes \<Longrightarrow>
     \<exists>r. send_signal send h s w = (Some r, snd (send h s w))"
  by (auto simp: send_signal_def split: prod.splits delivery.splits)

lemma shutdown_loop_all:
  assumes "\<And>h w. fst (send h Term w) \<noteq> Never_completes"
  shows "shutdown_loop p send is m w =
    (True, fold (\<lambda>h w. snd (send h Term w)) (List.map_filter (signal_target m) is) w)"
proof (induction "is" arbitrary: w)
  case Nil
  show ?case by (simp add: map_filter_simps)
next
  case (Cons i "is")
  show ?case
  proof (cases "signal_target m i")
    case None
    obtain e :: "unit daemon_error" where "signal_daemon p send i Term m w = (Some (Err e), w)"
      using signal_daemon_no_target [OF None, of p send Term w] by blast
    with None Cons show ?thesis by (simp add: map_filter_simps)
  next
    case (Some h)
    obtain r where "send_signal send h Term w = (Some (r :: (unit, unit) mresult), snd (send h Term w))"
      using send_signal_completes [of send h Term w] assms by blast
    with Some Cons show ?thesis by (simp add: map_filter_simps signal_daemon_target)
  qed
qed

text \<open>When sends complete, \<open>shutdown_all\<close> sends \<open>Term\<close> once to every daemon that can take it, in
  the order the hash map lists them, skips the others and succeeds; the answers of the
  channels, let alone whether the daemons stop, make no difference to its result.\<close>

theorem shutdown_all_signals_everyone:
  assumes "\<And>h w. fst (send h Term w) \<noteq> Never_completes"
    and "set (iter m) = dom (daemons m)"
  shows "shutdown_all p iter send m w =
      (Some (Ok ()) :: ('io, unit) mresult option,
       fold (\<lambda>h w. snd (send h Term w)) (List.map_filter (signal_target m) (iter m)) w)
    \<and> set (List.map_filter (signal_target m) (iter m)) = ran (signal_target m)"
proof
  show "shutdown_all p iter send m w =
      (Some (Ok ()), fold (\<lambda>h w. snd (send h Term w)) (List.map_filter (signal_target m) (iter m)) w)"
    using assms(1) by (simp add: shutdown_all_def list_daemons_def shutdown_loop_all)
  have "(\<exists>i\<in>dom (daemons m). signal_target m i = Some h) \<longleftrightarrow> (\<exists>i. signal_target m i = Some h)" for h
    by (auto simp: signal_target_def split: option.splits)
  then show "set (List.map_filter (signal_target m) (iter m)) = ran (signal_target m)"
    unfolding set_map_filter_eq assms(2) ran_def by simp
qed

definition log_send :: "(nat, (nat \<times> signal) list) sender" where
  "log_send h s w = (Delivered, w @ [(h, s)])"

definition two_daemons :: "nat manager" where
  "two_daemons = manager_new
     \<lparr>daemons := [1 \<mapsto> managed_new 1 ''a'' (config_new ''a'' ''/a'')\<lparr>md_context_handle := Some 10\<rparr>,
                2 \<mapsto> managed_new 2 ''b'' (config_new ''b'' ''/b'')
                       \<lparr>md_context_handle := Some 20, md_status := Running\<rparr>]\<rparr>"

theorem shutdown_all_signals_everyone_witness:
  "shutdown_all (\<lambda>_. ''d'') (\<lambda>_. [1, 2]) log_send two_daemons []
   = (Some (Ok ()) :: (unit, unit) mresult option, [(20, Term)])"
proof -
  have dom: "set ((\<lambda>_. [1, 2]) two_daemons) = dom (daemons two_daemons)"
    unfolding two_daemons_def by auto
  have "List.map_filter (signal_target two_daemons) [1, 2] = [20]"
    by (simp add: two_daemons_def managed_new_def map_filter_simps signal_target_def)
  then show ?thesis
    using shutdown_all_signals_everyone [where 'io = unit and send = log_send and iter = "\<lambda>_. [1, 2]"
        and m = two_daemons and w = "[]" and p = "\<lambda>_. ''d''", OF _ dom]
    by (simp add: log_send_def del: map_filter_simps)
qed

section \<open>Backoff\<close>

lemma f_min_le_right: "y \<noteq> NaN \<Longrightarrow> f_le (f_min x y) y"
  by (cases x; cases y) (auto simp: f_min_def)

lemma f_min_capped:
  assumes "f_nonneg y \<or> y = NaN" "0 \<le> c"
  obtains x where "f_min y (Fin c) = Fin x" "0 \<le> x" "x \<le> c"
proof (cases "y = Fin c \<or> y = NaN \<or> f_lt (Fin c) y")
  case True
  with assms that [of c] show ?thesis by (auto simp: f_min_def)
next
  case False
  with assms that show ?thesis by (cases y) (auto simp: f_min_def)
qed

lemma capped_from_secs:
  assumes "s \<le> 2 ^ 53"
  shows "(duration_from_secs_f64 (f_min y (Fin (of_nat s))) = None \<longleftrightarrow> f_lt y (Fin 0))
    \<and> (\<forall>d. duration_from_secs_f64 (f_min y (Fin (of_nat s))) = Some d \<longrightarrow> d \<le> from_secs s)
    \<and> (y \<in> {NaN, PInf} \<longrightarrow> duration_from_secs_f64 (f_min y (Fin (of_nat s))) = Some (from_secs s))"
proof (cases "f_lt y (Fin 0)")
  case True
  then show ?thesis by (cases y) (auto simp: f_min_def)
next
  case False
  then have "f_nonneg y \<or> y = NaN" by (cases y) auto
  then obtain x where x: "f_min y (Fin (of_nat s)) = Fin x" "0 \<le> x" "x \<le> of_nat s"
    using f_min_capped [of y "of_nat s"] by (metis of_nat_0_le_iff)
  have special: "x = of_nat s" if "y \<in> {NaN, PInf}" using x(1) that by (auto simp: f_min_def)
  have "(of_nat s :: rat) \<le> of_nat (2 ^ 53)" using assms by (simp only: of_nat_le_iff)
  with x(3) have lt: "\<not> 2 ^ 64 \<le> x" by simp
  have whole: "round_even (of_nat s * 1000000000 :: rat) = int (from_secs s)"
    using round_even_of_int [of "int (from_secs s)"] by simp
  have "round_even (x * 1000000000) \<le> round_even (of_nat s * 1000000000)"
    using x(3) by (intro round_even_mono) simp
  then have "nat (round_even (x * 1000000000)) \<le> from_secs s" unfolding whole by simp
  moreover have "nat (round_even (x * 1000000000)) = from_secs s" if "y \<in> {NaN, PInf}"
    using special [OF that] whole by simp
  ultimately show ?thesis using x(1,2) lt False by auto
qed

text \<open>C19: The backoff delay never exceeds a maximum given in whole seconds, up to \<open>2 ^ 53\<close> of them, whatever the count and
  whatever \<open>powi\<close> returns: an overflowing or undefined power gives the maximum. It panics exactly when the product of
  the initial delay and the power is negative, so never when the power is not.\<close>

theorem backoff_is_capped:
  assumes "bo_max_delay c = from_secs s" "s \<le> 2 ^ 53"
  shows "(delay_for pow_i c n = None
      \<longleftrightarrow> f_lt (f_mul (as_secs_f64 (bo_initial_delay c)) (pow_i (bo_multiplier c) n)) (Fin 0))
    \<and> (\<forall>d. delay_for pow_i c n = Some d \<longrightarrow> d \<le> bo_max_delay c)
    \<and> (pow_i (bo_multiplier c) n \<in> {NaN, PInf} \<longrightarrow> delay_for pow_i c n = Some (bo_max_delay c))
    \<and> (\<not> f_lt (pow_i (bo_multiplier c) n) (Fin 0) \<longrightarrow> delay_for pow_i c n \<noteq> None)"
proof -
  let ?pow = "pow_i (bo_multiplier c) n" and ?base = "as_secs_f64 (bo_initial_delay c)"
  have max: "as_secs_f64 (bo_max_delay c) = Fin (of_nat s)"
    using assms(1,2) by (simp add: as_secs_f64_whole)
  note delay = capped_from_secs [of s "f_mul ?base ?pow", OF assms(2)]
  have nonneg: "\<not> f_lt (f_mul ?base ?pow) (Fin 0)" if "\<not> f_lt ?pow (Fin 0)"
  proof -
    have "?pow = NaN \<or> f_nonneg ?pow" using that by (cases ?pow) auto
    then have "f_nonneg (f_mul ?base ?pow) \<or> f_mul ?base ?pow = NaN"
      using f_nonneg_mul [of ?base ?pow] by (auto simp: f_mul_NaN)
    then show ?thesis by (cases "f_mul ?base ?pow") auto
  qed
  have special: "f_mul ?base ?pow \<in> {NaN, PInf}" if "?pow \<in> {NaN, PInf}"
    using that f_nonneg_as_secs [of "bo_initial_delay c"]
    by (cases ?base) (auto simp: f_mul_NaN inf_of_sign_def split: if_splits)
  have "delay_for pow_i c n = duration_from_secs_f64 (f_min (f_mul ?base ?pow) (Fin (of_nat s)))"
    by (simp add: delay_for_def Let_def max)
  then show ?thesis unfolding assms(1) using delay nonneg special by auto
qed

theorem backoff_is_capped_witness:
  "\<exists>d. delay_for (\<lambda>_ _. PInf) backoff_default 4000 = Some d \<and> d \<le> from_secs 300"
  using backoff_is_capped [of backoff_default 300 "\<lambda>_ _. PInf" 4000]
  by (auto simp: backoff_default_def)

text \<open>So a negative multiplier, which nothing forbids, panics at the first retry.\<close>

lemma negative_backoff_panics: "delay_for (\<lambda>x _. x) (with_multiplier (Fin (- 2)) backoff_default) 1 = None"
proof -
  have not_huge: "\<not> pow2 1024 \<le> - 2" using pow2_pos [of 1024] by linarith
  have "f_lt (f_round (- 2)) (Fin 0)"
    using not_huge rndq_minus [of 2] rndq_small_nat [of 2] by (simp add: f_round_def Let_def)
  then show ?thesis
    using capped_from_secs [of 300 "f_round (- 2)"] as_secs_f64_whole [of 1] as_secs_f64_whole [of 300]
    by (simp add: delay_for_def with_multiplier_def backoff_default_def)
qed

end
