(* ===== verification/Core_Metrics.thy ===== *)
theory Core_Metrics
  imports Core_Types F64
begin

text \<open>
  Daemon metrics, \<open>crates/duende-core/src/metrics.rs\<close>. \<open>metrics\<close> holds the atomics; \<open>fetch_add\<close>
  wraps in every build. The maximum is kept by a compare-and-swap loop: the last section runs it by
  steps, for any number of threads, and shows that it finds the maximum.
\<close>

section \<open>State and operations\<close>

record metrics =
  requests_total :: u64
  errors_total :: u64
  duration_sum_us :: u64
  duration_count :: u64
  duration_max_us :: u64
  cpu_usage_permille :: u64
  memory_bytes :: u64
  open_fds :: u64
  thread_count :: u64
  circuit_breaker_trips :: u64
  successful_recoveries :: u64
  start_time :: instant

definition metrics_new :: "instant \<Rightarrow> metrics" where
  "metrics_new now =
     \<lparr>requests_total = 0, errors_total = 0, duration_sum_us = 0, duration_count = 0,
      duration_max_us = 0, cpu_usage_permille = 0, memory_bytes = 0, open_fds = 0,
      thread_count = 0, circuit_breaker_trips = 0, successful_recoveries = 0, start_time = now\<rparr>"

definition record_request :: "metrics \<Rightarrow> metrics" where
  "record_request m = m\<lparr>requests_total := requests_total m + 1\<rparr>"

definition record_error :: "metrics \<Rightarrow> metrics" where
  "record_error m = m\<lparr>errors_total := errors_total m + 1\<rparr>"

definition uptime :: "instant \<Rightarrow> metrics \<Rightarrow> duration" where
  "uptime now m = elapsed now (start_time m)"

definition requests_per_second :: "instant \<Rightarrow> metrics \<Rightarrow> f64" where
  "requests_per_second now m =
     (let secs = as_secs_f64 (elapsed now (start_time m))
      in if f_gt secs (Fin 0) then f_div (f_of_word (requests_total m)) secs else Fin 0)"

definition error_rate :: "metrics \<Rightarrow> f64" where
  "error_rate m =
     (if 0 < requests_total m then f_div (f_of_word (errors_total m)) (f_of_word (requests_total m))
      else Fin 0)"

text \<open>With no other thread, the compare-and-swap loop of \<open>record_duration\<close> stores a larger value
  once and leaves a smaller one alone.\<close>

definition record_duration :: "duration \<Rightarrow> metrics \<Rightarrow> metrics" where
  "record_duration d m =
     (let us = of_nat (as_micros d);
          m = m\<lparr>duration_sum_us := duration_sum_us m + us, duration_count := duration_count m + 1\<rparr>
      in if duration_max_us m < us then m\<lparr>duration_max_us := us\<rparr> else m)"

definition duration_avg :: "metrics \<Rightarrow> duration" where
  "duration_avg m =
     (if 0 < duration_count m then unat (duration_sum_us m div duration_count m) * 1000 else 0)"

definition duration_max :: "metrics \<Rightarrow> duration" where
  "duration_max m = unat (duration_max_us m) * 1000"

definition set_cpu_usage :: "f64 \<Rightarrow> metrics \<Rightarrow> metrics" where
  "set_cpu_usage percent m = m\<lparr>cpu_usage_permille := f_to_u64 (f_mul percent (Fin 10))\<rparr>"

definition cpu_usage :: "metrics \<Rightarrow> f64" where
  "cpu_usage m = f_div (f_of_word (cpu_usage_permille m)) (Fin 10)"

definition set_memory_bytes :: "u64 \<Rightarrow> metrics \<Rightarrow> metrics" where
  "set_memory_bytes n m = m\<lparr>memory_bytes := n\<rparr>"

definition set_open_fds :: "u64 \<Rightarrow> metrics \<Rightarrow> metrics" where
  "set_open_fds n m = m\<lparr>open_fds := n\<rparr>"

definition set_thread_count :: "u64 \<Rightarrow> metrics \<Rightarrow> metrics" where
  "set_thread_count n m = m\<lparr>thread_count := n\<rparr>"

definition record_circuit_breaker_trip :: "metrics \<Rightarrow> metrics" where
  "record_circuit_breaker_trip m = m\<lparr>circuit_breaker_trips := circuit_breaker_trips m + 1\<rparr>"

definition record_recovery :: "metrics \<Rightarrow> metrics" where
  "record_recovery m = m\<lparr>successful_recoveries := successful_recoveries m + 1\<rparr>"

record metrics_snapshot =
  ms_requests_total :: u64
  ms_requests_per_second :: f64
  ms_errors_total :: u64
  ms_error_rate :: f64
  ms_duration_avg_us :: u64
  ms_duration_max_us :: u64
  ms_cpu_usage_percent :: f64
  ms_memory_bytes :: u64
  ms_open_fds :: u64
  ms_thread_count :: u64
  ms_circuit_breaker_trips :: u64
  ms_successful_recoveries :: u64
  ms_uptime_secs :: u64

definition snapshot :: "instant \<Rightarrow> metrics \<Rightarrow> metrics_snapshot" where
  "snapshot now m =
     \<lparr>ms_requests_total = requests_total m,
      ms_requests_per_second = requests_per_second now m,
      ms_errors_total = errors_total m,
      ms_error_rate = error_rate m,
      ms_duration_avg_us = of_nat (as_micros (duration_avg m)),
      ms_duration_max_us = of_nat (as_micros (duration_max m)),
      ms_cpu_usage_percent = cpu_usage m,
      ms_memory_bytes = memory_bytes m,
      ms_open_fds = open_fds m,
      ms_thread_count = thread_count m,
      ms_circuit_breaker_trips = circuit_breaker_trips m,
      ms_successful_recoveries = successful_recoveries m,
      ms_uptime_secs = of_nat (uptime now m div 1000000000)\<rparr>"

section \<open>Durations\<close>

definition micros :: "duration list \<Rightarrow> nat list" where
  "micros ds = map as_micros ds"

text \<open>What the atomics hold after the durations \<open>ds\<close>.\<close>

definition holds_durations :: "duration list \<Rightarrow> metrics \<Rightarrow> bool" where
  "holds_durations ds m \<longleftrightarrow>
     unat (duration_sum_us m) = sum_list (micros ds) \<and> unat (duration_count m) = length ds
     \<and> unat (duration_max_us m) = list_max (micros ds)"

lemma sum_list_micros_snoc [simp]: "sum_list (micros (ds @ [d])) = sum_list (micros ds) + as_micros d"
  by (simp add: micros_def)

lemma unat_of_small: "n < 2 ^ 64 \<Longrightarrow> unat (of_nat n :: u64) = n"
  by (simp add: unat_of_nat)

lemma record_duration_holds:
  assumes "holds_durations ds m" "sum_list (micros (ds @ [d])) < 2 ^ 64" "Suc (length ds) < 2 ^ 64"
  shows "holds_durations (ds @ [d]) (record_duration d m)"
proof -
  have d: "unat (of_nat (as_micros d) :: u64) = as_micros d"
    using assms(2) by (simp add: unat_of_small)
  have "unat (duration_sum_us m + of_nat (as_micros d)) = sum_list (micros (ds @ [d]))"
    using assms(1,2) d by (subst unat_add_in_range) (simp_all add: holds_durations_def)
  moreover have "unat (duration_count m + 1) = Suc (length ds)"
    using assms(1,3) by (subst unat_suc_in_range) (simp_all add: holds_durations_def)
  moreover have "micros (ds @ [d]) = micros ds @ [as_micros d]" by (simp add: micros_def)
  ultimately show ?thesis
    using assms(1) d
    by (simp add: holds_durations_def record_duration_def Let_def word_less_nat_alt
        max_def)
qed

lemma record_durations_hold:
  "sum_list (micros ds) < 2 ^ 64 \<Longrightarrow> length ds < 2 ^ 64 \<Longrightarrow>
     holds_durations ds (fold record_duration ds (metrics_new now))"
proof (induction ds rule: rev_induct)
  case Nil
  show ?case by (simp add: holds_durations_def metrics_new_def micros_def)
next
  case (snoc d ds)
  then show ?case by (simp add: record_duration_holds)
qed

text \<open>While their total stays below \<open>2 ^ 64\<close> microseconds, the recorded durations are
  reported right: the average is the mean of the microseconds rounded down, the maximum is
  their maximum, and the average never exceeds it.\<close>

theorem duration_statistics:
  assumes "sum_list (micros ds) < 2 ^ 64" "length ds < 2 ^ 64" "ds \<noteq> []"
  shows "let m = fold record_duration ds (metrics_new now) in
    duration_avg m = sum_list (micros ds) div length ds * 1000
    \<and> duration_max m = list_max (micros ds) * 1000
    \<and> duration_avg m \<le> duration_max m"
proof -
  let ?m = "fold record_duration ds (metrics_new now)"
  have m: "holds_durations ds ?m" using assms(1,2) by (rule record_durations_hold)
  have "0 < unat (duration_count ?m)" using m assms(3) by (simp add: holds_durations_def)
  then have "0 < duration_count ?m" by (simp add: word_less_nat_alt)
  then have avg: "duration_avg ?m = sum_list (micros ds) div length ds * 1000"
    using m by (simp add: duration_avg_def holds_durations_def unat_div)
  have "sum_list (micros ds) div length ds \<le> list_max (micros ds)"
    using sum_list_le_max [of "micros ds"] assms(3)
    by (metis div_le_mono length_greater_0_conv length_map micros_def nonzero_mult_div_cancel_left
        not_gr_zero)
  with avg m show ?thesis by (simp add: duration_max_def holds_durations_def)
qed

theorem duration_statistics_witness:
  "duration_avg (fold record_duration [5000, 2000, 3999] (metrics_new 0)) = 3000"
  using duration_statistics [of "[5000, 2000, 3999]" 0] by (simp add: micros_def Let_def)

section \<open>Rates\<close>

text \<open>The error rate is always a non-negative finite number, zero without requests, and at most
  one when no more errors than requests were recorded; nothing in the code keeps the two counters
  in that order.\<close>

theorem error_rate_bounds:
  "(\<exists>r. error_rate m = Fin r \<and> 0 \<le> r \<and> (r \<le> 1 \<or> requests_total m < errors_total m))
   \<and> error_rate (record_error (metrics_new now)) = Fin 0
   \<and> error_rate (record_error (record_error (record_request (metrics_new now)))) = Fin 2"
proof (intro conjI)
  show "\<exists>r. error_rate m = Fin r \<and> 0 \<le> r \<and> (r \<le> 1 \<or> requests_total m < errors_total m)"
  proof (cases "0 < requests_total m")
    case False
    then show ?thesis by (simp add: error_rate_def)
  next
    case True
    then have pos: "0 < unat (requests_total m)" by (simp add: word_less_nat_alt)
    show ?thesis
    proof (cases "requests_total m < errors_total m")
      case less: True
      from pos obtain r where "f_div (f_of_word (errors_total m)) (f_of_word (requests_total m)) = Fin r"
        "0 \<le> r" by (rule f_quotient_finite)
      with True less show ?thesis by (simp add: error_rate_def)
    next
      case False
      then have "unat (errors_total m) \<le> unat (requests_total m)" by (simp add: word_less_nat_alt)
      then obtain r where "f_div (f_of_word (errors_total m)) (f_of_word (requests_total m)) = Fin r"
        "0 \<le> r" "r \<le> 1" using pos by (rule f_ratio_unit)
      with True show ?thesis by (simp add: error_rate_def)
    qed
  qed
  have "f_round 2 = Fin 2" using f_of_nat_small [of 2] by (simp add: f_of_nat_def)
  then show "error_rate (record_error (record_error (record_request (metrics_new now)))) = Fin 2"
    by (simp add: error_rate_def record_error_def record_request_def metrics_new_def f_of_nat_small)
qed (simp add: error_rate_def record_error_def metrics_new_def)

section \<open>The maximum under threads\<close>

text \<open>
  \<open>record_duration\<close> as its atomic steps on the maximum: load, then compare-and-swap until the value
  stored is no smaller. \<open>compare_exchange_weak\<close> may fail spuriously; a failure loads the actual value.
  A thread is its duration and its program counter.
\<close>

datatype cas_pc = Load | Loop u64 | Done

inductive cas_step :: "u64 \<times> (u64 \<times> cas_pc) list \<Rightarrow> u64 \<times> (u64 \<times> cas_pc) list \<Rightarrow> bool" where
  load: "i < length ts \<Longrightarrow> ts ! i = (us, Load) \<Longrightarrow> cas_step (m, ts) (m, ts[i := (us, Loop m)])"
| exit: "i < length ts \<Longrightarrow> ts ! i = (us, Loop cur) \<Longrightarrow> \<not> cur < us
    \<Longrightarrow> cas_step (m, ts) (m, ts[i := (us, Done)])"
| swap: "i < length ts \<Longrightarrow> ts ! i = (us, Loop cur) \<Longrightarrow> cur < us \<Longrightarrow> m = cur
    \<Longrightarrow> cas_step (m, ts) (us, ts[i := (us, Done)])"
| fail: "i < length ts \<Longrightarrow> ts ! i = (us, Loop cur) \<Longrightarrow> cur < us
    \<Longrightarrow> cas_step (m, ts) (m, ts[i := (us, Loop m)])"

definition cas_start :: "u64 list \<Rightarrow> u64 \<times> (u64 \<times> cas_pc) list" where
  "cas_start uss = (0, map (\<lambda>us. (us, Load)) uss)"

fun pc_ok :: "u64 \<Rightarrow> u64 \<times> cas_pc \<Rightarrow> bool" where
  "pc_ok m (us, Load) = True"
| "pc_ok m (us, Loop cur) = (cur \<le> m)"
| "pc_ok m (us, Done) = (us \<le> m)"

definition cas_inv :: "u64 list \<Rightarrow> u64 \<times> (u64 \<times> cas_pc) list \<Rightarrow> bool" where
  "cas_inv uss s \<longleftrightarrow>
     map fst (snd s) = uss \<and> (fst s = 0 \<or> fst s \<in> set uss) \<and> list_all (pc_ok (fst s)) (snd s)"

lemma pc_ok_mono: "m \<le> m' \<Longrightarrow> pc_ok m t \<Longrightarrow> pc_ok m' t"
  by (cases "(m, t)" rule: pc_ok.cases) auto

lemma map_fst_update: "i < length ts \<Longrightarrow> ts ! i = (us, pc) \<Longrightarrow> map fst (ts[i := (us, pc')]) = map fst ts"
  by (metis fst_conv list_update_id map_update)

lemma cas_step_inv:
  assumes "cas_inv uss s" "cas_step s s'"
  shows "cas_inv uss s'"
  using assms(2)
proof cases
  case (load i ts us m)
  with assms(1) show ?thesis by (simp add: cas_inv_def map_fst_update list_all_update)
next
  case (exit i ts us cur m)
  with assms(1) have "pc_ok m (us, Loop cur)" by (metis cas_inv_def fst_conv list_all_length snd_conv)
  with assms(1) exit show ?thesis by (simp add: cas_inv_def map_fst_update list_all_update)
next
  case (swap i ts us cur m)
  with assms(1) have "us \<in> set uss"
    by (metis cas_inv_def fst_conv length_map nth_map nth_mem snd_conv)
  moreover have "list_all (pc_ok us) ts"
    using assms(1) swap pc_ok_mono [of m us] by (auto simp: cas_inv_def list_all_iff)
  ultimately show ?thesis using assms(1) swap
    by (simp add: cas_inv_def map_fst_update list_all_update)
next
  case (fail i ts us cur m)
  with assms(1) show ?thesis by (simp add: cas_inv_def map_fst_update list_all_update)
qed

lemma cas_start_inv: "cas_inv uss (cas_start uss)"
  by (simp add: cas_inv_def cas_start_def comp_def list_all_iff)

lemma cas_reachable_inv: "cas_step\<^sup>*\<^sup>* (cas_start uss) s \<Longrightarrow> cas_inv uss s"
  by (induction rule: rtranclp_induct) (auto intro: cas_start_inv cas_step_inv)

text \<open>However the threads interleave and however often the swap fails, spuriously or not, once
  every \<open>record_duration\<close> has returned the stored maximum is the maximum of their durations.\<close>

theorem concurrent_maximum:
  assumes "cas_step\<^sup>*\<^sup>* (cas_start uss) (m, ts)" "list_all (\<lambda>t. snd t = Done) ts"
  shows "unat m = list_max (map unat uss)"
proof -
  have inv: "map fst ts = uss" "m = 0 \<or> m \<in> set uss" "list_all (pc_ok m) ts"
    using cas_reachable_inv [OF assms(1)] by (simp_all add: cas_inv_def)
  have le: "us \<le> m" if "us \<in> set uss" for us
  proof -
    from that inv(1) obtain pc where "(us, pc) \<in> set ts" by auto
    with assms(2) inv(3) show ?thesis by (fastforce simp: list_all_iff)
  qed
  have "list_max (map unat uss) \<le> unat m"
  proof (cases "uss = []")
    case False
    then have "list_max (map unat uss) \<in> unat ` set uss"
      using list_max_in [of "map unat uss"] by simp
    with le show ?thesis by (auto simp: word_le_nat_alt)
  qed simp
  moreover have "unat m \<le> list_max (map unat uss)"
    using inv(2) by (auto intro: list_max_ge)
  ultimately show ?thesis by simp
qed

text \<open>Two threads load the same old maximum; the slower one's swap fails and it loops.\<close>

lemma cas_example:
  "cas_step\<^sup>*\<^sup>* (cas_start [5, 9]) (9, [(5, Done), (9, Done)])"
proof -
  have "cas_step\<^sup>*\<^sup>* (cas_start [5, 9]) (0, [(5, Loop 0), (9, Load)])"
    using r_into_rtranclp [of cas_step, OF cas_step.load [of 0 "[(5, Load), (9, Load)]" 5 0]] by (simp add: cas_start_def)
  also have "cas_step\<^sup>*\<^sup>* \<dots> (0, [(5, Loop 0), (9, Loop 0)])"
    using r_into_rtranclp [of cas_step, OF cas_step.load [of 1 "[(5, Loop 0), (9, Load)]" 9 0]] by simp
  also have "cas_step\<^sup>*\<^sup>* \<dots> (5, [(5, Done), (9, Loop 0)])"
    using r_into_rtranclp [of cas_step, OF cas_step.swap [of 0 "[(5, Loop 0), (9, Loop 0)]" 5 0 0]] by simp
  also have "cas_step\<^sup>*\<^sup>* \<dots> (5, [(5, Done), (9, Loop 5)])"
    using r_into_rtranclp [of cas_step, OF cas_step.fail [of 1 "[(5, Done), (9, Loop 0)]" 9 0 5]] by simp
  also have "cas_step\<^sup>*\<^sup>* \<dots> (9, [(5, Done), (9, Done)])"
    using r_into_rtranclp [of cas_step, OF cas_step.swap [of 1 "[(5, Done), (9, Loop 5)]" 9 5 5]] by simp
  finally show ?thesis by simp
qed

theorem concurrent_maximum_witness: "unat (9 :: u64) = list_max (map unat [5 :: u64, 9])"
  by (rule concurrent_maximum [OF cas_example]) simp

end
