(* ===== verification/Core_Metrics_Threads.thy ===== *)
theory Core_Metrics_Threads
  imports Core_Metrics "HOL-Library.Multiset"
begin

text \<open>
  Daemon metrics under threads, \<open>crates/duende-core/src/metrics.rs\<close>. A clone of \<open>DaemonMetrics\<close> shares the atomics, so any
  number of threads update and read them at once. A step is one access of one atomic, or one look at the
  clock; \<open>snapshot\<close> reads the atomics one by one, some of them twice. The steps of all threads interleave in one order, so
  what is shown to go wrong can go wrong even without the freedom that \<open>Ordering::Relaxed\<close> leaves to the
  hardware. The equivalence with a sequential order is about the values after all calls have returned; each of these is the
  value of one atomic, whose relaxed updates are totally ordered.
\<close>

section \<open>Calls by steps\<close>

datatype metrics_call =
    CRequest
  | CError
  | CDuration duration
  | CCpu f64
  | CMemory u64
  | CFds u64
  | CThreadCount u64
  | CTrip
  | CRecovery
  | CSnapshot

datatype metrics_pc =
    Enter
  | AddCount u64
  | LoadMax u64
  | SwapMax u64 u64
  | SnapElapsed metrics_snapshot
  | SnapRate f64 metrics_snapshot
  | SnapErrors metrics_snapshot
  | SnapErrorRate metrics_snapshot
  | SnapErrorLoad u64 metrics_snapshot
  | SnapCount metrics_snapshot
  | SnapSum u64 metrics_snapshot
  | SnapMax metrics_snapshot
  | SnapCpu metrics_snapshot
  | SnapMemory metrics_snapshot
  | SnapFds metrics_snapshot
  | SnapThreads metrics_snapshot
  | SnapTrips metrics_snapshot
  | SnapRecoveries metrics_snapshot
  | SnapUptime metrics_snapshot
  | Left "metrics_snapshot option"

text \<open>The fields of the snapshot are computed in the order of the struct.\<close>

definition snapshot_blank :: metrics_snapshot where
  "snapshot_blank =
     \<lparr>ms_requests_total = 0, ms_requests_per_second = Fin 0, ms_errors_total = 0, ms_error_rate = Fin 0,
      ms_duration_avg_us = 0, ms_duration_max_us = 0, ms_cpu_usage_percent = Fin 0, ms_memory_bytes = 0,
      ms_open_fds = 0, ms_thread_count = 0, ms_circuit_breaker_trips = 0, ms_successful_recoveries = 0,
      ms_uptime_secs = 0\<rparr>"

fun enter_call :: "metrics_call \<Rightarrow> metrics \<Rightarrow> metrics_pc \<times> metrics" where
  "enter_call CRequest m = (Left None, record_request m)"
| "enter_call CError m = (Left None, record_error m)"
| "enter_call (CDuration d) m =
     (AddCount (of_nat (as_micros d)), m\<lparr>duration_sum_us := duration_sum_us m + of_nat (as_micros d)\<rparr>)"
| "enter_call (CCpu percent) m = (Left None, set_cpu_usage percent m)"
| "enter_call (CMemory n) m = (Left None, set_memory_bytes n m)"
| "enter_call (CFds n) m = (Left None, set_open_fds n m)"
| "enter_call (CThreadCount n) m = (Left None, set_thread_count n m)"
| "enter_call CTrip m = (Left None, record_circuit_breaker_trip m)"
| "enter_call CRecovery m = (Left None, record_recovery m)"
| "enter_call CSnapshot m = (SnapElapsed (snapshot_blank\<lparr>ms_requests_total := requests_total m\<rparr>), m)"

text \<open>\<open>spurious\<close> is a failure of \<open>compare_exchange_weak\<close> without cause.\<close>

fun update_move :: "bool \<Rightarrow> metrics_pc \<Rightarrow> metrics \<Rightarrow> metrics_pc \<times> metrics" where
  "update_move spurious (AddCount us) m = (LoadMax us, m\<lparr>duration_count := duration_count m + 1\<rparr>)"
| "update_move spurious (LoadMax us) m = (SwapMax us (duration_max_us m), m)"
| "update_move spurious (SwapMax us current_max) m =
     (if current_max < us
      then if duration_max_us m = current_max \<and> \<not> spurious then (Left None, m\<lparr>duration_max_us := us\<rparr>)
           else (SwapMax us (duration_max_us m), m)
      else (Left None, m))"
| "update_move spurious p m = (p, m)"

fun snapshot_move :: "instant \<Rightarrow> metrics \<Rightarrow> metrics_pc \<Rightarrow> metrics_pc" where
  "snapshot_move now m (SnapElapsed r) =
     (let secs = as_secs_f64 (elapsed now (start_time m))
      in if f_gt secs (Fin 0) then SnapRate secs r else SnapErrors (r\<lparr>ms_requests_per_second := Fin 0\<rparr>))"
| "snapshot_move now m (SnapRate secs r) =
     SnapErrors (r\<lparr>ms_requests_per_second := f_div (f_of_word (requests_total m)) secs\<rparr>)"
| "snapshot_move now m (SnapErrors r) = SnapErrorRate (r\<lparr>ms_errors_total := errors_total m\<rparr>)"
| "snapshot_move now m (SnapErrorRate r) =
     (if 0 < requests_total m then SnapErrorLoad (requests_total m) r else SnapCount (r\<lparr>ms_error_rate := Fin 0\<rparr>))"
| "snapshot_move now m (SnapErrorLoad requests r) =
     SnapCount (r\<lparr>ms_error_rate := f_div (f_of_word (errors_total m)) (f_of_word requests)\<rparr>)"
| "snapshot_move now m (SnapCount r) =
     (if 0 < duration_count m then SnapSum (duration_count m) r else SnapMax (r\<lparr>ms_duration_avg_us := 0\<rparr>))"
| "snapshot_move now m (SnapSum counted r) =
     SnapMax (r\<lparr>ms_duration_avg_us := of_nat (as_micros (unat (duration_sum_us m div counted) * 1000))\<rparr>)"
| "snapshot_move now m (SnapMax r) = SnapCpu (r\<lparr>ms_duration_max_us := of_nat (as_micros (duration_max m))\<rparr>)"
| "snapshot_move now m (SnapCpu r) = SnapMemory (r\<lparr>ms_cpu_usage_percent := cpu_usage m\<rparr>)"
| "snapshot_move now m (SnapMemory r) = SnapFds (r\<lparr>ms_memory_bytes := memory_bytes m\<rparr>)"
| "snapshot_move now m (SnapFds r) = SnapThreads (r\<lparr>ms_open_fds := open_fds m\<rparr>)"
| "snapshot_move now m (SnapThreads r) = SnapTrips (r\<lparr>ms_thread_count := thread_count m\<rparr>)"
| "snapshot_move now m (SnapTrips r) = SnapRecoveries (r\<lparr>ms_circuit_breaker_trips := circuit_breaker_trips m\<rparr>)"
| "snapshot_move now m (SnapRecoveries r) = SnapUptime (r\<lparr>ms_successful_recoveries := successful_recoveries m\<rparr>)"
| "snapshot_move now m (SnapUptime r) = Left (Some (r\<lparr>ms_uptime_secs := of_nat (uptime now m div 1000000000)\<rparr>))"
| "snapshot_move now m p = p"

fun metrics_move :: "bool \<Rightarrow> instant \<Rightarrow> metrics_call \<times> metrics_pc \<Rightarrow> metrics \<Rightarrow> metrics_pc \<times> metrics" where
  "metrics_move spurious now (c, p) m =
     (if p = Enter then enter_call c m
      else if c = CSnapshot then (snapshot_move now m p, m)
      else update_move spurious p m)"

record metrics_threads =
  mt_calls :: "(metrics_call \<times> metrics_pc) list"
  mt_metrics :: metrics
  mt_now :: instant

datatype metrics_event = Act nat bool | Later duration

fun metrics_step :: "metrics_threads \<Rightarrow> metrics_event \<Rightarrow> metrics_threads" where
  "metrics_step s (Act i spurious) =
     (if i < length (mt_calls s)
      then (case metrics_move spurious (mt_now s) (mt_calls s ! i) (mt_metrics s) of
              (p, m) \<Rightarrow> s\<lparr>mt_calls := (mt_calls s)[i := (fst (mt_calls s ! i), p)], mt_metrics := m\<rparr>)
      else s)"
| "metrics_step s (Later d) = s\<lparr>mt_now := mt_now s + d\<rparr>"

definition metrics_start :: "instant \<Rightarrow> metrics_call list \<Rightarrow> metrics_threads" where
  "metrics_start now cs = \<lparr>mt_calls = map (\<lambda>c. (c, Enter)) cs, mt_metrics = metrics_new now, mt_now = now\<rparr>"

text \<open>The call as a whole, as in \<open>Core_Metrics\<close>.\<close>

fun whole_call :: "metrics_call \<Rightarrow> metrics \<Rightarrow> metrics" where
  "whole_call CRequest m = record_request m"
| "whole_call CError m = record_error m"
| "whole_call (CDuration d) m = record_duration d m"
| "whole_call (CCpu percent) m = set_cpu_usage percent m"
| "whole_call (CMemory n) m = set_memory_bytes n m"
| "whole_call (CFds n) m = set_open_fds n m"
| "whole_call (CThreadCount n) m = set_thread_count n m"
| "whole_call CTrip m = record_circuit_breaker_trip m"
| "whole_call CRecovery m = record_recovery m"
| "whole_call CSnapshot m = m"

text \<open>A snapshot that nothing interrupts is the one of \<open>Core_Metrics\<close>.\<close>

fun snapshot_alone :: "nat \<Rightarrow> instant \<Rightarrow> metrics \<Rightarrow> metrics_pc \<Rightarrow> metrics_pc" where
  "snapshot_alone 0 now m p = p"
| "snapshot_alone (Suc n) now m p = snapshot_alone n now m (snapshot_move now m p)"

lemma snapshot_alone_left [simp]: "snapshot_alone n now m (Left r) = Left r"
  by (induction n) simp_all

lemma snapshot_alone_step: "snapshot_alone (numeral n) now m p = snapshot_alone (pred_numeral n) now m (snapshot_move now m p)"
  by (simp add: numeral_eq_Suc)

lemma snapshot_alone_whole:
  "snapshot_alone 15 now m (fst (enter_call CSnapshot m)) = Left (Some (snapshot now m))"
  by (cases "f_gt (as_secs_f64 (elapsed now (start_time m))) (Fin 0)"; cases "0 < requests_total m"; cases "0 < duration_count m")
    (simp_all add: snapshot_alone_step snapshot_blank_def snapshot_def requests_per_second_def error_rate_def duration_avg_def)

section \<open>No update is lost\<close>

datatype cell = Requests | Errors | DurationSum | DurationCount | Trips | Recoveries

fun cell_of :: "cell \<Rightarrow> metrics \<Rightarrow> u64" where
  "cell_of Requests m = requests_total m"
| "cell_of Errors m = errors_total m"
| "cell_of DurationSum m = duration_sum_us m"
| "cell_of DurationCount m = duration_count m"
| "cell_of Trips m = circuit_breaker_trips m"
| "cell_of Recoveries m = successful_recoveries m"

abbreviation us_of :: "duration \<Rightarrow> u64" where
  "us_of d \<equiv> of_nat (as_micros d)"

text \<open>What a call has added to an atomic so far.\<close>

fun call_share :: "cell \<Rightarrow> metrics_call \<Rightarrow> u64" where
  "call_share Requests CRequest = 1"
| "call_share Errors CError = 1"
| "call_share DurationSum (CDuration d) = us_of d"
| "call_share DurationCount (CDuration d) = 1"
| "call_share Trips CTrip = 1"
| "call_share Recoveries CRecovery = 1"
| "call_share k c = 0"

fun counted_yet :: "cell \<Rightarrow> metrics_pc \<Rightarrow> bool" where
  "counted_yet k Enter = False"
| "counted_yet k (AddCount us) = (k \<noteq> DurationCount)"
| "counted_yet k p = True"

definition share :: "cell \<Rightarrow> metrics_call \<times> metrics_pc \<Rightarrow> u64" where
  "share k t = (if counted_yet k (snd t) then call_share k (fst t) else 0)"

fun is_left :: "metrics_pc \<Rightarrow> bool" where
  "is_left (Left r) = True"
| "is_left p = False"

fun at_update :: "duration \<Rightarrow> metrics_pc \<Rightarrow> bool" where
  "at_update d Enter = True"
| "at_update d (AddCount us) = (us = us_of d)"
| "at_update d (LoadMax us) = (us = us_of d)"
| "at_update d (SwapMax us cur) = (us = us_of d)"
| "at_update d (Left r) = True"
| "at_update d p = False"

definition fits :: "metrics_call \<times> metrics_pc \<Rightarrow> bool" where
  "fits t \<longleftrightarrow> (case fst t of CDuration d \<Rightarrow> at_update d (snd t) | CSnapshot \<Rightarrow> True | _ \<Rightarrow> snd t = Enter \<or> is_left (snd t))"

lemma metrics_move_fits:
  assumes "fits (c, p)" "metrics_move spurious now (c, p) m = (p', m')"
  shows "fits (c, p')"
  using assms by (cases c; cases p; auto simp: fits_def split: if_splits)

lemma enter_cell: "cell_of k (snd (enter_call c m)) = cell_of k m + share k (c, fst (enter_call c m))"
  by (cases c; cases k) (simp_all add: share_def record_request_def record_error_def set_cpu_usage_def
      set_memory_bytes_def set_open_fds_def set_thread_count_def record_circuit_breaker_trip_def record_recovery_def)

lemma update_cell:
  assumes "at_update d p" "p \<noteq> Enter"
  shows "cell_of k (snd (update_move spurious p m)) - share k (CDuration d, fst (update_move spurious p m))
    = cell_of k m - share k (CDuration d, p)"
proof (cases p)
  case (AddCount us)
  then show ?thesis using assms(1) by (cases k) (simp_all add: share_def)
next
  case (SwapMax us cur)
  then show ?thesis by (cases k) (simp_all add: share_def)
qed (use assms in \<open>simp_all add: share_def\<close>)

lemma share_snapshot [simp]: "share k (CSnapshot, p) = 0"
  by (cases k) (simp_all add: share_def)

lemma metrics_move_cell:
  assumes "fits (c, p)"
  shows "cell_of k (snd (metrics_move spurious now (c, p) m)) - share k (c, fst (metrics_move spurious now (c, p) m))
    = cell_of k m - share k (c, p)"
proof (cases "p = Enter \<or> c = CSnapshot")
  case True
  have "share k (c, Enter) = 0" by (simp add: share_def)
  with True enter_cell [of k c m] show ?thesis by auto
next
  case False
  then have "(\<exists>d. c = CDuration d \<and> at_update d p) \<or> is_left p"
    using assms by (cases c) (auto simp: fits_def)
  then show ?thesis
  proof
    assume "is_left p"
    with False show ?thesis by (cases p) simp_all
  qed (use False update_cell in auto)
qed

text \<open>The maximum, as in \<open>Core_Metrics\<close>.\<close>

fun max_seen :: "u64 \<Rightarrow> metrics_call \<times> metrics_pc \<Rightarrow> bool" where
  "max_seen x (c, SwapMax us cur) = (cur \<le> x)"
| "max_seen x (CDuration d, Left r) = (us_of d \<le> x)"
| "max_seen x t = True"

definition durations_of :: "metrics_call list \<Rightarrow> u64 set" where
  "durations_of cs = {us_of d |d. CDuration d \<in> set cs}"

definition books :: "metrics_call list \<Rightarrow> metrics_threads \<Rightarrow> bool" where
  "books cs s \<longleftrightarrow> map fst (mt_calls s) = cs \<and> list_all fits (mt_calls s)
     \<and> (\<forall>k. cell_of k (mt_metrics s) = sum_list (map (share k) (mt_calls s)))
     \<and> (duration_max_us (mt_metrics s) = 0 \<or> duration_max_us (mt_metrics s) \<in> durations_of cs)
     \<and> list_all (max_seen (duration_max_us (mt_metrics s))) (mt_calls s)"

lemma max_seen_mono: "x \<le> y \<Longrightarrow> max_seen x t \<Longrightarrow> max_seen y t"
  by (cases "(x, t)" rule: max_seen.cases) auto

lemma metrics_move_max:
  assumes "fits (c, p)" "max_seen (duration_max_us m) (c, p)"
    and "metrics_move spurious now (c, p) m = (p', m')"
  shows "duration_max_us m \<le> duration_max_us m'
    \<and> (duration_max_us m' = duration_max_us m \<or> (\<exists>d. c = CDuration d \<and> duration_max_us m' = us_of d))
    \<and> max_seen (duration_max_us m') (c, p')"
proof -
  have enter: "duration_max_us (snd (enter_call c m)) = duration_max_us m" "max_seen x (c, fst (enter_call c m))" for x
    by (cases c; simp add: record_request_def record_error_def set_cpu_usage_def set_memory_bytes_def
        set_open_fds_def set_thread_count_def record_circuit_breaker_trip_def record_recovery_def)+
  consider "p = Enter" | "p \<noteq> Enter" "c = CSnapshot" | d where "c = CDuration d" "at_update d p" "p \<noteq> Enter"
    | "p \<noteq> Enter" "c \<noteq> CSnapshot" "is_left p"
    using assms(1) by (cases c) (auto simp: fits_def)
  then show ?thesis
  proof cases
    case 1
    with assms(3) enter show ?thesis by (metis metrics_move.simps fst_conv order_refl snd_conv)
  next
    case 2
    then have "m' = m" "p' = snapshot_move now m p" using assms(3) by auto
    with 2 assms(2) show ?thesis by (cases p) (simp_all add: Let_def)
  next
    case 3
    with assms(2,3) show ?thesis by (cases p) (auto split: if_splits)
  next
    case 4
    with assms(2,3) show ?thesis by (cases p) auto
  qed
qed

lemma books_step [inv_intro]: "books cs s \<Longrightarrow> books cs (metrics_step s e)"
proof (cases e)
  case (Act i spurious)
  assume books: "books cs s"
  show ?thesis
  proof (cases "i < length (mt_calls s)")
    case True
    obtain c p where t: "mt_calls s ! i = (c, p)" by force
    obtain p' m' where move: "metrics_move spurious (mt_now s) (c, p) (mt_metrics s) = (p', m')" by force
    have fst: "map fst (mt_calls s) = cs" using books by (simp add: books_def)
    then have "cs ! i = c" "i < length cs" using True t by auto
    then have "c \<in> set cs" using nth_mem by blast
    then have here: "fits (c, p)" "max_seen (duration_max_us (mt_metrics s)) (c, p)" "c \<in> set cs"
      using books True t by (simp_all add: books_def list_all_length) (metis True)+
    note max = metrics_move_max [OF here(1,2) move]
    have cell: "cell_of k m' = sum_list (map (share k) ((mt_calls s)[i := (c, p')]))" for k
      using books metrics_move_cell [OF here(1), of k spurious "mt_now s" "mt_metrics s"] True t move
      by (intro sum_list_map_kept [where q = "cell_of k (mt_metrics s)"]) (simp_all add: books_def del: metrics_move.simps)
    have "map fst ((mt_calls s)[i := (c, p')]) = cs"
      using fst t by (metis fst_conv list_update_id map_update)
    moreover have "list_all (max_seen (duration_max_us m')) ((mt_calls s)[i := (c, p')])"
      using books max by (intro list_all_update) (auto simp: books_def list_all_iff intro: max_seen_mono)
    moreover have "duration_max_us m' = 0 \<or> duration_max_us m' \<in> durations_of cs"
      using books max here(3) by (auto simp: books_def durations_of_def)
    ultimately show ?thesis
      using books metrics_move_fits [OF here(1) move] cell
      by (simp add: Act True t move books_def list_all_update del: metrics_move.simps)
  qed (use books Act in simp)
qed (simp add: books_def)

interpretation metrics_books: invariant_machine metrics_step "books cs" for cs
  by unfold_locales (rule books_step)

lemma books_start: "books cs (metrics_start now cs)"
proof -
  have "cell_of k (metrics_new now) = 0" for k by (cases k) (simp_all add: metrics_new_def)
  moreover have "sum_list (map (share k) (map (\<lambda>c. (c, Enter)) cs)) = 0" for k
    by (induction cs) (simp_all add: share_def)
  ultimately show ?thesis
    by (simp add: books_def metrics_start_def comp_def list_all_iff fits_def metrics_new_def split: metrics_call.split)
qed

lemma whole_call_cell: "cell_of k (whole_call c m) = cell_of k m + call_share k c"
  by (cases c; cases k) (simp_all add: record_request_def record_error_def record_duration_def set_cpu_usage_def
      set_memory_bytes_def set_open_fds_def set_thread_count_def record_circuit_breaker_trip_def record_recovery_def Let_def)

lemma record_duration_max: "duration_max_us (record_duration d m) = max (duration_max_us m) (us_of d)"
proof -
  have "duration_max_us (record_duration d m) = (if duration_max_us m < us_of d then us_of d else duration_max_us m)"
    by (simp add: record_duration_def Let_def)
  then show ?thesis by (metis less_imp_le max.absorb1 max.absorb2 not_less)
qed

lemma whole_call_max:
  "duration_max_us (whole_call c m) = (case c of CDuration d \<Rightarrow> max (duration_max_us m) (us_of d) | _ \<Rightarrow> duration_max_us m)"
  by (cases c) (simp_all add: record_request_def record_error_def record_duration_max set_cpu_usage_def
      set_memory_bytes_def set_open_fds_def set_thread_count_def record_circuit_breaker_trip_def record_recovery_def)

lemma sequence_cell: "cell_of k (fold whole_call cs m) = cell_of k m + sum_list (map (call_share k) cs)"
  by (induction cs arbitrary: m) (simp_all add: whole_call_cell)

lemma durations_of_snoc: "durations_of (cs @ [c]) = durations_of cs \<union> (case c of CDuration d \<Rightarrow> {us_of d} | _ \<Rightarrow> {})"
  by (auto simp: durations_of_def split: metrics_call.splits)

lemma sequence_max:
  "(duration_max_us (fold whole_call cs (metrics_new now)) = 0
      \<or> duration_max_us (fold whole_call cs (metrics_new now)) \<in> durations_of cs)
   \<and> (\<forall>x. x \<in> durations_of cs \<longrightarrow> x \<le> duration_max_us (fold whole_call cs (metrics_new now)))"
proof (induction cs rule: rev_induct)
  case (snoc c cs)
  then show ?case
    by (cases c) (auto simp: whole_call_max durations_of_snoc max_def simp del: whole_call.simps)
qed (simp add: metrics_new_def durations_of_def)

lemma greatest_unique:
  assumes "x = 0 \<or> x \<in> S" "\<forall>z. z \<in> S \<longrightarrow> z \<le> x" "y = 0 \<or> y \<in> S" "\<forall>z. z \<in> S \<longrightarrow> z \<le> (y :: u64)"
  shows "x = y"
proof -
  have "x \<le> y" using assms(1,4) by auto
  moreover have "y \<le> x" using assms(2,3) by auto
  ultimately show ?thesis by simp
qed

lemma metrics_books_closed:
  assumes "books cs s" "list_all (\<lambda>t. is_left (snd t)) (mt_calls s)"
  shows "cell_of k (mt_metrics s) = cell_of k (fold whole_call cs (metrics_new now))"
    and "duration_max_us (mt_metrics s) = duration_max_us (fold whole_call cs (metrics_new now))"
proof -
  have share: "share k t = call_share k (fst t)" if "is_left (snd t)" for t
    using that by (cases "snd t") (simp_all add: share_def)
  have "map (share k) (mt_calls s) = map (call_share k \<circ> fst) (mt_calls s)"
    using assms(2) by (intro map_cong) (auto simp: list_all_iff share)
  then have "cell_of k (mt_metrics s) = sum_list (map (call_share k) cs)"
    using assms(1) by (simp add: books_def flip: map_map)
  moreover have "cell_of k (metrics_new now) = 0" by (cases k) (simp_all add: metrics_new_def)
  ultimately show "cell_of k (mt_metrics s) = cell_of k (fold whole_call cs (metrics_new now))"
    by (simp add: sequence_cell)
  have "x \<le> duration_max_us (mt_metrics s)" if x: "x \<in> durations_of cs" for x
  proof -
    from x obtain d where d: "x = us_of d" "CDuration d \<in> set cs" by (auto simp: durations_of_def)
    then obtain p where p: "(CDuration d, p) \<in> set (mt_calls s)" using assms(1) by (auto simp: books_def)
    with assms(2) have "is_left p" by (auto simp: list_all_iff)
    then obtain r where "p = Left r" by (cases p) simp_all
    moreover have "max_seen (duration_max_us (mt_metrics s)) (CDuration d, p)"
      using p assms(1) by (auto simp: books_def list_all_iff)
    ultimately show ?thesis using d(1) by simp
  qed
  with sequence_max [of cs now] assms(1)
  show "duration_max_us (mt_metrics s) = duration_max_us (fold whole_call cs (metrics_new now))"
    by (intro greatest_unique [of _ "durations_of cs"]) (auto simp: books_def)
qed

text \<open>The counts and the maximum are the same in whatever order the calls are made.\<close>

lemma sequence_perm:
  assumes "mset cs = mset cs'"
  shows "cell_of k (fold whole_call cs m) = cell_of k (fold whole_call cs' m)"
    and "duration_max_us (fold whole_call cs (metrics_new now)) = duration_max_us (fold whole_call cs' (metrics_new now))"
proof -
  have "sum_list (map (call_share k) cs) = sum_list (map (call_share k) cs')"
    using assms by (metis mset_map sum_mset_sum_list)
  then show "cell_of k (fold whole_call cs m) = cell_of k (fold whole_call cs' m)" by (simp add: sequence_cell)
  have "durations_of cs = durations_of cs'" using mset_eq_setD [OF assms] by (simp add: durations_of_def)
  with sequence_max [of cs now] sequence_max [of cs' now]
  show "duration_max_us (fold whole_call cs (metrics_new now)) = duration_max_us (fold whole_call cs' (metrics_new now))"
    by (intro greatest_unique [of _ "durations_of cs"]) auto
qed

text \<open>What is stored and not counted is stored by the first step of a call, so the calls count in the order of their first
  steps.\<close>

definition entry_order :: "nat \<Rightarrow> metrics_event list \<Rightarrow> nat list" where
  "entry_order n es =
     foldl (\<lambda>entered e. case e of Act i _ \<Rightarrow> if i < n \<and> i \<notin> set entered then entered @ [i] else entered | Later _ \<Rightarrow> entered) [] es"

definition calls_in_order :: "metrics_call list \<Rightarrow> metrics_event list \<Rightarrow> metrics_call list" where
  "calls_in_order cs es = map (\<lambda>i. cs ! i) (entry_order (length cs) es)"

definition stored :: "metrics \<Rightarrow> u64 \<times> u64 \<times> u64 \<times> u64 \<times> instant" where
  "stored m = (cpu_usage_permille m, memory_bytes m, open_fds m, thread_count m, start_time m)"

lemma entry_order_nil [simp]: "entry_order n [] = []"
  by (simp add: entry_order_def)

lemma entry_order_snoc [simp]:
  "entry_order n (es @ [Act i spurious]) =
     (if i < n \<and> i \<notin> set (entry_order n es) then entry_order n es @ [i] else entry_order n es)"
  "entry_order n (es @ [Later d]) = entry_order n es"
  by (simp_all add: entry_order_def)

lemma entry_order_valid: "distinct (entry_order n es) \<and> set (entry_order n es) \<subseteq> {..<n}"
proof (induction es rule: rev_induct)
  case (snoc e es)
  then show ?case by (cases e) auto
qed simp

lemma whole_call_stored: "stored m = stored m' \<Longrightarrow> stored (whole_call c m) = stored (whole_call c m')"
  by (cases c) (simp_all add: stored_def record_request_def record_error_def record_duration_def set_cpu_usage_def
      set_memory_bytes_def set_open_fds_def set_thread_count_def record_circuit_breaker_trip_def record_recovery_def Let_def)

lemma metrics_move_stored:
  assumes "metrics_move spurious now (c, p) m = (p', m')"
  shows "p' \<noteq> Enter \<and> stored m' = stored (if p = Enter then whole_call c m else m)"
proof (cases "p = Enter")
  case True
  with assms show ?thesis
    by (cases c) (auto simp: stored_def record_request_def record_error_def record_duration_def set_cpu_usage_def
        set_memory_bytes_def set_open_fds_def set_thread_count_def record_circuit_breaker_trip_def record_recovery_def Let_def)
next
  case False
  with assms show ?thesis by (cases p) (auto simp: stored_def Let_def split: if_splits)
qed

lemma entered_stored:
  assumes "s = run metrics_step (metrics_start now cs) es"
  shows "length (mt_calls s) = length cs \<and> map fst (mt_calls s) = cs
    \<and> (\<forall>i. i < length cs \<longrightarrow> (snd (mt_calls s ! i) = Enter \<longleftrightarrow> i \<notin> set (entry_order (length cs) es)))
    \<and> stored (mt_metrics s) = stored (fold whole_call (calls_in_order cs es) (metrics_new now))"
  using assms
proof (induction es arbitrary: s rule: rev_induct)
  case (snoc e es)
  define s0 where "s0 = run metrics_step (metrics_start now cs) es"
  from snoc.prems have s: "s = metrics_step s0 e" by (simp add: s0_def run_append)
  note IH = snoc.IH [OF s0_def]
  show ?case
  proof (cases e)
    case (Later d)
    with IH s show ?thesis by (simp add: calls_in_order_def)
  next
    case (Act i spurious)
    show ?thesis
    proof (cases "i < length cs")
      case True
      obtain c p where t: "mt_calls s0 ! i = (c, p)" by force
      obtain p' m' where move: "metrics_move spurious (mt_now s0) (c, p) (mt_metrics s0) = (p', m')" by force
      have fst: "map fst ((mt_calls s0)[i := (c, p')]) = cs"
        using IH t by (metis fst_conv list_update_id map_update)
      have "c = cs ! i" using IH True t by (metis fst_conv nth_map)
      moreover note metrics_move_stored [OF move]
      moreover have "p = Enter \<longleftrightarrow> i \<notin> set (entry_order (length cs) es)" using IH True t by (metis snd_conv)
      ultimately show ?thesis
        using IH True t move fst whole_call_stored [of "mt_metrics s0" "fold whole_call (calls_in_order cs es) (metrics_new now)" c]
        by (auto simp: s Act calls_in_order_def nth_list_update simp del: metrics_move.simps)
    next
      case False
      with IH s Act show ?thesis by (simp add: calls_in_order_def)
    qed
  qed
qed (simp add: metrics_start_def calls_in_order_def comp_def)

lemma all_entered:
  assumes "list_all (\<lambda>t. is_left (snd t)) (mt_calls s)" "s = run metrics_step (metrics_start now cs) es"
  shows "mset (calls_in_order cs es) = mset cs"
proof -
  have "i \<in> set (entry_order (length cs) es)" if "i < length cs" for i
  proof -
    have "is_left (snd (mt_calls s ! i))" using assms(1) entered_stored [OF assms(2)] that by (simp add: list_all_length)
    then have "snd (mt_calls s ! i) \<noteq> Enter" by auto
    with entered_stored [OF assms(2)] that show ?thesis by blast
  qed
  then have "set (entry_order (length cs) es) = set [0..<length cs]" using entry_order_valid [of "length cs" es] by auto
  then have "mset (entry_order (length cs) es) = mset [0..<length cs]"
    using entry_order_valid [of "length cs" es] by (metis distinct_upt set_eq_iff_mset_eq_distinct)
  then have "mset (calls_in_order cs es) = mset (map (\<lambda>i. cs ! i) [0..<length cs])"
    unfolding calls_in_order_def mset_map by simp
  then show ?thesis by (simp add: map_nth)
qed

text \<open>C20: The metrics are thread-safe: whatever the order of the steps and however often a swap fails, when all calls
  have returned every atomic, counters, maximum and gauges, holds what the same calls leave when they are made one after
  the other in the order of their first steps.\<close>

theorem metrics_are_thread_safe:
  assumes "list_all (\<lambda>t. is_left (snd t)) (mt_calls s)" "s = run metrics_step (metrics_start now cs) es"
  shows "mset (calls_in_order cs es) = mset cs
    \<and> mt_metrics s = fold whole_call (calls_in_order cs es) (metrics_new now)"
proof -
  let ?m = "fold whole_call (calls_in_order cs es) (metrics_new now)"
  note perm = all_entered [OF assms]
  have "books cs s" unfolding assms(2) by (rule metrics_books.run_good [OF books_start])
  note same = metrics_books_closed [OF this assms(1), where now = now]
  have cells: "cell_of k (mt_metrics s) = cell_of k ?m" for k using same(1) [of k] sequence_perm(1) [OF perm] by simp
  have max: "duration_max_us (mt_metrics s) = duration_max_us ?m" using same(2) sequence_perm(2) [OF perm] by simp
  have "stored (mt_metrics s) = stored ?m" using entered_stored [OF assms(2)] by blast
  then have "mt_metrics s = ?m"
    using cells [of Requests] cells [of Errors] cells [of DurationSum] cells [of DurationCount] cells [of Trips]
      cells [of Recoveries] max by (simp add: stored_def)
  with perm show ?thesis by simp
qed

text \<open>Two durations, a request, and two threads that set the same gauge.\<close>

definition mixed_calls :: "metrics_call list" where
  "mixed_calls = [CDuration 5000, CMemory 7, CDuration 9000, CMemory 8, CRequest]"

definition mixed_events :: "metrics_event list" where
  "mixed_events =
     [Act 0 False, Act 2 False, Act 2 False, Act 3 False, Act 0 False, Act 0 False, Act 2 False, Act 1 False, Act 0 False,
      Act 2 False, Act 2 True, Act 4 False, Act 2 False]"

lemma mixed_run:
  "mt_calls (run metrics_step (metrics_start 0 mixed_calls) mixed_events)
   = [(CDuration 5000, Left None), (CMemory 7, Left None), (CDuration 9000, Left None), (CMemory 8, Left None),
      (CRequest, Left None)]"
  by (simp add: mixed_calls_def mixed_events_def metrics_start_def metrics_new_def record_request_def set_memory_bytes_def)

theorem metrics_are_thread_safe_witness:
  "case mt_metrics (run metrics_step (metrics_start 0 mixed_calls) mixed_events) of
     m \<Rightarrow> requests_total m = 1 \<and> duration_avg m = 7000 \<and> memory_bytes m = 7"
proof -
  have "list_all (\<lambda>t. is_left (snd t)) (mt_calls (run metrics_step (metrics_start 0 mixed_calls) mixed_events))"
    by (simp only: mixed_run) simp
  then have "mt_metrics (run metrics_step (metrics_start 0 mixed_calls) mixed_events)
      = fold whole_call (calls_in_order mixed_calls mixed_events) (metrics_new 0)"
    using metrics_are_thread_safe [OF _ refl] by blast
  moreover have "calls_in_order mixed_calls mixed_events = [CDuration 5000, CDuration 9000, CMemory 8, CMemory 7, CRequest]"
    by (simp add: calls_in_order_def mixed_calls_def mixed_events_def entry_order_def)
  ultimately show ?thesis
    by (simp add: metrics_new_def record_request_def record_duration_def duration_avg_def set_memory_bytes_def Let_def)
qed

section \<open>A snapshot is of no moment\<close>

definition torn_calls :: "metrics_call list" where
  "torn_calls = [CDuration 1000, CSnapshot, CDuration 1000, CRequest, CError, CRequest, CError]"

text \<open>One request and one duration are recorded; the other calls run between two loads of the snapshot.\<close>

definition torn_events :: "metrics_event list" where
  "torn_events =
     [Act 3 False, Act 0 False, Act 0 False, Act 0 False, Act 0 False,
      Act 1 False, Act 1 False, Act 1 False, Act 1 False, Act 4 False, Act 5 False, Act 6 False, Act 1 False,
      Act 1 False, Act 2 False, Act 1 False, Act 1 False, Act 1 False, Act 1 False, Act 1 False, Act 1 False,
      Act 1 False, Act 1 False, Act 1 False]"

lemma zero_secs: "f_gt (as_secs_f64 0) (Fin 0) = False"
  using as_secs_f64_whole [of 0] by simp

lemma two_per_one: "f_div (f_of_word (2 :: u64)) (f_of_word (1 :: u64)) = Fin 2"
proof -
  have "f_round 2 = Fin 2" using f_of_nat_small [of 2] by (simp add: f_of_nat_def)
  then show ?thesis by (simp add: f_of_nat_small)
qed

lemma torn_run:
  "snd (mt_calls (run metrics_step (metrics_start now torn_calls) torn_events) ! 1)
   = Left (Some \<lparr>ms_requests_total = 1, ms_requests_per_second = Fin 0, ms_errors_total = 0, ms_error_rate = Fin 2,
       ms_duration_avg_us = 2, ms_duration_max_us = 1, ms_cpu_usage_percent = cpu_usage (metrics_new now), ms_memory_bytes = 0,
       ms_open_fds = 0, ms_thread_count = 0, ms_circuit_breaker_trips = 0, ms_successful_recoveries = 0,
       ms_uptime_secs = 0\<rparr>)"
  using two_per_one
  by (simp add: torn_calls_def torn_events_def metrics_start_def metrics_new_def record_request_def record_error_def
      snapshot_blank_def zero_secs duration_max_def cpu_usage_def uptime_def Let_def)

lemma no_moment:
  assumes "ms_errors_total r = 0" "ms_error_rate r = Fin 2"
  shows "snapshot now m \<noteq> r"
proof
  assume "snapshot now m = r"
  then have "errors_total m = 0" "error_rate m = Fin 2" using assms by (auto simp: snapshot_def)
  moreover obtain x where "error_rate m = Fin x" "x \<le> 1 \<or> requests_total m < errors_total m"
    using error_rate_bounds [of m] by blast
  ultimately show False by simp
qed

text \<open>C21: The snapshot is not one of a point in time: it can be what no state of the metrics gives. Here every error is
  recorded after its request and all durations are the same, and the snapshot tells of no error, of two
  errors per request, and of an average above the maximum.\<close>

theorem snapshot_of_no_moment:
  "\<exists>es r. snd (mt_calls (run metrics_step (metrics_start now
        [CDuration 1000, CSnapshot, CDuration 1000, CRequest, CError, CRequest, CError]) es) ! 1) = Left (Some r)
    \<and> ms_requests_total r = 1 \<and> ms_errors_total r = 0 \<and> ms_error_rate r = Fin 2
    \<and> ms_duration_avg_us r = 2 \<and> ms_duration_max_us r = 1
    \<and> (\<forall>now' m. snapshot now' m \<noteq> r)"
  by (intro exI [of _ torn_events], rule exI, intro conjI allI, rule torn_run [unfolded torn_calls_def])
    (simp_all add: no_moment)

end
