(* ===== verification/Core_Platform.thy ===== *)
theory Core_Platform
  imports Rust_Text
begin

text \<open>
  Platform detection: \<open>crates/duende-core/src/platform.rs\<close> and the second copy of it in
  \<open>crates/duende-platform/src/detect.rs\<close> (names with \<open>p_\<close>). What the two look at is \<open>host\<close>: the
  target the program was built for, environment variables that are set, paths that exist and the
  text of \<open>/proc/1/cgroup\<close> if it can be read.
\<close>

datatype platform = Linux | MacOS | Container | PepitaMicroVM | Wos | Native

text \<open>\<open>Os_unix\<close> is any other Unix, with its value of \<open>EAGAIN\<close> (\<open>Memory_Targets\<close> needs it); detection treats it as \<open>Os_other\<close>.\<close>

datatype target_os = Os_linux | Os_macos | Os_unix i32 | Os_other

record host =
  target_wasm32 :: bool
  target_os :: target_os
  env_set :: "string \<Rightarrow> bool"
  path_exists :: "string \<Rightarrow> bool"
  proc_1_cgroup :: "string option"

fun supports_isolation :: "platform \<Rightarrow> bool" where
  "supports_isolation Container = True"
| "supports_isolation PepitaMicroVM = True"
| "supports_isolation Wos = True"
| "supports_isolation _ = False"

fun supports_cgroups :: "platform \<Rightarrow> bool" where
  "supports_cgroups Linux = True"
| "supports_cgroups Container = True"
| "supports_cgroups _ = False"

definition supports_systemd :: "platform \<Rightarrow> bool" where
  "supports_systemd p \<longleftrightarrow> p = Linux"

definition supports_launchd :: "platform \<Rightarrow> bool" where
  "supports_launchd p \<longleftrightarrow> p = MacOS"

fun platform_name :: "platform \<Rightarrow> string" where
  "platform_name Linux = ''linux''"
| "platform_name MacOS = ''macos''"
| "platform_name Container = ''container''"
| "platform_name PepitaMicroVM = ''pepita''"
| "platform_name Wos = ''wos''"
| "platform_name Native = ''native''"

section \<open>Detection in duende-core\<close>

definition is_pepita_vm :: "host \<Rightarrow> bool" where
  "is_pepita_vm h = (if env_set h ''PEPITA_VM'' then True else path_exists h ''/dev/virtio-ports'')"

definition is_container :: "host \<Rightarrow> bool" where
  "is_container h =
     (if path_exists h ''/.dockerenv'' then True
      else if (case proc_1_cgroup h of
                 Some cgroup \<Rightarrow> contains ''docker'' cgroup \<or> contains ''containerd'' cgroup
                   \<or> contains ''kubepods'' cgroup \<or> contains ''lxc'' cgroup
               | None \<Rightarrow> False) then True
      else env_set h ''KUBERNETES_SERVICE_HOST'')"

definition is_systemd_available :: "host \<Rightarrow> bool" where
  "is_systemd_available h = path_exists h ''/run/systemd/system''"

definition detect_platform :: "host \<Rightarrow> platform" where
  "detect_platform h =
     (if target_wasm32 h \<or> env_set h ''WOS_KERNEL'' then Wos
      else if is_pepita_vm h then PepitaMicroVM
      else if is_container h then Container
      else if target_os h = Os_linux \<and> is_systemd_available h then Linux
      else if target_os h = Os_macos then MacOS
      else Native)"

section \<open>Detection in duende-platform\<close>

definition p_is_container :: "host \<Rightarrow> bool" where
  "p_is_container h =
     (if path_exists h ''/.dockerenv'' then True
      else if (case proc_1_cgroup h of
                 Some content \<Rightarrow> contains ''docker'' content \<or> contains ''containerd'' content
                   \<or> contains ''lxc'' content
               | None \<Rightarrow> False) then True
      else env_set h ''container'')"

definition p_detect_platform :: "host \<Rightarrow> platform" where
  "p_detect_platform h =
     (if target_wasm32 h \<or> env_set h ''WOS_KERNEL'' then Wos
      else if path_exists h ''/dev/virtio-ports'' \<or> env_set h ''PEPITA_VM'' then PepitaMicroVM
      else if p_is_container h then Container
      else if target_os h = Os_linux \<and> path_exists h ''/run/systemd/system'' then Linux
      else if target_os h = Os_macos then MacOS
      else Native)"

section \<open>The order of detection\<close>

text \<open>The markers of each platform, in the documented order; the first that is there decides.\<close>

definition markers :: "host \<Rightarrow> (bool \<times> platform) list" where
  "markers h =
     [(target_wasm32 h \<or> env_set h ''WOS_KERNEL'', Wos),
      (is_pepita_vm h, PepitaMicroVM),
      (is_container h, Container),
      (target_os h = Os_linux \<and> is_systemd_available h, Linux),
      (target_os h = Os_macos, MacOS)]"

definition first_marked :: "(bool \<times> platform) list \<Rightarrow> platform" where
  "first_marked ms = (case find fst ms of Some (_, p) \<Rightarrow> p | None \<Rightarrow> Native)"

text \<open>Where the copies differ: \<open>kubepods\<close>, \<open>KUBERNETES_SERVICE_HOST\<close> and \<open>container\<close>.\<close>

definition copies_agree_on :: "host \<Rightarrow> bool" where
  "copies_agree_on h \<longleftrightarrow> is_container h = p_is_container h"

definition kubernetes_pod :: host where
  "kubernetes_pod =
     \<lparr>target_wasm32 = False, target_os = Os_linux,
      env_set = (\<lambda>v. v = ''KUBERNETES_SERVICE_HOST''),
      path_exists = (\<lambda>_. False), proc_1_cgroup = Some ''0::/''\<rparr>"

lemma p_detect_platform_eq:
  "copies_agree_on h \<Longrightarrow> p_detect_platform h = detect_platform h"
  by (auto simp: copies_agree_on_def p_detect_platform_def detect_platform_def is_pepita_vm_def
      is_systemd_available_def)

text \<open>Detection takes the first platform of the documented order whose marker is there and
  \<open>Native\<close> when none is; so systemd is only chosen on Linux, outside every container, VM and WOS.
  The copy in \<open>duende-platform\<close> answers alike exactly when both see the same container markers or an
  earlier marker decides, and does not for a Kubernetes pod without Docker's marker file.\<close>

theorem detection_order:
  "detect_platform h = first_marked (markers h)
   \<and> (p_detect_platform h = detect_platform h \<longleftrightarrow>
        copies_agree_on h \<or> target_wasm32 h \<or> env_set h ''WOS_KERNEL'' \<or> is_pepita_vm h)
   \<and> detect_platform kubernetes_pod = Container \<and> p_detect_platform kubernetes_pod = Native"
proof (intro conjI)
  show "detect_platform h = first_marked (markers h)"
    by (simp add: detect_platform_def first_marked_def markers_def)
  show "p_detect_platform h = detect_platform h \<longleftrightarrow>
        copies_agree_on h \<or> target_wasm32 h \<or> env_set h ''WOS_KERNEL'' \<or> is_pepita_vm h"
    by (auto simp: copies_agree_on_def p_detect_platform_def detect_platform_def is_pepita_vm_def
        is_systemd_available_def)
  show "detect_platform kubernetes_pod = Container" "p_detect_platform kubernetes_pod = Native"
    by (simp_all add: kubernetes_pod_def detect_platform_def p_detect_platform_def is_pepita_vm_def
        is_container_def p_is_container_def is_systemd_available_def contains_def)
qed

end
