(* ===== verification/Core_Adapter.thy ===== *)
theory Core_Adapter
  imports Core_Platform Core_Types
begin

text \<open>
  What all platform adapters share, \<open>crates/duende-core/src/adapter.rs\<close>: errors, daemon and
  tracer handles, and the default methods of the \<open>PlatformAdapter\<close> trait.

  Adapters act on a \<open>world\<close>: the clock, the adapter's own state \<open>'s\<close> and the operating system
  \<open>'w\<close>. A \<open>machine\<close> says what the system does: running a command or sleeping takes some time
  and changes \<open>'w\<close>. Every command answers: the sources await it without a time limit, and a command that hangs, and the
  method with it, is outside the model. \<open>out_stdout\<close> and \<open>out_stderr\<close> are the texts after \<open>String::from_utf8_lossy\<close>.

  The locale \<open>adapter_clock\<close> is the contract between an adapter and the default \<open>stop\<close>: its methods do not
  turn the clock back and sleeping advances it. With tools that answer this gives termination of \<open>stop\<close>. It extends \<open>clocked\<close>, the
  same law for any type of handles and errors.
\<close>

section \<open>Errors and handles\<close>

datatype platform_error =
    PNotSupported platform string
  | PSpawnFailed string
  | PSignalFailed string
  | PStatusFailed string
  | PTracerFailed string
  | PNotFound string
  | PInvalidState string
  | PTimeout duration
  | PIo string
  | PConfig string
  | PResourceLimit string
  | PPermissionDenied string

fun is_not_supported :: "platform_error \<Rightarrow> bool" where
  "is_not_supported (PNotSupported _ _) = True"
| "is_not_supported _ = False"

fun p_is_recoverable :: "platform_error \<Rightarrow> bool" where
  "p_is_recoverable (PTimeout _) = True"
| "p_is_recoverable (PResourceLimit _) = True"
| "p_is_recoverable (PInvalidState _) = True"
| "p_is_recoverable _ = False"

datatype handle_data =
    HSystemd string
  | HLaunchd string
  | HContainer string string
  | HPepita string u32
  | HWos u32
  | HNative u32

record daemon_handle =
  dh_id :: daemon_id
  dh_platform :: platform
  dh_data :: handle_data

definition handle_systemd :: "daemon_id \<Rightarrow> string \<Rightarrow> daemon_handle" where
  "handle_systemd i unit_name = \<lparr>dh_id = i, dh_platform = Linux, dh_data = HSystemd unit_name\<rparr>"

definition handle_launchd :: "daemon_id \<Rightarrow> string \<Rightarrow> daemon_handle" where
  "handle_launchd i label = \<lparr>dh_id = i, dh_platform = MacOS, dh_data = HLaunchd label\<rparr>"

definition handle_container :: "daemon_id \<Rightarrow> string \<Rightarrow> string \<Rightarrow> daemon_handle" where
  "handle_container i runtime cid =
     \<lparr>dh_id = i, dh_platform = Container, dh_data = HContainer runtime cid\<rparr>"

definition handle_pepita :: "daemon_id \<Rightarrow> string \<Rightarrow> u32 \<Rightarrow> daemon_handle" where
  "handle_pepita i vm_id cid = \<lparr>dh_id = i, dh_platform = PepitaMicroVM, dh_data = HPepita vm_id cid\<rparr>"

definition handle_wos :: "daemon_id \<Rightarrow> u32 \<Rightarrow> daemon_handle" where
  "handle_wos i pid = \<lparr>dh_id = i, dh_platform = Wos, dh_data = HWos pid\<rparr>"

definition handle_native :: "daemon_id \<Rightarrow> u32 \<Rightarrow> daemon_handle" where
  "handle_native i pid = \<lparr>dh_id = i, dh_platform = Native, dh_data = HNative pid\<rparr>"

definition systemd_unit :: "daemon_handle \<Rightarrow> string option" where
  "systemd_unit h = (case dh_data h of HSystemd u \<Rightarrow> Some u | _ \<Rightarrow> None)"

definition launchd_label :: "daemon_handle \<Rightarrow> string option" where
  "launchd_label h = (case dh_data h of HLaunchd l \<Rightarrow> Some l | _ \<Rightarrow> None)"

definition container_id :: "daemon_handle \<Rightarrow> string option" where
  "container_id h = (case dh_data h of HContainer _ c \<Rightarrow> Some c | _ \<Rightarrow> None)"

definition handle_pid :: "daemon_handle \<Rightarrow> u32 option" where
  "handle_pid h = (case dh_data h of HWos pid \<Rightarrow> Some pid | HNative pid \<Rightarrow> Some pid | _ \<Rightarrow> None)"

definition vsock_cid :: "daemon_handle \<Rightarrow> u32 option" where
  "vsock_cid h = (case dh_data h of HPepita _ cid \<Rightarrow> Some cid | _ \<Rightarrow> None)"

definition pepita_vm_id :: "daemon_handle \<Rightarrow> string option" where
  "pepita_vm_id h = (case dh_data h of HPepita vm _ \<Rightarrow> Some vm | _ \<Rightarrow> None)"

definition show_handle :: "daemon_handle \<Rightarrow> string" where
  "show_handle h =
     (case dh_data h of
        HSystemd unit_name \<Rightarrow> ''systemd:'' @ unit_name
      | HLaunchd label \<Rightarrow> ''launchd:'' @ label
      | HContainer runtime cid \<Rightarrow> runtime @ '':'' @ cid
      | HPepita vm_id cid \<Rightarrow> ''pepita:'' @ vm_id @ ''@cid'' @ show_word cid
      | HWos pid \<Rightarrow> ''wos:pid'' @ show_word pid
      | HNative pid \<Rightarrow> ''native:pid'' @ show_word pid)"

datatype tracer_type = Ptrace | Ebpf | RemoteVsock | Simulated

record tracer_handle =
  th_daemon_id :: daemon_id
  th_type :: tracer_type

definition tracer_ptrace :: "daemon_id \<Rightarrow> tracer_handle" where
  "tracer_ptrace i = \<lparr>th_daemon_id = i, th_type = Ptrace\<rparr>"

definition tracer_ebpf :: "daemon_id \<Rightarrow> tracer_handle" where
  "tracer_ebpf i = \<lparr>th_daemon_id = i, th_type = Ebpf\<rparr>"

definition tracer_remote_vsock :: "daemon_id \<Rightarrow> tracer_handle" where
  "tracer_remote_vsock i = \<lparr>th_daemon_id = i, th_type = RemoteVsock\<rparr>"

definition tracer_simulated :: "daemon_id \<Rightarrow> tracer_handle" where
  "tracer_simulated i = \<lparr>th_daemon_id = i, th_type = Simulated\<rparr>"

section \<open>The world an adapter acts on\<close>

record cmd_output =
  out_success :: bool
  out_code :: "i32 option"
  out_stdout :: string
  out_stderr :: string

record ('s, 'w) world =
  clock :: instant
  adapter :: 's
  os :: 'w

type_synonym 'w exec = "string list \<Rightarrow> 'w \<Rightarrow> (string, cmd_output) outcome \<times> duration \<times> 'w"
type_synonym 'w sleeper = "duration \<Rightarrow> 'w \<Rightarrow> duration \<times> 'w"
type_synonym ('e, 'a, 's, 'w) eaction = "('s, 'w) world \<Rightarrow> ('e, 'a) outcome \<times> ('s, 'w) world"
type_synonym ('a, 's, 'w) action = "(platform_error, 'a, 's, 'w) eaction"

text \<open>\<open>run_command\<close> is \<open>Command::output\<close>: the first string is the program. \<open>sleep\<close> waits at least
  as long as asked; the sleeper says how much longer.\<close>

definition run_command ::
  "'w exec \<Rightarrow> string list \<Rightarrow> ('s, 'w) world \<Rightarrow> (string, cmd_output) outcome \<times> ('s, 'w) world" where
  "run_command exec cmd w =
     (case exec cmd (os w) of (r, took, o') \<Rightarrow> (r, w\<lparr>clock := clock w + took, os := o'\<rparr>))"

definition sleep :: "'w sleeper \<Rightarrow> duration \<Rightarrow> ('s, 'w) world \<Rightarrow> ('s, 'w) world" where
  "sleep slp d w = (case slp d (os w) of (extra, o') \<Rightarrow> w\<lparr>clock := clock w + d + extra, os := o'\<rparr>)"

lemma run_command_clock: "clock w \<le> clock (snd (run_command exec cmd w))"
  by (simp add: run_command_def split: prod.split)

lemma run_command_adapter [simp]: "adapter (snd (run_command exec cmd w)) = adapter w"
  by (simp add: run_command_def split: prod.split)

lemma sleep_clock: "clock w + d \<le> clock (sleep slp d w)"
  by (simp add: sleep_def split: prod.split)

lemma adapter_sleep [simp]: "adapter (sleep slp d w) = adapter w"
  by (simp add: sleep_def split: prod.split)

lemma sleep_as_tick: "(\<And>d x. snd (slp d x) = x) \<Longrightarrow> sleep slp d w = w\<lparr>clock := clock w + (d + fst (slp d (os w)))\<rparr>"
  by (cases w) (simp add: sleep_def case_prod_beta add.assoc)

section \<open>Default methods of the trait\<close>

fun stop_loop ::
  "nat \<Rightarrow> (daemon_handle \<Rightarrow> (daemon_status, 's, 'w) action) \<Rightarrow> 'w sleeper \<Rightarrow> daemon_handle
   \<Rightarrow> instant \<Rightarrow> duration \<Rightarrow> ('s, 'w) world
   \<Rightarrow> ((platform_error, unit) outcome \<times> ('s, 'w) world) option" where
  "stop_loop 0 status slp h start timeout w = None"
| "stop_loop (Suc n) status slp h start timeout w =
     (if elapsed (clock w) start < timeout then
        (case status h w of
           (Ok st, w') \<Rightarrow>
             if is_terminal st then Some (Ok (), w')
             else stop_loop n status slp h start timeout (sleep slp (from_millis 100) w')
         | (Err _, w') \<Rightarrow> stop_loop n status slp h start timeout (sleep slp (from_millis 100) w')
         | (Panic, w') \<Rightarrow> Some (Panic, w'))
      else Some (Err (PTimeout timeout), w))"

definition stop_fuel :: "duration \<Rightarrow> nat" where
  "stop_fuel timeout = timeout div from_millis 100 + 2"

definition default_stop ::
  "(daemon_handle \<Rightarrow> signal \<Rightarrow> (unit, 's, 'w) action)
   \<Rightarrow> (daemon_handle \<Rightarrow> (daemon_status, 's, 'w) action) \<Rightarrow> 'w sleeper \<Rightarrow> daemon_handle \<Rightarrow> duration
   \<Rightarrow> ('s, 'w) world \<Rightarrow> ((platform_error, unit) outcome \<times> ('s, 'w) world) option" where
  "default_stop signal status slp h timeout w =
     (case signal h Term w of
        (Ok _, w') \<Rightarrow> stop_loop (stop_fuel timeout) status slp h (clock w') timeout w'
      | (Err e, w') \<Rightarrow> Some (Err e, w')
      | (Panic, w') \<Rightarrow> Some (Panic, w'))"

definition default_kill ::
  "(daemon_handle \<Rightarrow> signal \<Rightarrow> (unit, 's, 'w) action) \<Rightarrow> daemon_handle \<Rightarrow> (unit, 's, 'w) action" where
  "default_kill signal h = signal h Kill"

definition default_pause ::
  "(daemon_handle \<Rightarrow> signal \<Rightarrow> (unit, 's, 'w) action) \<Rightarrow> daemon_handle \<Rightarrow> (unit, 's, 'w) action" where
  "default_pause signal h = signal h Stop"

definition default_resume ::
  "(daemon_handle \<Rightarrow> signal \<Rightarrow> (unit, 's, 'w) action) \<Rightarrow> daemon_handle \<Rightarrow> (unit, 's, 'w) action" where
  "default_resume signal h = signal h Cont"

section \<open>Building blocks of adapter methods\<close>

named_theorems clock_intro \<open>actions do not turn the clock back\<close>

definition act_return :: "'a \<Rightarrow> ('e, 'a, 's, 'w) eaction" where
  "act_return a w = (Ok a, w)"

definition act_fail :: "'e \<Rightarrow> ('e, 'a, 's, 'w) eaction" where
  "act_fail e w = (Err e, w)"

definition act_bind :: "('e, 'a, 's, 'w) eaction \<Rightarrow> ('a \<Rightarrow> ('e, 'b, 's, 'w) eaction) \<Rightarrow> ('e, 'b, 's, 'w) eaction" where
  "act_bind m f w = (case m w of (Ok a, w') \<Rightarrow> f a w' | (Err e, w') \<Rightarrow> (Err e, w') | (Panic, w') \<Rightarrow> (Panic, w'))"

definition require :: "'a option \<Rightarrow> 'e \<Rightarrow> ('e, 'a, 's, 'w) eaction" where
  "require x e w = (ok_or x e, w)"

definition modify_adapter :: "('s \<Rightarrow> 's) \<Rightarrow> ('e, unit, 's, 'w) eaction" where
  "modify_adapter f w = (Ok (), w\<lparr>adapter := f (adapter w)\<rparr>)"

definition read_adapter :: "('s \<Rightarrow> 'a) \<Rightarrow> ('e, 'a, 's, 'w) eaction" where
  "read_adapter f w = (Ok (f (adapter w)), w)"

text \<open>\<open>cmd.output().await.map_err(..)?\<close>; and the same followed by the check of the exit status.\<close>

definition command :: "'w exec \<Rightarrow> string list \<Rightarrow> (string \<Rightarrow> 'e) \<Rightarrow> ('e, cmd_output, 's, 'w) eaction" where
  "command exec cmd err w =
     (case run_command exec cmd w of
        (Ok out, w') \<Rightarrow> (Ok out, w')
      | (Err e, w') \<Rightarrow> (Err (err e), w')
      | (Panic, w') \<Rightarrow> (Panic, w'))"

definition checked_command ::
  "'w exec \<Rightarrow> string list \<Rightarrow> (string \<Rightarrow> 'e) \<Rightarrow> (string \<Rightarrow> 'e)
   \<Rightarrow> ('e, cmd_output, 's, 'w) eaction" where
  "checked_command exec cmd err failed =
     act_bind (command exec cmd err)
       (\<lambda>out. if out_success out then act_return out else act_fail (failed (out_stderr out)))"

text \<open>\<open>.map(|o| o.status.success()).unwrap_or(false)\<close>\<close>

definition command_succeeds :: "'w exec \<Rightarrow> string list \<Rightarrow> ('e, bool, 's, 'w) eaction" where
  "command_succeeds exec cmd w =
     (case run_command exec cmd w of
        (Ok out, w') \<Rightarrow> (Ok (out_success out), w')
      | (Err _, w') \<Rightarrow> (Ok False, w')
      | (Panic, w') \<Rightarrow> (Panic, w'))"

text \<open>\<open>cmd.output().await.ok()\<close>\<close>

definition try_command :: "'w exec \<Rightarrow> string list \<Rightarrow> ('e, cmd_output option, 's, 'w) eaction" where
  "try_command exec cmd w =
     (case run_command exec cmd w of
        (Ok out, w') \<Rightarrow> (Ok (Some out), w')
      | (Err _, w') \<Rightarrow> (Ok None, w')
      | (Panic, w') \<Rightarrow> (Panic, w'))"

text \<open>A call of the operating system that may fail, its error rendered by \<open>err\<close>; and one that cannot fail.\<close>

definition os_call ::
  "('w \<Rightarrow> ('x, 'a) outcome \<times> duration \<times> 'w) \<Rightarrow> ('x \<Rightarrow> 'e) \<Rightarrow> ('e, 'a, 's, 'w) eaction" where
  "os_call f err w =
     (case f (os w) of
        (r, took, o') \<Rightarrow>
          (case r of Ok a \<Rightarrow> Ok a | Err e \<Rightarrow> Err (err e) | Panic \<Rightarrow> Panic,
           w\<lparr>clock := clock w + took, os := o'\<rparr>))"

lemma os_call_result:
  "fst (os_call f err w) = (case fst (f (os w)) of Ok a \<Rightarrow> Ok a | Err e \<Rightarrow> Err (err e) | Panic \<Rightarrow> Panic)"
  by (simp add: os_call_def split: prod.split)

definition os_do :: "('w \<Rightarrow> 'a \<times> duration \<times> 'w) \<Rightarrow> ('e, 'a, 's, 'w) eaction" where
  "os_do f w = (case f (os w) of (a, took, o') \<Rightarrow> (Ok a, w\<lparr>clock := clock w + took, os := o'\<rparr>))"

lemmas act_simps = act_return_def act_fail_def act_bind_def require_def modify_adapter_def
  read_adapter_def

definition forward :: "('e, 'a, 's, 'w) eaction \<Rightarrow> bool" where
  "forward m \<longleftrightarrow> (\<forall>w. clock w \<le> clock (snd (m w)))"

lemma forwardD: "forward m \<Longrightarrow> clock w \<le> clock (snd (m w))"
  by (simp add: forward_def)

lemma forward_basic [clock_intro]:
  "forward (act_return a)" "forward (act_fail e)" "forward (require x e)"
  "forward (modify_adapter f)" "forward (read_adapter g)"
  by (simp_all add: forward_def act_simps)

lemma forward_bind [clock_intro]:
  assumes "forward m" "\<And>a. forward (f a)"
  shows "forward (act_bind m f)"
  unfolding forward_def
proof
  fix w
  show "clock w \<le> clock (snd (act_bind m f w))"
  proof (cases "m w")
    case (Pair r w')
    then have "clock w \<le> clock w'" using forwardD [OF assms(1), of w] by simp
    with Pair forwardD [OF assms(2), of w'] show ?thesis
      by (cases r) (auto simp: act_bind_def intro: order_trans)
  qed
qed

lemma forward_if [clock_intro]:
  "forward m \<Longrightarrow> forward n \<Longrightarrow> forward (if b then m else n)"
  by simp

lemma command_clock: "clock w \<le> clock (snd (command exec cmd err w))"
  using run_command_clock [of w exec cmd]
  by (cases "run_command exec cmd w"; cases "fst (run_command exec cmd w)") (simp_all add: command_def)

lemma command_succeeds_clock: "clock w \<le> clock (snd (command_succeeds exec cmd w))"
  using run_command_clock [of w exec cmd]
  by (cases "run_command exec cmd w"; cases "fst (run_command exec cmd w)")
    (simp_all add: command_succeeds_def)

lemma try_command_clock: "clock w \<le> clock (snd (try_command exec cmd w))"
  using run_command_clock [of w exec cmd]
  by (cases "run_command exec cmd w"; cases "fst (run_command exec cmd w)")
    (simp_all add: try_command_def)

lemma forward_command [clock_intro]:
  "forward (command exec cmd err)" "forward (command_succeeds exec cmd)" "forward (try_command exec cmd)"
  by (simp_all add: forward_def command_clock command_succeeds_clock try_command_clock)

lemma forward_checked [clock_intro]: "forward (checked_command exec cmd err failed)"
  by (simp add: checked_command_def clock_intro)

lemma forward_os [clock_intro]: "forward (os_call f err)" "forward (os_do g)"
  by (auto simp: forward_def os_call_def os_do_def split: prod.split)

lemma forward_option [clock_intro]:
  "forward m \<Longrightarrow> (\<And>a. forward (f a)) \<Longrightarrow> forward (case x of None \<Rightarrow> m | Some a \<Rightarrow> f a)"
  by (cases x) simp_all

text \<open>Actions whose results, when they give one, have a property.\<close>

named_theorems returning_intro \<open>what actions return\<close>

definition returning :: "('a \<Rightarrow> bool) \<Rightarrow> ('e, 'a, 's, 'w) eaction \<Rightarrow> bool" where
  "returning P m \<longleftrightarrow> (\<forall>w a. fst (m w) = Ok a \<longrightarrow> P a)"

lemma returningD: "returning P m \<Longrightarrow> fst (m w) = Ok a \<Longrightarrow> P a"
  by (simp add: returning_def)

lemma returning_basic [returning_intro]:
  "P a \<Longrightarrow> returning P (act_return a)" "returning P (act_fail e)"
  by (simp_all add: returning_def act_simps)

lemma returning_bind [returning_intro]:
  assumes "\<And>a. returning P (f a)"
  shows "returning P (act_bind m f)"
  unfolding returning_def
proof (intro allI impI)
  fix w b
  assume "fst (act_bind m f w) = Ok b"
  then show "P b" using returningD [OF assms]
    by (cases "m w"; cases "fst (m w)") (auto simp: act_bind_def)
qed

lemma returning_if [returning_intro]:
  "returning P m \<Longrightarrow> returning P n \<Longrightarrow> returning P (if b then m else n)"
  by simp

text \<open>Actions that leave the adapter's own state alone.\<close>

definition keeps_adapter :: "('e, 'a, 's, 'w) eaction \<Rightarrow> bool" where
  "keeps_adapter m \<longleftrightarrow> (\<forall>w. adapter (snd (m w)) = adapter w)"

lemma keeps_adapterD: "keeps_adapter m \<Longrightarrow> adapter (snd (m w)) = adapter w"
  by (simp add: keeps_adapter_def)

lemma keeps_basic [frame]:
  "keeps_adapter (act_return a)" "keeps_adapter (act_fail e)" "keeps_adapter (require x e)"
  "keeps_adapter (read_adapter g)" "keeps_adapter (os_call f err)" "keeps_adapter (os_do k)"
  "keeps_adapter (command exec cmd err')" "keeps_adapter (command_succeeds exec cmd)"
  "keeps_adapter (try_command exec cmd)"
  by (auto simp: keeps_adapter_def act_simps os_call_def os_do_def command_def command_succeeds_def try_command_def
      run_command_def
      split: prod.split outcome.split)

lemma keeps_bind [frame]:
  assumes "keeps_adapter m" "\<And>a. keeps_adapter (f a)"
  shows "keeps_adapter (act_bind m f)"
  unfolding keeps_adapter_def
proof
  fix w
  obtain r w' where m: "m w = (r, w')" by (cases "m w")
  then have "adapter w' = adapter w" using keeps_adapterD [OF assms(1), of w] by simp
  with m keeps_adapterD [OF assms(2)] show "adapter (snd (act_bind m f w)) = adapter w"
    by (cases r) (simp_all add: act_bind_def)
qed

lemma keeps_checked [frame]: "keeps_adapter (checked_command exec cmd err failed)"
  unfolding checked_command_def by (rule keeps_bind) (simp_all add: frame)

section \<open>Exit codes in JSON\<close>

text \<open>The two copies of \<open>extract_exit_code\<close> differ in their patterns only: the number after the first
  pattern that is followed by one.\<close>

definition number_char :: "char \<Rightarrow> bool" where
  "number_char c \<longleftrightarrow> is_digit c \<or> c = CHR ''-''"

fun extract_code :: "string list \<Rightarrow> string \<Rightarrow> i32 option" where
  "extract_code [] output = None"
| "extract_code (p # ps) output =
     (case find_sub p output of
        Some pos \<Rightarrow>
          (let num_str = takeWhile number_char (drop (pos + length p) output)
           in if num_str \<noteq> [] then parse_i32 num_str else extract_code ps output)
      | None \<Rightarrow> extract_code ps output)"

lemma show_i32_number_chars: "list_all number_char (show_i32 n)"
  using show_nat_digits
  by (auto simp: show_int_def number_char_def list_all_iff)

lemma show_i32_nonempty [simp]: "show_i32 n \<noteq> []"
  by (simp add: show_int_def)

lemma takeWhile_show_i32:
  "rest = [] \<or> \<not> number_char (hd rest) \<Longrightarrow> takeWhile number_char (show_i32 n @ rest) = show_i32 n"
  using show_i32_number_chars [of n]
  by (cases rest) (simp_all add: list_all_iff takeWhile_append2)

lemma extract_code_finds:
  assumes "find_sub p output = Some pos" "drop (pos + length p) output = show_i32 n @ rest"
    and "rest = [] \<or> \<not> number_char (hd rest)"
  shows "extract_code (p # ps) output = Some n"
  using assms by (simp add: takeWhile_show_i32 Let_def)

text \<open>What the answer of the loop means, whatever the adapter.\<close>

lemma stop_loop_result:
  "stop_loop n status slp h start timeout w = Some (r, w') \<Longrightarrow>
     (r = Ok () \<and> (\<exists>u st. status h u = (Ok st, w') \<and> is_terminal st))
     \<or> (r = Err (PTimeout timeout) \<and> timeout \<le> elapsed (clock w') start)
     \<or> (r = Panic \<and> (\<exists>u. status h u = (Panic, w')))"
proof (induction n arbitrary: w)
  case (Suc n)
  then show ?case by (auto split: if_splits prod.splits outcome.splits)
qed simp

text \<open>What signals and status queries keep of the adapter's state, the default \<open>stop\<close> keeps.\<close>

lemma stop_loop_keeps:
  assumes "\<And>h w. P (adapter w) \<Longrightarrow> P (adapter (snd (status h w)))"
  shows "stop_loop n status slp h start timeout w = Some (r, w') \<Longrightarrow> P (adapter w) \<Longrightarrow> P (adapter w')"
proof (induction n arbitrary: w)
  case (Suc n)
  obtain q u where q: "status h w = (q, u)" by (cases "status h w")
  then have u: "P (adapter u)" using assms [of w h] Suc.prems(2) by simp
  then have "P (adapter (sleep slp (from_millis 100) u))" by (simp add: sleep_def split: prod.split)
  with Suc q u show ?case by (cases q) (auto split: if_splits)
qed simp

lemma default_stop_keeps:
  assumes "\<And>h s w. P (adapter w) \<Longrightarrow> P (adapter (snd (signal h s w)))"
    and "\<And>h w. P (adapter w) \<Longrightarrow> P (adapter (snd (status h w)))"
    and "P (adapter w)" "default_stop signal status slp h timeout w = Some (r, w')"
  shows "P (adapter w')"
proof -
  obtain q u where q: "signal h Term w = (q, u)" by (cases "signal h Term w")
  then have u: "P (adapter u)" using assms(1) [of w h Term] assms(3) by simp
  with assms(4) q show ?thesis
    using stop_loop_keeps [where P = P and status = status, OF assms(2)]
    by (cases q) (auto simp: default_stop_def)
qed

section \<open>The contract\<close>

text \<open>Handles and errors differ between the crates, so the law itself is stated for any.\<close>

locale clocked =
  fixes signal :: "'h \<Rightarrow> signal \<Rightarrow> ('e, unit, 's, 'w) eaction"
    and status :: "'h \<Rightarrow> ('e, daemon_status, 's, 'w) eaction"
  assumes signal_clock: "clock w \<le> clock (snd (signal h s w))"
    and status_clock: "clock w \<le> clock (snd (status h w))"
begin

lemma after_status_nap: "clock w + d \<le> clock (sleep slp d (snd (status h w)))"
  using status_clock [of w h] sleep_clock [of "snd (status h w)" d slp] by linarith

end

locale adapter_clock = clocked signal status
  for signal :: "daemon_handle \<Rightarrow> signal \<Rightarrow> (unit, 's, 'w) action"
    and status :: "daemon_handle \<Rightarrow> (daemon_status, 's, 'w) action"
begin

lemma after_status_sleep:
  "clock w + from_millis 100 \<le> clock (sleep slp (from_millis 100) (snd (status h w)))"
  by (rule after_status_nap)

text \<open>Each turn takes at least a tenth of a second, so the fuel lasts.\<close>

lemma stop_loop_returns:
  "start + timeout \<le> clock w + n * from_millis 100 \<Longrightarrow>
     stop_loop (Suc n) status slp h start timeout w \<noteq> None"
proof (induction n arbitrary: w)
  case (Suc n)
  let ?w = "sleep slp (from_millis 100) (snd (status h w))"
  have "start + timeout \<le> clock ?w + n * from_millis 100"
    using Suc.prems after_status_sleep [of w slp h] by simp
  then have "stop_loop (Suc n) status slp h start timeout ?w \<noteq> None" by (rule Suc.IH)
  then show ?case
    by (subst stop_loop.simps) (auto simp del: stop_loop.simps split: prod.split outcome.split)
next
  case 0
  then have "\<not> elapsed (clock w) start < timeout" by simp
  then show ?case by simp
qed

lemma stop_returns: "default_stop signal status slp h timeout w \<noteq> None"
proof -
  have "timeout \<le> Suc (timeout div from_millis 100) * from_millis 100"
    using dividend_less_div_times [of "from_millis 100" timeout] by simp
  then have "stop_loop (stop_fuel timeout) status slp h (clock w') timeout w' \<noteq> None" for w'
    using stop_loop_returns [of "clock w'" timeout w' "Suc (timeout div from_millis 100)"]
    by (simp add: stop_fuel_def del: stop_loop.simps)
  then show ?thesis by (simp add: default_stop_def split: prod.split outcome.split)
qed

lemma stop_loop_clock:
  "stop_loop n status slp h start timeout w = Some (r, w') \<Longrightarrow> clock w \<le> clock w'"
proof (induction n arbitrary: w)
  case (Suc n)
  let ?w = "snd (status h w)"
  have forth: "clock w \<le> clock ?w" "clock w \<le> clock (sleep slp (from_millis 100) ?w)"
    using status_clock [of w h] after_status_sleep [of w slp h] by simp_all
  show ?case
  proof (cases "elapsed (clock w) start < timeout")
    case True
    with Suc.prems forth Suc.IH [of "sleep slp (from_millis 100) ?w"] show ?thesis
      by (cases "status h w"; cases "fst (status h w)") (auto split: if_splits)
  qed (use Suc.prems in simp)
qed simp

lemma stop_spec:
  "\<exists>r w'. default_stop signal status slp h timeout w = Some (r, w')
     \<and> ((r = Ok () \<and> (\<exists>u st. status h u = (Ok st, w') \<and> is_terminal st))
        \<or> (r = Err (PTimeout timeout) \<and> clock w + timeout \<le> clock w')
        \<or> (\<exists>e. r = Err e \<and> signal h Term w = (Err e, w'))
        \<or> r = Panic)"
proof -
  obtain r w' where rw: "default_stop signal status slp h timeout w = Some (r, w')"
    using stop_returns by fast
  obtain q u where q: "signal h Term w = (q, u)" by (cases "signal h Term w")
  then have u: "clock w \<le> clock u" using signal_clock [of w h Term] by simp
  show ?thesis
  proof (cases q)
    case (Ok x)
    with rw q have loop: "stop_loop (stop_fuel timeout) status slp h (clock u) timeout u = Some (r, w')"
      by (simp add: default_stop_def)
    have "clock u \<le> clock w'" using loop by (rule stop_loop_clock)
    with stop_loop_result [OF loop] u rw show ?thesis by auto
  next
    case (Err e)
    with rw q show ?thesis by (auto simp: default_stop_def)
  next
    case Panic
    with rw q show ?thesis by (auto simp: default_stop_def)
  qed
qed

end

end

