(* ===== verification/Adapter_Systemd.thy ===== *)
theory Adapter_Systemd
  imports Core_Adapter
begin

text \<open>
  The systemd adapter, \<open>crates/duende-core/src/adapters/systemd.rs\<close>: daemons as transient units, driven through
  \<open>systemd-run\<close> and \<open>systemctl\<close>. The adapter itself only holds its settings, so its methods take them as
  an argument and the world's adapter state is left open.
\<close>

record systemd_adapter =
  sd_unit_dir :: string
  sd_user_mode :: bool

text \<open>\<open>config_dir\<close> is what the \<open>dirs_next\<close> crate answers.\<close>

definition systemd_user :: "string option \<Rightarrow> systemd_adapter" where
  "systemd_user config_dir =
     \<lparr>sd_unit_dir = (case config_dir of Some p \<Rightarrow> path_join p ''systemd/user'' | None \<Rightarrow> ''~/.config/systemd/user''),
      sd_user_mode = True\<rparr>"

definition systemd_new :: "string option \<Rightarrow> systemd_adapter" where
  "systemd_new config_dir = systemd_user config_dir"

definition systemd_system :: systemd_adapter where
  "systemd_system = \<lparr>sd_unit_dir = ''/etc/systemd/system'', sd_user_mode = False\<rparr>"

definition sd_unit_name :: "string \<Rightarrow> string" where
  "sd_unit_name daemon_name = ''duende-'' @ replace_char (CHR '' '') ''-'' daemon_name @ ''.service''"

definition systemctl_cmd :: "systemd_adapter \<Rightarrow> string list" where
  "systemctl_cmd a = [''systemctl''] @ (if sd_user_mode a then [''--user''] else [])"

definition systemd_run_cmd :: "systemd_adapter \<Rightarrow> string list" where
  "systemd_run_cmd a = [''systemd-run''] @ (if sd_user_mode a then [''--user''] else [])"

definition sd_parse_status :: "string \<Rightarrow> i32 \<Rightarrow> daemon_status" where
  "sd_parse_status output exit_code =
     (if exit_code = 0 \<and> contains ''Active: active (running)'' output then Running
      else if exit_code = 0 \<and> contains ''Active: activating'' output then Starting
      else if contains ''Active: deactivating'' output then Stopping
      else if contains ''Active: inactive'' output then Stopped
      else if contains ''Active: failed'' output then Failed (FExitCode 1)
      else Stopped)"

fun sd_signal_name :: "signal \<Rightarrow> string" where
  "sd_signal_name Term = ''SIGTERM''"
| "sd_signal_name Kill = ''SIGKILL''"
| "sd_signal_name Int' = ''SIGINT''"
| "sd_signal_name Quit = ''SIGQUIT''"
| "sd_signal_name Hup = ''SIGHUP''"
| "sd_signal_name Usr1 = ''SIGUSR1''"
| "sd_signal_name Usr2 = ''SIGUSR2''"
| "sd_signal_name Stop = ''SIGSTOP''"
| "sd_signal_name Cont = ''SIGCONT''"

section \<open>Methods\<close>

abbreviation sd_wrong_handle :: platform_error where
  "sd_wrong_handle \<equiv> PSpawnFailed ''Invalid handle type for systemd adapter''"

definition sd_spawn :: "systemd_adapter \<Rightarrow> 'w exec \<Rightarrow> daemon_id \<Rightarrow> string \<Rightarrow> (daemon_handle, 's, 'w) action" where
  "sd_spawn a exec daemon_id daemon_name =
     act_bind (checked_command exec
       (systemd_run_cmd a @
        [''--unit'', sd_unit_name daemon_name, ''--description'', ''Duende daemon: '' @ daemon_name,
         ''--remain-after-exit'', ''--collect'', ''--property=Restart=on-failure'', ''--property=RestartSec=5'',
         ''--'', ''/bin/true''])
       (\<lambda>e. PSpawnFailed (''Failed to execute systemd-run: '' @ e))
       (\<lambda>stderr. PSpawnFailed (''systemd-run failed: '' @ stderr)))
     (\<lambda>_. act_return (handle_systemd daemon_id (sd_unit_name daemon_name)))"

definition sd_signal :: "systemd_adapter \<Rightarrow> 'w exec \<Rightarrow> daemon_handle \<Rightarrow> signal \<Rightarrow> (unit, 's, 'w) action" where
  "sd_signal a exec h sig =
     act_bind (require (systemd_unit h) sd_wrong_handle) (\<lambda>unit_name.
     act_bind (checked_command exec (systemctl_cmd a @ [''kill'', ''--signal'', sd_signal_name sig, unit_name])
       (\<lambda>e. PSpawnFailed (''Failed to execute systemctl kill: '' @ e))
       (\<lambda>stderr. PSpawnFailed (''systemctl kill failed: '' @ stderr))) (\<lambda>_. act_return ()))"

definition sd_status :: "systemd_adapter \<Rightarrow> 'w exec \<Rightarrow> daemon_handle \<Rightarrow> (daemon_status, 's, 'w) action" where
  "sd_status a exec h =
     act_bind (require (systemd_unit h) sd_wrong_handle) (\<lambda>unit_name.
     act_bind (command exec (systemctl_cmd a @ [''status'', unit_name])
       (\<lambda>e. PSpawnFailed (''Failed to execute systemctl status: '' @ e))) (\<lambda>out.
     act_return (sd_parse_status (out_stdout out) (case out_code out of Some n \<Rightarrow> n | None \<Rightarrow> 1))))"

definition sd_get_main_pid :: "systemd_adapter \<Rightarrow> 'w exec \<Rightarrow> string \<Rightarrow> (u64 option, 's, 'w) action" where
  "sd_get_main_pid a exec unit_name =
     act_bind (try_command exec (systemctl_cmd a @ [''show'', ''--property=MainPID'', ''--value'', unit_name])) (\<lambda>out.
     act_return (case out of
       Some o' \<Rightarrow> if out_success o' then parse_u64 (trim (out_stdout o')) else None
     | None \<Rightarrow> None))"

definition sd_attach_tracer :: "systemd_adapter \<Rightarrow> 'w exec \<Rightarrow> daemon_handle \<Rightarrow> (tracer_handle, 's, 'w) action" where
  "sd_attach_tracer a exec h =
     act_bind (require (systemd_unit h) sd_wrong_handle) (\<lambda>unit_name.
     act_bind (sd_get_main_pid a exec unit_name) (\<lambda>found.
     act_bind (require found (PSpawnFailed ''Cannot attach tracer: failed to get PID'')) (\<lambda>pid.
     if pid = 0 then act_fail (PSpawnFailed ''Cannot attach tracer: PID unknown'')
     else act_return (tracer_ptrace (dh_id h)))))"

definition sd_stop_unit :: "systemd_adapter \<Rightarrow> 'w exec \<Rightarrow> string \<Rightarrow> (unit, 's, 'w) action" where
  "sd_stop_unit a exec unit_name =
     act_bind (checked_command exec (systemctl_cmd a @ [''stop'', unit_name])
       (\<lambda>e. PSpawnFailed (''Failed to execute systemctl stop: '' @ e))
       (\<lambda>stderr. PSpawnFailed (''systemctl stop failed: '' @ stderr))) (\<lambda>_. act_return ())"

definition sd_reset_failed :: "systemd_adapter \<Rightarrow> 'w exec \<Rightarrow> string \<Rightarrow> (unit, 's, 'w) action" where
  "sd_reset_failed a exec unit_name =
     act_bind (try_command exec (systemctl_cmd a @ [''reset-failed'', unit_name])) (\<lambda>_. act_return ())"

section \<open>The contract of stop\<close>

lemma forward_sd_signal: "forward (sd_signal a exec h sig)"
  unfolding sd_signal_def by (intro clock_intro)

lemma forward_sd_status: "forward (sd_status a exec h)"
  unfolding sd_status_def by (intro clock_intro)

interpretation systemd: adapter_clock "sd_signal a exec" "sd_status a exec"
  by unfold_locales (simp_all add: forwardD forward_sd_signal forward_sd_status)

section \<open>Properties\<close>

lemma active_key:
  assumes "\<not> contains ''Active: '' pre" "\<not> contains ''Active: '' st"
  shows "contains (''Active: '' @ t) (pre @ ''Active: '' @ st) \<longleftrightarrow> prefix t st"
  using assms by (intro contains_after_key [of _ "CHR ''A''"]) auto

text \<open>When \<open>systemctl status\<close> prints one \<open>Active:\<close> line, the status is read off that line, wherever it stands:
  running and starting only with exit code 0, stopping, inactive and failed with any, and everything else,
  such as a unit that is activating while \<open>systemctl\<close> answers 3, counts as stopped.\<close>

theorem systemd_status_of_active_line:
  assumes "\<not> contains ''Active: '' pre" and "\<not> contains ''Active: '' st"
  shows "sd_parse_status (pre @ ''Active: '' @ st) code =
    (if code = 0 \<and> prefix ''active (running)'' st then Running
     else if code = 0 \<and> prefix ''activating'' st then Starting
     else if prefix ''deactivating'' st then Stopping
     else if prefix ''failed'' st then Failed (FExitCode 1)
     else Stopped)"
proof -
  note key = active_key [OF assms]
  have "prefix ''failed'' st \<Longrightarrow> \<not> prefix ''inactive'' st" by (auto simp: prefix_def)
  then show ?thesis
    using key [of "''active (running)''"] key [of "''activating''"] key [of "''deactivating''"]
      key [of "''inactive''"] key [of "''failed''"]
    by (simp add: sd_parse_status_def)
qed

theorem systemd_status_of_active_line_witness:
  "sd_parse_status (''x.service
     Active: activating (auto-restart)'') 3 = Stopped"
  using systemd_status_of_active_line [of "''x.service
     ''" "''activating (auto-restart)''" 3]
  by (simp add: contains_def)

end
