(* ===== verification/Adapter_Launchd.thy ===== *)
theory Adapter_Launchd
  imports Core_Adapter
begin

text \<open>
  The launchd adapter, \<open>crates/duende-core/src/adapters/launchd.rs\<close> (compiled on macOS only): daemons as launchd
  services, each with a plist file, driven through \<open>launchctl\<close>. Like the systemd adapter it holds settings only.
  Writing, creating and removing files is \<open>plist_fs\<close>; the user id is an argument.
\<close>

datatype launchd_domain = User | System

record launchd_adapter =
  ld_plist_dir :: string
  ld_domain :: launchd_domain

record 'w plist_fs =
  pf_create_dir_all :: "string \<Rightarrow> 'w \<Rightarrow> (string, unit) outcome \<times> duration \<times> 'w"
  pf_write :: "string \<Rightarrow> string \<Rightarrow> 'w \<Rightarrow> (string, unit) outcome \<times> duration \<times> 'w"
  pf_remove :: "string \<Rightarrow> 'w \<Rightarrow> unit \<times> duration \<times> 'w"

definition launchd_user :: "string option \<Rightarrow> launchd_adapter" where
  "launchd_user home_dir =
     \<lparr>ld_plist_dir = (case home_dir of Some p \<Rightarrow> path_join p ''Library/LaunchAgents'' | None \<Rightarrow> ''~/Library/LaunchAgents''),
      ld_domain = User\<rparr>"

definition launchd_system :: launchd_adapter where
  "launchd_system = \<lparr>ld_plist_dir = ''/Library/LaunchDaemons'', ld_domain = System\<rparr>"

definition ld_target :: "u32 \<Rightarrow> launchd_domain \<Rightarrow> string" where
  "ld_target uid d = (case d of User \<Rightarrow> ''gui/'' @ show_word uid | System \<Rightarrow> ''system'')"

definition ld_service_label :: "string \<Rightarrow> string" where
  "ld_service_label daemon_name =
     ''com.duende.'' @ replace_char (CHR ''_'') ''-'' (replace_char (CHR '' '') ''-'' daemon_name)"

definition ld_plist_path :: "launchd_adapter \<Rightarrow> string \<Rightarrow> string" where
  "ld_plist_path a label = path_join (ld_plist_dir a) (label @ ''.plist'')"

definition ld_generate_plist :: "string \<Rightarrow> string \<Rightarrow> string \<Rightarrow> string" where
  "ld_generate_plist label daemon_name program =
''<?xml version=\"1.0\" encoding=\"UTF-8\"?>
<!DOCTYPE plist PUBLIC \"-//Apple//DTD PLIST 1.0//EN\" \"http://www.apple.com/DTDs/PropertyList-1.0.dtd\">
<plist version=\"1.0\">
<dict>
    <key>Label</key>
    <string>'' @ label @ ''</string>
    <key>ProgramArguments</key>
    <array>
        <string>'' @ program @ ''</string>
    </array>
    <key>RunAtLoad</key>
    <true/>
    <key>KeepAlive</key>
    <dict>
        <key>SuccessfulExit</key>
        <false/>
    </dict>
    <key>ThrottleInterval</key>
    <integer>5</integer>
    <key>StandardOutPath</key>
    <string>/tmp/duende-'' @ daemon_name @ ''.out.log</string>
    <key>StandardErrorPath</key>
    <string>/tmp/duende-'' @ daemon_name @ ''.err.log</string>
</dict>
</plist>
''"

fun ld_status_of_lines :: "string list \<Rightarrow> string \<Rightarrow> daemon_status" where
  "ld_status_of_lines [] label = Stopped"
| "ld_status_of_lines (line # rest) label =
     (if contains label line then
        (let parts = split_char (CHR 0x09) line in
         if 2 \<le> length parts then
           (if trim (parts ! 0) \<noteq> ''-'' then Running
            else (case parse_i32 (trim (parts ! 1)) of
                Some code \<Rightarrow> if code \<noteq> 0 then Failed (FExitCode code) else Stopped
              | None \<Rightarrow> Stopped))
         else ld_status_of_lines rest label)
      else ld_status_of_lines rest label)"

definition ld_parse_status :: "string \<Rightarrow> string \<Rightarrow> daemon_status" where
  "ld_parse_status output label = ld_status_of_lines (lines output) label"

fun ld_signal_number :: "signal \<Rightarrow> i32" where
  "ld_signal_number Term = 15"
| "ld_signal_number Kill = 9"
| "ld_signal_number Int' = 2"
| "ld_signal_number Quit = 3"
| "ld_signal_number Hup = 1"
| "ld_signal_number Usr1 = 30"
| "ld_signal_number Usr2 = 31"
| "ld_signal_number Stop = 17"
| "ld_signal_number Cont = 19"

section \<open>Methods\<close>

abbreviation ld_wrong_handle :: platform_error where
  "ld_wrong_handle \<equiv> PSpawnFailed ''Invalid handle type for launchd adapter''"

definition ld_spawn ::
  "launchd_adapter \<Rightarrow> u32 \<Rightarrow> 'w plist_fs \<Rightarrow> 'w exec \<Rightarrow> daemon_id \<Rightarrow> string \<Rightarrow> (daemon_handle, 's, 'w) action" where
  "ld_spawn a uid fs exec daemon_id daemon_name =
     (let label = ld_service_label daemon_name; path = ld_plist_path a label in
      act_bind (os_call (pf_create_dir_all fs (ld_plist_dir a))
        (\<lambda>e. PSpawnFailed (''Failed to create plist directory: '' @ e))) (\<lambda>_.
      act_bind (os_call (pf_write fs path (ld_generate_plist label daemon_name ''/usr/bin/true''))
        (\<lambda>e. PSpawnFailed (''Failed to write plist file: '' @ e))) (\<lambda>_.
      act_bind (command exec [''launchctl'', ''bootstrap'', ld_target uid (ld_domain a), path]
        (\<lambda>e. PSpawnFailed (''Failed to execute launchctl: '' @ e))) (\<lambda>out.
      if \<not> out_success out then
        act_bind (os_do (pf_remove fs path))
          (\<lambda>_. act_fail (PSpawnFailed (''launchctl bootstrap failed: '' @ out_stderr out)))
      else act_return (handle_launchd daemon_id label)))))"

definition ld_signal :: "launchd_adapter \<Rightarrow> u32 \<Rightarrow> 'w exec \<Rightarrow> daemon_handle \<Rightarrow> signal \<Rightarrow> (unit, 's, 'w) action" where
  "ld_signal a uid exec h sig =
     act_bind (require (launchd_label h) ld_wrong_handle) (\<lambda>label.
     act_bind (checked_command exec
       [''launchctl'', ''kill'', show_i32 (ld_signal_number sig), ld_target uid (ld_domain a) @ ''/'' @ label]
       (\<lambda>e. PSignalFailed (''Failed to execute launchctl: '' @ e))
       (\<lambda>stderr. PSignalFailed (''launchctl kill failed: '' @ stderr))) (\<lambda>_. act_return ()))"

definition ld_status :: "'w exec \<Rightarrow> daemon_handle \<Rightarrow> (daemon_status, 's, 'w) action" where
  "ld_status exec h =
     act_bind (require (launchd_label h) ld_wrong_handle) (\<lambda>label.
     act_bind (command exec [''launchctl'', ''list''] (\<lambda>e. PStatusFailed (''Failed to execute launchctl: '' @ e))) (\<lambda>out.
     act_return (ld_parse_status (out_stdout out) label)))"

definition ld_listed_pid :: "string \<Rightarrow> u32 option" where
  "ld_listed_pid stdout =
     (case find (contains ''PID'') (lines stdout) of
        Some line \<Rightarrow>
          (if split_whitespace line = [] then None else parse_u32 (last (split_whitespace line)))
      | None \<Rightarrow> None)"

definition ld_attach_tracer :: "'w exec \<Rightarrow> daemon_handle \<Rightarrow> (tracer_handle, 's, 'w) action" where
  "ld_attach_tracer exec h =
     act_bind (require (launchd_label h) ld_wrong_handle) (\<lambda>label.
     act_bind (command exec [''launchctl'', ''list'', label] (\<lambda>e. PTracerFailed (''Failed to get PID: '' @ e))) (\<lambda>out.
     if \<not> out_success out then act_fail (PTracerFailed ''Service not found'')
     else
       act_bind (require (ld_listed_pid (out_stdout out)) (PTracerFailed ''Could not determine PID'')) (\<lambda>pid.
       if pid = 0 then act_fail (PTracerFailed ''Service not running'') else act_return (tracer_ptrace (dh_id h)))))"

definition ld_stop_and_unload :: "launchd_adapter \<Rightarrow> u32 \<Rightarrow> 'w plist_fs \<Rightarrow> 'w exec \<Rightarrow> string \<Rightarrow> (unit, 's, 'w) action" where
  "ld_stop_and_unload a uid fs exec label =
     act_bind (command exec [''launchctl'', ''bootout'', ld_target uid (ld_domain a) @ ''/'' @ label]
       (\<lambda>e. PSpawnFailed (''Failed to execute launchctl: '' @ e))) (\<lambda>_.
     act_bind (os_do (pf_remove fs (ld_plist_path a label))) (\<lambda>_. act_return ()))"

section \<open>The contract of stop\<close>

lemma forward_ld_signal: "forward (ld_signal a uid exec h sig)"
  unfolding ld_signal_def by (intro clock_intro)

lemma forward_ld_status: "forward (ld_status exec h)"
  unfolding ld_status_def by (intro clock_intro)

interpretation launchd: adapter_clock "ld_signal a uid exec" "ld_status exec"
  by unfold_locales (simp_all add: forwardD forward_ld_signal forward_ld_status)

section \<open>Labels\<close>

text \<open>A line of the list belongs to every label it contains, so the status asked for may be that of another service
  whose label is longer: here \<open>com.duende.web\<close> has failed, but the answer is that \<open>com.duende.web2\<close> runs.\<close>

theorem launchd_takes_longer_label:
  "ld_parse_status (''417'' @ [CHR 0x09] @ ''0'' @ [CHR 0x09] @ ''com.duende.web2'' @ [CHR 0x0A] @
      ''-'' @ [CHR 0x09] @ ''78'' @ [CHR 0x09] @ ''com.duende.web'' @ [CHR 0x0A]) ''com.duende.web'' = Running"
proof -
  let ?tab = "CHR 0x09"
  let ?first = "''417'' @ [?tab] @ ''0'' @ [?tab] @ ''com.duende.web2''"
  let ?second = "''-'' @ [?tab] @ ''78'' @ [?tab] @ ''com.duende.web''"
  have "lines (''417'' @ [?tab] @ ''0'' @ [?tab] @ ''com.duende.web2'' @ [CHR 0x0A] @
      ''-'' @ [?tab] @ ''78'' @ [?tab] @ ''com.duende.web'' @ [CHR 0x0A]) = [?first, ?second]"
    by (simp add: lines_def)
  moreover have "contains ''com.duende.web'' ?first" by (simp add: contains_def)
  moreover have "trim ''417'' = ''417''"
    using trim_eq [of "[]" "''417''"] by (simp add: graphic_def)
  ultimately show ?thesis by (simp add: ld_parse_status_def Let_def)
qed

end
