(* ===== verification/Adapter_Container.thy ===== *)
theory Adapter_Container
  imports Core_Adapter
begin

text \<open>
  The container adapter, \<open>crates/duende-core/src/adapters/container.rs\<close>: daemons as containers of docker, podman
  or containerd, driven through their command lines. Like the systemd adapter it holds settings only.
\<close>

datatype container_runtime = Docker | Podman | Containerd

fun runtime_command :: "container_runtime \<Rightarrow> string" where
  "runtime_command Docker = ''docker''"
| "runtime_command Podman = ''podman''"
| "runtime_command Containerd = ''ctr''"

fun runtime_name :: "container_runtime \<Rightarrow> string" where
  "runtime_name Docker = ''docker''"
| "runtime_name Podman = ''podman''"
| "runtime_name Containerd = ''containerd''"

record container_adapter =
  ct_runtime :: container_runtime
  ct_default_image :: string

definition container_docker :: container_adapter where
  "container_docker = \<lparr>ct_runtime = Docker, ct_default_image = ''alpine:latest''\<rparr>"

definition container_podman :: container_adapter where
  "container_podman = \<lparr>ct_runtime = Podman, ct_default_image = ''alpine:latest''\<rparr>"

definition container_containerd :: container_adapter where
  "container_containerd = \<lparr>ct_runtime = Containerd, ct_default_image = ''docker.io/library/alpine:latest''\<rparr>"

definition container_with_config :: "container_runtime \<Rightarrow> string \<Rightarrow> container_adapter" where
  "container_with_config runtime default_image = \<lparr>ct_runtime = runtime, ct_default_image = default_image\<rparr>"

definition ct_container_name :: "string \<Rightarrow> string" where
  "ct_container_name daemon_name =
     ''duende-'' @ replace_char (CHR ''_'') ''-'' (replace_char (CHR '' '') ''-'' daemon_name)"

fun ct_signal_name :: "signal \<Rightarrow> string" where
  "ct_signal_name Term = ''SIGTERM''"
| "ct_signal_name Kill = ''SIGKILL''"
| "ct_signal_name Int' = ''SIGINT''"
| "ct_signal_name Quit = ''SIGQUIT''"
| "ct_signal_name Hup = ''SIGHUP''"
| "ct_signal_name Usr1 = ''SIGUSR1''"
| "ct_signal_name Usr2 = ''SIGUSR2''"
| "ct_signal_name Stop = ''SIGSTOP''"
| "ct_signal_name Cont = ''SIGCONT''"

definition ct_extract_exit_code :: "string \<Rightarrow> i32 option" where
  "ct_extract_exit_code = extract_code [''\"ExitCode\": '', ''\"ExitCode\":'']"

definition ct_parse_status :: "string \<Rightarrow> daemon_status" where
  "ct_parse_status output =
     (if contains ''\"Running\": true'' output \<or> contains ''\"running\": true'' output then Running
      else if contains ''\"Restarting\": true'' output \<or> contains ''\"restarting\": true'' output then Starting
      else if contains ''\"Paused\": true'' output \<or> contains ''\"paused\": true'' output then Paused
      else (case ct_extract_exit_code output of
          Some code \<Rightarrow> if code \<noteq> 0 then Failed (FExitCode code) else Stopped
        | None \<Rightarrow> Stopped))"

section \<open>Methods\<close>

abbreviation ct_wrong_handle :: platform_error where
  "ct_wrong_handle \<equiv> PSpawnFailed ''Invalid handle type for container adapter''"

definition ct_get_container_id :: "container_adapter \<Rightarrow> 'w exec \<Rightarrow> string \<Rightarrow> (string option, 's, 'w) action" where
  "ct_get_container_id a exec name =
     act_bind (try_command exec
       [runtime_command (ct_runtime a), ''ps'', ''-aq'', ''--filter'', ''name=^'' @ name @ ''$'']) (\<lambda>out.
     act_return (case out of
       Some o' \<Rightarrow>
         if out_success o' \<and> trim (out_stdout o') \<noteq> [] then Some (trim (out_stdout o')) else None
     | None \<Rightarrow> None))"

definition ct_run_args :: "container_adapter \<Rightarrow> string \<Rightarrow> string list" where
  "ct_run_args a name =
     (case ct_runtime a of
        Containerd \<Rightarrow>
          [''run'', ''-d'', ct_default_image a, name, ''/bin/sh'', ''-c'', ''while true; do sleep 1; done'']
      | _ \<Rightarrow>
          [''run'', ''-d'', ''--name'', name, ''--restart'', ''on-failure:5'', ct_default_image a, ''/bin/sh'', ''-c'',
           ''while true; do sleep 1; done''])"

definition ct_spawn :: "container_adapter \<Rightarrow> 'w exec \<Rightarrow> daemon_id \<Rightarrow> string \<Rightarrow> (daemon_handle, 's, 'w) action" where
  "ct_spawn a exec daemon_id daemon_name =
     (let container_name = ct_container_name daemon_name; cli = runtime_command (ct_runtime a) in
      act_bind (checked_command exec (cli # ct_run_args a container_name)
        (\<lambda>e. PSpawnFailed (''Failed to execute '' @ cli @ '': '' @ e))
        (\<lambda>stderr. PSpawnFailed (cli @ '' run failed: '' @ stderr))) (\<lambda>out.
      act_bind
        (if trim (out_stdout out) = [] then
           act_bind (ct_get_container_id a exec container_name)
             (\<lambda>found. act_return (case found of Some i \<Rightarrow> i | None \<Rightarrow> container_name))
         else act_return (trim (out_stdout out))) (\<lambda>cid.
      act_return (handle_container daemon_id (runtime_name (ct_runtime a)) cid))))"

definition ct_signal :: "container_adapter \<Rightarrow> 'w exec \<Rightarrow> daemon_handle \<Rightarrow> signal \<Rightarrow> (unit, 's, 'w) action" where
  "ct_signal a exec h sig =
     (let cli = runtime_command (ct_runtime a) in
      act_bind (require (container_id h) ct_wrong_handle) (\<lambda>cid.
      act_bind (checked_command exec
        (cli # (case ct_runtime a of Containerd \<Rightarrow> [''task''] | _ \<Rightarrow> [])
         @ [''kill'', ''--signal'', ct_signal_name sig, cid])
        (\<lambda>e. PSignalFailed (''Failed to execute '' @ cli @ '': '' @ e))
        (\<lambda>stderr. PSignalFailed (cli @ '' kill failed: '' @ stderr))) (\<lambda>_. act_return ())))"

definition ct_status :: "container_adapter \<Rightarrow> 'w exec \<Rightarrow> daemon_handle \<Rightarrow> (daemon_status, 's, 'w) action" where
  "ct_status a exec h =
     (let cli = runtime_command (ct_runtime a) in
      act_bind (require (container_id h) ct_wrong_handle) (\<lambda>cid.
      act_bind (command exec
        (cli # (case ct_runtime a of
             Containerd \<Rightarrow> [''task'', ''list'', cid]
           | _ \<Rightarrow> [''inspect'', ''--format'', ''{{json .State}}'', cid]))
        (\<lambda>e. PStatusFailed (''Failed to execute '' @ cli @ '': '' @ e))) (\<lambda>out.
      if \<not> out_success out then act_return Stopped
      else act_return (ct_parse_status (out_stdout out)))))"

definition ct_attach_tracer :: "container_adapter \<Rightarrow> 'w exec \<Rightarrow> daemon_handle \<Rightarrow> (tracer_handle, 's, 'w) action" where
  "ct_attach_tracer a exec h =
     act_bind (require (container_id h) ct_wrong_handle) (\<lambda>cid.
     if ct_runtime a = Containerd then act_fail (PTracerFailed ''containerd tracer attachment not supported'')
     else
       act_bind (command exec
         [runtime_command (ct_runtime a), ''inspect'', ''--format'', ''{{.State.Pid}}'', cid]
         (\<lambda>e. PTracerFailed (''Failed to get container PID: '' @ e))) (\<lambda>out.
       if \<not> out_success out then act_fail (PTracerFailed ''Container not found'')
       else
         act_bind (require (parse_u32 (trim (out_stdout out))) (PTracerFailed ''Invalid PID'')) (\<lambda>pid.
         if pid = 0 then act_fail (PTracerFailed ''Container not running'')
         else act_return (tracer_ptrace (dh_id h)))))"

definition ct_remove :: "container_adapter \<Rightarrow> 'w exec \<Rightarrow> string \<Rightarrow> bool \<Rightarrow> (unit, 's, 'w) action" where
  "ct_remove a exec cid force =
     act_bind (checked_command exec
       (runtime_command (ct_runtime a) # (case ct_runtime a of Containerd \<Rightarrow> [''container''] | _ \<Rightarrow> [])
        @ [''rm''] @ (if force then [''-f''] else []) @ [cid])
       (\<lambda>e. PSpawnFailed (''Failed to remove container: '' @ e))
       (\<lambda>stderr. PSpawnFailed (''Failed to remove container: '' @ stderr))) (\<lambda>_. act_return ())"

definition ct_is_available :: "container_adapter \<Rightarrow> 'w exec \<Rightarrow> (bool, 's, 'w) action" where
  "ct_is_available a exec = command_succeeds exec [runtime_command (ct_runtime a), ''--version'']"

section \<open>The contract of stop\<close>

lemma forward_ct_signal: "forward (ct_signal a exec h sig)"
  unfolding ct_signal_def Let_def by (intro clock_intro)

lemma forward_ct_status: "forward (ct_status a exec h)"
  unfolding ct_status_def Let_def by (intro clock_intro)

interpretation container: adapter_clock "ct_signal a exec" "ct_status a exec"
  by unfold_locales (simp_all add: forwardD forward_ct_signal forward_ct_status)

section \<open>Properties\<close>

lemma space_in_pattern: "contains p s \<Longrightarrow> CHR '' '' \<in> set p \<Longrightarrow> CHR '' '' \<in> set s"
  by (auto simp: contains_iff)

text \<open>The patterns for a live container have a space after the colon. On JSON without spaces, as
  \<open>docker inspect --format '{{json .State}}'\<close> prints it, no container is ever running, starting or paused:
  the status is made of the exit code alone, so a running one counts as stopped and \<open>stop\<close> believes its
  first query.\<close>

theorem compact_json_is_never_running:
  assumes "CHR '' '' \<notin> set json"
  shows "ct_parse_status json =
     (case ct_extract_exit_code json of
        Some code \<Rightarrow> if code = 0 then Stopped else Failed (FExitCode code) | None \<Rightarrow> Stopped)
   \<and> is_terminal (ct_parse_status json)"
proof -
  have "\<not> contains p json" if "CHR '' '' \<in> set p" for p
    using space_in_pattern that assms by blast
  then have "ct_parse_status json =
     (case ct_extract_exit_code json of
        Some code \<Rightarrow> if code = 0 then Stopped else Failed (FExitCode code) | None \<Rightarrow> Stopped)"
    by (simp add: ct_parse_status_def split: option.split)
  then show ?thesis by (simp split: option.split)
qed

theorem compact_json_is_never_running_witness:
  "ct_parse_status ''{\"Status\":\"running\",\"Running\":true,\"ExitCode\":0}'' = Stopped"
proof -
  let ?json = "''{\"Status\":\"running\",\"Running\":true,\"ExitCode\":0}''"
  have "ct_extract_exit_code ?json = Some 0"
    by (simp add: ct_extract_exit_code_def Let_def number_char_def is_digit_def parse_signed_def parse_digits_def
        digits_val_def digit_val_def)
  with compact_json_is_never_running [of ?json] show ?thesis by simp
qed

end
