(* ===== verification/Adapter_Pepita.thy ===== *)
theory Adapter_Pepita
  imports Core_Adapter
begin

text \<open>
  The pepita adapter, \<open>crates/duende-core/src/adapters/pepita.rs\<close>: daemons in micro VMs, driven through the
  \<open>pepita\<close> command line and recorded in a map by daemon id. \<open>NEXT_CID\<close>, a static of the program, is part of
  the adapter state.
\<close>

datatype vm_state = VStarting | VRunning | VPaused | VStopped | VFailed

record vm_info =
  vi_vm_id :: string
  vi_vsock_cid :: u32
  vi_vmm_pid :: "u32 option"
  vi_state :: vm_state

record pepita_adapter =
  pp_vsock_base_port :: u32
  pp_vms :: "daemon_id \<rightharpoonup> vm_info"
  pp_default_kernel :: "string option"
  pp_default_rootfs :: "string option"
  pp_next_cid :: u32

type_synonym ('a, 'w) pepita_action = "('a, pepita_adapter, 'w) action"

definition pepita_with_vsock_port :: "u32 \<Rightarrow> u32 \<Rightarrow> pepita_adapter" where
  "pepita_with_vsock_port port next_cid =
     \<lparr>pp_vsock_base_port = port, pp_vms = (\<lambda>_. None), pp_default_kernel = None, pp_default_rootfs = None,
      pp_next_cid = next_cid\<rparr>"

definition pepita_new :: "u32 \<Rightarrow> pepita_adapter" where
  "pepita_new next_cid =
     \<lparr>pp_vsock_base_port = 5000, pp_vms = (\<lambda>_. None), pp_default_kernel = None, pp_default_rootfs = None,
      pp_next_cid = next_cid\<rparr>"

definition pepita_with_images :: "string \<Rightarrow> string \<Rightarrow> u32 \<Rightarrow> pepita_adapter" where
  "pepita_with_images kpath rootfs next_cid =
     \<lparr>pp_vsock_base_port = 5000, pp_vms = (\<lambda>_. None), pp_default_kernel = Some kpath,
      pp_default_rootfs = Some rootfs, pp_next_cid = next_cid\<rparr>"

definition allocate_cid :: "(u32, 'w) pepita_action" where
  "allocate_cid w = (Ok (pp_next_cid (adapter w)),
     w\<lparr>adapter := (adapter w)\<lparr>pp_next_cid := pp_next_cid (adapter w) + 1\<rparr>\<rparr>)"

definition pp_vm_id :: "string \<Rightarrow> string" where
  "pp_vm_id daemon_name =
     ''duende-vm-'' @ replace_char (CHR ''_'') ''-'' (replace_char (CHR '' '') ''-'' daemon_name)"

definition pepita_available :: "'w exec \<Rightarrow> (bool, 'w) pepita_action" where
  "pepita_available exec = command_succeeds exec [''pepita'', ''--version'']"

fun pp_signal_number :: "signal \<Rightarrow> i32" where
  "pp_signal_number Term = 15"
| "pp_signal_number Kill = 9"
| "pp_signal_number Int' = 2"
| "pp_signal_number Quit = 3"
| "pp_signal_number Hup = 1"
| "pp_signal_number Usr1 = 10"
| "pp_signal_number Usr2 = 12"
| "pp_signal_number Stop = 19"
| "pp_signal_number Cont = 18"

section \<open>Methods\<close>

abbreviation pp_wrong_handle :: platform_error where
  "pp_wrong_handle \<equiv> PSpawnFailed ''Invalid handle type for pepita adapter''"

text \<open>\<open>kvm\<close>: whether \<open>/dev/kvm\<close> exists.\<close>

definition pp_spawn :: "bool \<Rightarrow> 'w exec \<Rightarrow> daemon_id \<Rightarrow> string \<Rightarrow> (daemon_handle, 'w) pepita_action" where
  "pp_spawn kvm exec daemon_id daemon_name =
     (if \<not> kvm then act_fail (PSpawnFailed (''KVM not available: /dev/kvm not found. ''
          @ ''Ensure KVM is enabled and you have permissions.''))
      else
        act_bind (pepita_available exec) (\<lambda>installed.
        if \<not> installed then act_fail (PSpawnFailed ''pepita VMM not found. Install pepita or add it to PATH.'')
        else
          act_bind (read_adapter pp_default_kernel) (\<lambda>kernel_option.
          act_bind (require kernel_option
            (PConfig ''No kernel image configured. Use with_images() to set kernel path.'')) (\<lambda>kpath.
          act_bind (read_adapter pp_default_rootfs) (\<lambda>rootfs_option.
          act_bind (require rootfs_option
            (PConfig ''No rootfs image configured. Use with_images() to set rootfs path.'')) (\<lambda>rootfs.
          act_bind allocate_cid (\<lambda>cid.
          act_bind (checked_command exec
            [''pepita'', ''run'', ''--kernel'', kpath, ''--rootfs'', rootfs, ''--vsock-cid'', show_word cid,
             ''--memory'', ''256'', ''--cpus'', ''1'', ''--name'', pp_vm_id daemon_name, ''--daemon'']
            (\<lambda>e. PSpawnFailed (''Failed to execute pepita: '' @ e))
            (\<lambda>stderr. PSpawnFailed (''pepita run failed: '' @ stderr))) (\<lambda>_.
          act_bind (modify_adapter (\<lambda>a. a\<lparr>pp_vms := (pp_vms a)
            (daemon_id \<mapsto> \<lparr>vi_vm_id = pp_vm_id daemon_name, vi_vsock_cid = cid, vi_vmm_pid = None,
                           vi_state = VRunning\<rparr>)\<rparr>)) (\<lambda>_.
          act_return (handle_pepita daemon_id (pp_vm_id daemon_name) cid))))))))))"

definition pp_signal :: "'w exec \<Rightarrow> daemon_handle \<Rightarrow> signal \<Rightarrow> (unit, 'w) pepita_action" where
  "pp_signal exec h sig =
     (case (pepita_vm_id h, vsock_cid h) of
        (Some vm_id, Some cid) \<Rightarrow>
          act_bind (checked_command exec
            [''pepita'', ''signal'', ''--name'', vm_id, ''--signal'', show_i32 (pp_signal_number sig)]
            (\<lambda>e. PSignalFailed (''Failed to execute pepita: '' @ e))
            (\<lambda>stderr. PSignalFailed (''pepita signal failed: '' @ stderr))) (\<lambda>_.
          if sig = Term \<or> sig = Kill then
            modify_adapter (\<lambda>a. a\<lparr>pp_vms := map_adjust (dh_id h) (\<lambda>v. v\<lparr>vi_state := VStopped\<rparr>) (pp_vms a)\<rparr>)
          else act_return ())
      | _ \<Rightarrow> act_fail pp_wrong_handle)"

definition pp_parse_status :: "string \<Rightarrow> daemon_status" where
  "pp_parse_status stdout =
     (if contains ''\"state\": \"running\"'' stdout \<or> contains ''\"state\":\"running\"'' stdout then Running
      else if contains ''\"state\": \"paused\"'' stdout then Paused
      else if contains ''\"state\": \"failed\"'' stdout then Failed (FExitCode 1)
      else Stopped)"

definition pp_status :: "'w exec \<Rightarrow> daemon_handle \<Rightarrow> (daemon_status, 'w) pepita_action" where
  "pp_status exec h =
     act_bind (require (pepita_vm_id h) pp_wrong_handle) (\<lambda>vm_id.
     act_bind (command exec [''pepita'', ''status'', ''--name'', vm_id, ''--json'']
       (\<lambda>e. PStatusFailed (''Failed to execute pepita: '' @ e))) (\<lambda>out.
     if \<not> out_success out then act_return Stopped else act_return (pp_parse_status (out_stdout out))))"

definition pp_attach_tracer :: "daemon_handle \<Rightarrow> (tracer_handle, 'w) pepita_action" where
  "pp_attach_tracer h =
     act_bind (require (vsock_cid h) pp_wrong_handle) (\<lambda>cid.
     if cid = 0 then act_fail (PTracerFailed ''VM not running'') else act_return (tracer_remote_vsock (dh_id h)))"

definition pp_destroy :: "'w exec \<Rightarrow> string \<Rightarrow> (unit, 'w) pepita_action" where
  "pp_destroy exec vm_id =
     act_bind (command exec [''pepita'', ''destroy'', ''--name'', vm_id, ''--force'']
       (\<lambda>e. PSpawnFailed (''Failed to execute pepita: '' @ e))) (\<lambda>_. act_return ())"

definition pp_list_vms :: "'w exec \<Rightarrow> (string list, 'w) pepita_action" where
  "pp_list_vms exec =
     act_bind (command exec [''pepita'', ''list'', ''--format'', ''name'']
       (\<lambda>e. PSpawnFailed (''Failed to execute pepita: '' @ e))) (\<lambda>out.
     act_return (if out_success out then lines (out_stdout out) else []))"

section \<open>The contract of stop\<close>

lemma forward_allocate_cid [clock_intro]: "forward allocate_cid"
  by (simp add: forward_def allocate_cid_def)

lemma forward_pp_signal: "forward (pp_signal exec h sig)"
  unfolding pp_signal_def by (auto split: option.split intro!: clock_intro)

lemma forward_pp_status: "forward (pp_status exec h)"
  unfolding pp_status_def by (intro clock_intro)

interpretation pepita: adapter_clock "pp_signal exec" "pp_status exec"
  by unfold_locales (simp_all add: forwardD forward_pp_signal forward_pp_status)

end
