(* ===== verification/Adapter_Wos.thy ===== *)
theory Adapter_Wos
  imports Core_Adapter
begin

text \<open>
  The WOS adapter, \<open>crates/duende-core/src/adapters/wos.rs\<close>: a local process table, kept beside what
  \<open>wos-ctl\<close> reports when that tool is there. \<open>NEXT_PID\<close>, a static of the program, is part of the
  adapter state. Lower-casing is ASCII: no other letter lower-cases into a priority name.
\<close>

datatype wos_process_state = Ready | WRunning | Waiting | WStopped | Exited i32 | Killed i32

record wos_process =
  wp_pid :: u32
  wp_parent_pid :: u32
  wp_name :: string
  wp_priority :: u8
  wp_state :: wos_process_state

record wos_adapter =
  wos_default_priority :: u8
  wos_processes :: "u32 \<rightharpoonup> wos_process"
  wos_next_pid :: u32

type_synonym ('a, 'w) wos_action = "('a, wos_adapter, 'w) action"

definition wos_new :: "u32 \<Rightarrow> wos_adapter" where
  "wos_new next_pid =
     \<lparr>wos_default_priority = 4, wos_processes = (\<lambda>_. None), wos_next_pid = next_pid\<rparr>"

definition wos_with_priority :: "u8 \<Rightarrow> u32 \<Rightarrow> (platform_error, wos_adapter) outcome" where
  "wos_with_priority priority next_pid =
     (if priority \<le> 7 then Ok (wos_new next_pid\<lparr>wos_default_priority := priority\<rparr>) else Panic)"

definition allocate_pid :: "(u32, 'w) wos_action" where
  "allocate_pid w = (Ok (wos_next_pid (adapter w)),
     w\<lparr>adapter := (adapter w)\<lparr>wos_next_pid := wos_next_pid (adapter w) + 1\<rparr>\<rparr>)"

definition is_wos_environment :: "host \<Rightarrow> bool" where
  "is_wos_environment h \<longleftrightarrow>
     target_wasm32 h \<or> env_set h ''WOS_KERNEL'' \<or> env_set h ''WOS_VERSION''"

definition wos_ctl_available :: "'w exec \<Rightarrow> (bool, 'w) wos_action" where
  "wos_ctl_available exec = command_succeeds exec [''wos-ctl'', ''--version'']"

fun wos_signal_number :: "signal \<Rightarrow> i32" where
  "wos_signal_number Term = 15"
| "wos_signal_number Kill = 9"
| "wos_signal_number Int' = 2"
| "wos_signal_number Quit = 3"
| "wos_signal_number Hup = 1"
| "wos_signal_number Usr1 = 10"
| "wos_signal_number Usr2 = 12"
| "wos_signal_number Stop = 19"
| "wos_signal_number Cont = 18"

section \<open>Priorities\<close>

definition priority_from_name :: "string \<Rightarrow> u8 option" where
  "priority_from_name name =
     (let n = to_lowercase name in
      if n = ''critical'' then Some 0
      else if n = ''high'' then Some 1
      else if n \<in> {''above_normal'', ''above-normal''} then Some 2
      else if n \<in> {''normal_plus'', ''normal-plus'', ''normal+''} then Some 3
      else if n = ''normal'' then Some 4
      else if n \<in> {''below_normal'', ''below-normal''} then Some 5
      else if n = ''low'' then Some 6
      else if n = ''idle'' then Some 7
      else None)"

definition priority_name :: "u8 \<Rightarrow> string" where
  "priority_name level =
     (if level = 0 then ''critical'' else if level = 1 then ''high''
      else if level = 2 then ''above_normal'' else if level = 3 then ''normal_plus''
      else if level = 4 then ''normal'' else if level = 5 then ''below_normal''
      else if level = 6 then ''low'' else if level = 7 then ''idle'' else ''unknown'')"

section \<open>Spawn, signal, status\<close>

definition wos_spawn :: "host \<Rightarrow> 'w exec \<Rightarrow> daemon_id \<Rightarrow> string \<Rightarrow> (daemon_handle, 'w) wos_action" where
  "wos_spawn h exec daemon_id daemon_name =
     act_bind (if is_wos_environment h then act_return True else wos_ctl_available exec) (\<lambda>ok.
     if \<not> ok then act_fail (PSpawnFailed (''WOS environment not detected and wos-ctl not found. ''
          @ ''Run inside WOS or install wos-ctl to manage WOS processes remotely.''))
     else
       act_bind allocate_pid (\<lambda>pid.
       act_bind (read_adapter wos_default_priority) (\<lambda>priority.
       act_bind (wos_ctl_available exec) (\<lambda>ctl.
       act_bind
         (if ctl then
            act_bind (checked_command exec
              [''wos-ctl'', ''spawn'', ''--name'', daemon_name, ''--priority'', show_word priority,
               ''--pid'', show_word pid]
              (\<lambda>e. PSpawnFailed (''Failed to execute wos-ctl: '' @ e))
              (\<lambda>stderr. PSpawnFailed (''wos-ctl spawn failed: '' @ stderr))) (\<lambda>_. act_return ())
          else act_return ()) (\<lambda>_.
       act_bind
         (modify_adapter (\<lambda>a. a\<lparr>wos_processes := (wos_processes a)
            (pid \<mapsto> \<lparr>wp_pid = pid, wp_parent_pid = 1, wp_name = daemon_name,
                    wp_priority = priority, wp_state = WRunning\<rparr>)\<rparr>))
         (\<lambda>_. act_return (handle_wos daemon_id pid)))))))"

fun wos_apply_signal :: "signal \<Rightarrow> wos_process_state \<Rightarrow> wos_process_state" where
  "wos_apply_signal Kill s = Killed 9"
| "wos_apply_signal Term s = Exited 0"
| "wos_apply_signal Stop s = WStopped"
| "wos_apply_signal Cont s = (if s = WStopped then WRunning else s)"
| "wos_apply_signal _ s = s"

definition wos_signal :: "'w exec \<Rightarrow> daemon_handle \<Rightarrow> signal \<Rightarrow> (unit, 'w) wos_action" where
  "wos_signal exec h sig =
     act_bind (require (handle_pid h) (PSpawnFailed ''Invalid handle type for WOS adapter'')) (\<lambda>pid.
     act_bind (wos_ctl_available exec) (\<lambda>ctl.
     act_bind
       (if ctl then
          act_bind (checked_command exec
            [''wos-ctl'', ''signal'', ''--pid'', show_word pid, ''--signal'',
             show_i32 (wos_signal_number sig)]
            (\<lambda>e. PSignalFailed (''Failed to execute wos-ctl: '' @ e))
            (\<lambda>stderr. PSignalFailed (''wos-ctl signal failed: '' @ stderr))) (\<lambda>_. act_return ())
        else act_return ()) (\<lambda>_.
     modify_adapter (\<lambda>a. a\<lparr>wos_processes :=
       map_adjust pid (\<lambda>p. p\<lparr>wp_state := wos_apply_signal sig (wp_state p)\<rparr>) (wos_processes a)\<rparr>))))"

definition wos_extract_exit_code :: "string \<Rightarrow> i32 option" where
  "wos_extract_exit_code = extract_code [''\"exit_code\": '', ''\"exit_code\":'']"

definition wos_parse_status :: "string \<Rightarrow> daemon_status option" where
  "wos_parse_status stdout =
     (if contains ''\"state\": \"running\"'' stdout then Some Running
      else if contains ''\"state\": \"ready\"'' stdout then Some Starting
      else if contains ''\"state\": \"stopped\"'' stdout then Some Paused
      else if contains ''\"state\": \"exited\"'' stdout then
        (case wos_extract_exit_code stdout of
           Some code \<Rightarrow> if code \<noteq> 0 then Some (Failed (FExitCode code)) else Some Stopped
         | None \<Rightarrow> Some Stopped)
      else None)"

fun wos_local_status :: "wos_process_state \<Rightarrow> daemon_status" where
  "wos_local_status Ready = Running"
| "wos_local_status WRunning = Running"
| "wos_local_status Waiting = Running"
| "wos_local_status WStopped = Paused"
| "wos_local_status (Exited code) = (if code \<noteq> 0 then Failed (FExitCode code) else Stopped)"
| "wos_local_status (Killed sig) = Failed (FSignal sig)"

definition wos_table_status :: "u32 \<Rightarrow> wos_adapter \<Rightarrow> daemon_status" where
  "wos_table_status pid a =
     (case wos_processes a pid of Some p \<Rightarrow> wos_local_status (wp_state p) | None \<Rightarrow> Stopped)"

definition wos_status :: "'w exec \<Rightarrow> daemon_handle \<Rightarrow> (daemon_status, 'w) wos_action" where
  "wos_status exec h =
     act_bind (require (handle_pid h) (PSpawnFailed ''Invalid handle type for WOS adapter'')) (\<lambda>pid.
     act_bind (wos_ctl_available exec) (\<lambda>ctl.
     act_bind
       (if ctl then
          act_bind (command exec [''wos-ctl'', ''status'', ''--pid'', show_word pid, ''--json'']
            (\<lambda>e. PStatusFailed (''Failed to execute wos-ctl: '' @ e)))
            (\<lambda>out. if \<not> out_success out then act_return (Some Stopped)
                   else act_return (wos_parse_status (out_stdout out)))
        else act_return None) (\<lambda>reported.
     case reported of
       Some st \<Rightarrow> act_return st
     | None \<Rightarrow> read_adapter (wos_table_status pid))))"

definition wos_attach_tracer :: "daemon_handle \<Rightarrow> (tracer_handle, 'w) wos_action" where
  "wos_attach_tracer h =
     act_bind (require (handle_pid h) (PSpawnFailed ''Invalid handle type for WOS adapter'')) (\<lambda>pid.
     if pid = 0 then act_fail (PTracerFailed ''Process not running'')
     else act_return (tracer_simulated (dh_id h)))"

section \<open>Listing and priorities of processes\<close>

definition wos_ps_line :: "string \<Rightarrow> (u32 \<times> string) option" where
  "wos_ps_line line =
     (let parts = split_whitespace line
      in if 2 \<le> length parts then map_option (\<lambda>pid. (pid, parts ! 1)) (parse_u32 (parts ! 0))
         else None)"

text \<open>\<open>iter\<close> is the order in which the hash map lists its entries.\<close>

definition wos_list_processes ::
  "((u32 \<rightharpoonup> wos_process) \<Rightarrow> (u32 \<times> wos_process) list) \<Rightarrow> 'w exec \<Rightarrow> ((u32 \<times> string) list, 'w) wos_action" where
  "wos_list_processes iter exec =
     act_bind (wos_ctl_available exec) (\<lambda>ctl.
     act_bind
       (if ctl then
          act_bind (command exec [''wos-ctl'', ''ps'', ''--format'', ''pid,name'']
            (\<lambda>e. PSpawnFailed (''Failed to execute wos-ctl: '' @ e)))
            (\<lambda>out. if out_success out
                   then act_return (Some (List.map_filter wos_ps_line (drop 1 (lines (out_stdout out)))))
                   else act_return None)
        else act_return None) (\<lambda>reported.
     case reported of
       Some ps \<Rightarrow> act_return ps
     | None \<Rightarrow> read_adapter (\<lambda>a. map (\<lambda>(pid, info). (pid, wp_name info)) (iter (wos_processes a)))))"

definition wos_set_priority :: "'w exec \<Rightarrow> u32 \<Rightarrow> u8 \<Rightarrow> (unit, 'w) wos_action" where
  "wos_set_priority exec pid priority =
     (if 7 < priority then act_fail (PConfig ''Priority must be 0-7'')
      else
        act_bind (wos_ctl_available exec) (\<lambda>ctl.
        act_bind
          (if ctl then
             act_bind (checked_command exec
               [''wos-ctl'', ''renice'', ''--pid'', show_word pid, ''--priority'', show_word priority]
               (\<lambda>e. PSpawnFailed (''Failed to execute wos-ctl: '' @ e))
               (\<lambda>stderr. PSpawnFailed (''wos-ctl renice failed: '' @ stderr))) (\<lambda>_. act_return ())
           else act_return ()) (\<lambda>_.
        modify_adapter (\<lambda>a. a\<lparr>wos_processes :=
          map_adjust pid (\<lambda>p. p\<lparr>wp_priority := priority\<rparr>) (wos_processes a)\<rparr>))))"

section \<open>The adapter keeps the contract of stop\<close>

lemma forward_allocate [clock_intro]: "forward allocate_pid"
  by (simp add: forward_def allocate_pid_def)

lemma forward_ctl [clock_intro]: "forward (wos_ctl_available exec)"
  by (simp add: wos_ctl_available_def clock_intro)

lemma forward_wos_signal [clock_intro]: "forward (wos_signal exec h sig)"
  unfolding wos_signal_def by (intro clock_intro)

lemma forward_wos_status [clock_intro]: "forward (wos_status exec h)"
  unfolding wos_status_def by (intro clock_intro)

interpretation wos: adapter_clock "wos_signal exec" "wos_status exec"
  by unfold_locales (simp_all add: forwardD forward_wos_signal forward_wos_status)

section \<open>Without wos-ctl\<close>

definition no_wos_ctl :: "'w exec \<Rightarrow> bool" where
  "no_wos_ctl exec \<longleftrightarrow>
     (\<forall>o'. case fst (exec [''wos-ctl'', ''--version''] o') of
        Ok out \<Rightarrow> \<not> out_success out | Err _ \<Rightarrow> True | Panic \<Rightarrow> False)"

lemma no_ctl:
  assumes "no_wos_ctl exec"
  obtains w' where "wos_ctl_available exec w = (Ok False, w')" "adapter w' = adapter w"
proof -
  obtain r took o' where e: "exec [''wos-ctl'', ''--version''] (os w) = (r, took, o')"
    by (cases "exec [''wos-ctl'', ''--version''] (os w)")
  have "case r of Ok out \<Rightarrow> \<not> out_success out | Err _ \<Rightarrow> True | Panic \<Rightarrow> False"
    using assms e unfolding no_wos_ctl_def by (metis fst_conv)
  with e that show ?thesis
    by (cases r) (simp_all add: wos_ctl_available_def command_succeeds_def run_command_def)
qed

lemma wos_signal_local:
  assumes "no_wos_ctl exec" "handle_pid h = Some pid"
  shows "fst (wos_signal exec h sig w) = Ok ()"
    and "adapter (snd (wos_signal exec h sig w)) = (adapter w)\<lparr>wos_processes :=
      map_adjust pid (\<lambda>p. p\<lparr>wp_state := wos_apply_signal sig (wp_state p)\<rparr>) (wos_processes (adapter w))\<rparr>"
proof -
  obtain w' where w': "wos_ctl_available exec w = (Ok False, w')" "adapter w' = adapter w"
    using no_ctl [OF assms(1)] .
  then show "fst (wos_signal exec h sig w) = Ok ()"
    "adapter (snd (wos_signal exec h sig w)) = (adapter w)\<lparr>wos_processes :=
      map_adjust pid (\<lambda>p. p\<lparr>wp_state := wos_apply_signal sig (wp_state p)\<rparr>) (wos_processes (adapter w))\<rparr>"
    using assms(2) by (simp_all add: wos_signal_def act_simps)
qed

lemma wos_status_local:
  assumes "no_wos_ctl exec" "handle_pid h = Some pid"
  shows "fst (wos_status exec h w) = Ok (wos_table_status pid (adapter w))"
proof -
  obtain w' where "wos_ctl_available exec w = (Ok False, w')" "adapter w' = adapter w"
    using no_ctl [OF assms(1)] .
  then show ?thesis using assms(2) by (simp add: wos_status_def act_simps)
qed

definition send_all :: "'w exec \<Rightarrow> daemon_handle \<Rightarrow> signal list \<Rightarrow> (wos_adapter, 'w) world \<Rightarrow> (wos_adapter, 'w) world" where
  "send_all exec h sigs w = fold (\<lambda>s w. snd (wos_signal exec h s w)) sigs w"

lemma send_all_state:
  assumes "no_wos_ctl exec" "handle_pid h = Some pid"
  shows "map_option wp_state (wos_processes (adapter (send_all exec h sigs w)) pid) =
    map_option (fold wos_apply_signal sigs) (map_option wp_state (wos_processes (adapter w) pid))"
  unfolding send_all_def
proof (induction sigs arbitrary: w)
  case (Cons s sigs)
  have "map_option wp_state (wos_processes (adapter (snd (wos_signal exec h s w))) pid) =
      map_option (wos_apply_signal s) (map_option wp_state (wos_processes (adapter w) pid))"
    by (simp add: wos_signal_local [OF assms] option.map_comp comp_def)
  then show ?case using Cons.IH [of "snd (wos_signal exec h s w)"]
    by (simp add: option.map_comp comp_def)
qed (simp add: option.map_comp comp_def id_def)

lemma wos_spawn_local:
  assumes "no_wos_ctl exec" "is_wos_environment hst"
  shows "fst (wos_spawn hst exec i name w) = Ok (handle_wos i (wos_next_pid (adapter w)))"
    and "adapter (snd (wos_spawn hst exec i name w)) = (adapter w)
      \<lparr>wos_next_pid := wos_next_pid (adapter w) + 1,
       wos_processes := (wos_processes (adapter w))(wos_next_pid (adapter w) \<mapsto>
         \<lparr>wp_pid = wos_next_pid (adapter w), wp_parent_pid = 1, wp_name = name,
          wp_priority = wos_default_priority (adapter w), wp_state = WRunning\<rparr>)\<rparr>"
proof -
  let ?w = "w\<lparr>adapter := (adapter w)\<lparr>wos_next_pid := wos_next_pid (adapter w) + 1\<rparr>\<rparr>"
  obtain w' where "wos_ctl_available exec ?w = (Ok False, w')" "adapter w' = adapter ?w"
    using no_ctl [OF assms(1)] .
  then show "fst (wos_spawn hst exec i name w) = Ok (handle_wos i (wos_next_pid (adapter w)))"
    "adapter (snd (wos_spawn hst exec i name w)) = (adapter w)
      \<lparr>wos_next_pid := wos_next_pid (adapter w) + 1,
       wos_processes := (wos_processes (adapter w))(wos_next_pid (adapter w) \<mapsto>
         \<lparr>wp_pid = wos_next_pid (adapter w), wp_parent_pid = 1, wp_name = name,
          wp_priority = wos_default_priority (adapter w), wp_state = WRunning\<rparr>)\<rparr>"
    using assms(2) by (simp_all add: wos_spawn_def allocate_pid_def act_simps)
qed

text \<open>Inside WOS and without \<open>wos-ctl\<close>, a spawned process is reported as the signals sent to it
  say: it starts running and each signal acts on its local state; \<open>Kill\<close> last is a failure by
  signal 9, \<open>Term\<close> last is stopped.\<close>

theorem wos_status_follows_signals:
  assumes "no_wos_ctl exec" "is_wos_environment hst"
    and "wos_spawn hst exec i name w = (Ok h, w')"
  shows "fst (wos_status exec h (send_all exec h sigs w')) =
      Ok (wos_local_status (fold wos_apply_signal sigs WRunning))
    \<and> fst (wos_status exec h (send_all exec h (sigs @ [Kill]) w')) = Ok (Failed (FSignal 9))
    \<and> fst (wos_status exec h (send_all exec h (sigs @ [Term]) w')) = Ok Stopped"
proof -
  let ?pid = "wos_next_pid (adapter w)"
  have h: "h = handle_wos i ?pid" and run: "map_option wp_state (wos_processes (adapter w') ?pid) = Some WRunning"
    using wos_spawn_local [OF assms(1,2), of i name w] assms(3) by simp_all
  then have pid: "handle_pid h = Some ?pid" by (simp add: handle_pid_def handle_wos_def)
  have "fst (wos_status exec h (send_all exec h ss w')) =
      Ok (wos_local_status (fold wos_apply_signal ss WRunning))" for ss
    using send_all_state [OF assms(1) pid, of ss w'] run
    by (auto simp: wos_status_local [OF assms(1) pid] wos_table_status_def split: option.split)
  then show ?thesis by simp
qed

definition lone_exec :: "unit exec" where
  "lone_exec cmd o' = (Err ''No such file or directory'', 1000, o')"

definition wos_host :: host where
  "wos_host = \<lparr>target_wasm32 = True, target_os = Os_other, env_set = (\<lambda>_. False),
     path_exists = (\<lambda>_. False), proc_1_cgroup = None\<rparr>"

definition fresh_wos :: "(wos_adapter, unit) world" where
  "fresh_wos = \<lparr>clock = 0, adapter = wos_new 2, os = ()\<rparr>"

lemma no_ctl_lone: "no_wos_ctl lone_exec"
  by (simp add: no_wos_ctl_def lone_exec_def)

lemma wos_host_env: "is_wos_environment wos_host"
  by (simp add: is_wos_environment_def wos_host_def)

theorem wos_status_follows_signals_witness:
  "fst (wos_status lone_exec (handle_wos 7 2)
     (send_all lone_exec (handle_wos 7 2) [Stop, Cont]
        (snd (wos_spawn wos_host lone_exec 7 ''d'' fresh_wos)))) = Ok Running"
proof -
  let ?w = "snd (wos_spawn wos_host lone_exec 7 ''d'' fresh_wos)"
  have "fst (wos_spawn wos_host lone_exec 7 ''d'' fresh_wos) = Ok (handle_wos 7 2)"
    using wos_spawn_local(1) [OF no_ctl_lone wos_host_env] by (simp add: fresh_wos_def wos_new_def)
  then have "wos_spawn wos_host lone_exec 7 ''d'' fresh_wos = (Ok (handle_wos 7 2), ?w)"
    by (metis prod.collapse)
  from wos_status_follows_signals [OF no_ctl_lone wos_host_env this, of "[Stop, Cont]"]
  show ?thesis by simp
qed

text \<open>Signals are applied whatever the state, so a terminated process can come back: after \<open>Term\<close>,
  \<open>Stop\<close> makes it paused and \<open>Cont\<close> running, and after \<open>Kill\<close> a \<open>Term\<close> hides the kill.\<close>

theorem wos_dead_process_returns:
  "wos_local_status (fold wos_apply_signal [Term] WRunning) = Stopped
   \<and> wos_local_status (fold wos_apply_signal [Term, Stop] WRunning) = Paused
   \<and> wos_local_status (fold wos_apply_signal [Term, Stop, Cont] WRunning) = Running
   \<and> wos_local_status (fold wos_apply_signal [Kill, Term] WRunning) = Stopped"
  by simp

section \<open>Process ids\<close>

definition wos_wf :: "wos_adapter \<Rightarrow> bool" where
  "wos_wf a \<longleftrightarrow> (\<forall>pid p. wos_processes a pid = Some p \<longrightarrow>
     wp_pid p = pid \<and> 2 \<le> unat pid \<and> unat pid < unat (wos_next_pid a))"

text \<open>As long as the pid counter has not wrapped, every local spawn gets a pid that is not in the
  table, adds exactly that entry and keeps the table well formed.\<close>

theorem wos_spawn_fresh_pid:
  assumes "no_wos_ctl exec" "is_wos_environment hst" "wos_wf (adapter w)"
    and "2 \<le> unat (wos_next_pid (adapter w))" "Suc (unat (wos_next_pid (adapter w))) < 2 ^ 32"
  shows "let r = wos_spawn hst exec i name w; pid = wos_next_pid (adapter w) in
    fst r = Ok (handle_wos i pid) \<and> pid \<notin> dom (wos_processes (adapter w))
    \<and> dom (wos_processes (adapter (snd r))) = insert pid (dom (wos_processes (adapter w)))
    \<and> wos_wf (adapter (snd r))"
proof -
  let ?pid = "wos_next_pid (adapter w)"
  have suc: "unat (?pid + 1) = Suc (unat ?pid)" using assms(5) by (intro unat_suc_in_range) simp
  have "?pid \<notin> dom (wos_processes (adapter w))"
    using assms(3) by (auto simp: wos_wf_def)
  moreover have "wos_wf (adapter (snd (wos_spawn hst exec i name w)))"
    using assms(3,4) suc unfolding wos_wf_def wos_spawn_local(2) [OF assms(1,2)]
    by (auto simp: less_Suc_eq)
  ultimately show ?thesis by (simp add: Let_def wos_spawn_local [OF assms(1,2)])
qed

theorem wos_spawn_fresh_pid_witness:
  "2 \<notin> dom (wos_processes (adapter fresh_wos))
   \<and> fst (wos_spawn wos_host lone_exec 7 ''d'' fresh_wos) = Ok (handle_wos 7 2)"
  using wos_spawn_fresh_pid [OF no_ctl_lone wos_host_env, of fresh_wos 7 "''d''"]
  by (simp add: wos_wf_def fresh_wos_def wos_new_def Let_def)

section \<open>Stopping\<close>

text \<open>The inherited \<open>stop\<close> of the WOS adapter always returns, whatever \<open>wos-ctl\<close> and the clock
  do; success means a status that is terminal was seen, a timeout means the time has passed.\<close>

theorem wos_stop_returns:
  "\<exists>r w'. default_stop (wos_signal exec) (wos_status exec) slp h timeout w = Some (r, w')
     \<and> ((r = Ok () \<and> (\<exists>u st. wos_status exec h u = (Ok st, w') \<and> is_terminal st))
        \<or> (r = Err (PTimeout timeout) \<and> clock w + timeout \<le> clock w')
        \<or> (\<exists>e. r = Err e \<and> wos_signal exec h Term w = (Err e, w'))
        \<or> r = Panic)"
  by (rule wos.stop_spec)

end
