(* ===== verification/Adapter_Native.thy ===== *)
theory Adapter_Native
  imports Core_Adapter
begin

text \<open>
  The native adapter, \<open>crates/duende-core/src/adapters/native.rs\<close>: child processes of the program, kept in a map
  from daemon ids, with a \<open>stop\<close> of its own.

  \<open>process_api\<close> is what the standard library and the kernel do: starting a child, its process id, a
  non-blocking wait, \<open>start_kill\<close> and \<open>kill(2)\<close>. A child is a token \<open>'c\<close> whose state is in \<open>'w\<close>. The
  adapter holds its lock throughout each method, so methods are single steps.
\<close>

section \<open>Processes\<close>

datatype nix_signal =
  SIGHUP | SIGINT | SIGQUIT | SIGTERM | SIGKILL | SIGUSR1 | SIGUSR2 | SIGSTOP | SIGCONT

fun nix_signal_of :: "signal \<Rightarrow> nix_signal" where
  "nix_signal_of Hup = SIGHUP"
| "nix_signal_of Int' = SIGINT"
| "nix_signal_of Quit = SIGQUIT"
| "nix_signal_of Term = SIGTERM"
| "nix_signal_of Kill = SIGKILL"
| "nix_signal_of Usr1 = SIGUSR1"
| "nix_signal_of Usr2 = SIGUSR2"
| "nix_signal_of Stop = SIGSTOP"
| "nix_signal_of Cont = SIGCONT"

record exit_status =
  es_code :: "i32 option"
  es_signal :: "i32 option"

definition es_success :: "exit_status \<Rightarrow> bool" where
  "es_success e \<longleftrightarrow> es_code e = Some 0"

record ('c, 'w) process_api =
  pa_spawn :: "string list \<Rightarrow> 'w \<Rightarrow> (string, 'c) outcome \<times> duration \<times> 'w"
  pa_id :: "'c \<Rightarrow> 'w \<Rightarrow> u32 option \<times> duration \<times> 'w"
  pa_try_wait :: "'c \<Rightarrow> 'w \<Rightarrow> (string, exit_status option) outcome \<times> duration \<times> 'w"
  pa_start_kill :: "'c \<Rightarrow> 'w \<Rightarrow> unit \<times> duration \<times> 'w"
  pa_kill :: "i32 \<Rightarrow> nix_signal \<Rightarrow> 'w \<Rightarrow> (string, unit) outcome \<times> duration \<times> 'w"

section \<open>The adapter\<close>

record 'c native_adapter =
  na_processes :: "daemon_id \<rightharpoonup> 'c"

definition native_new :: "'c native_adapter" where
  "native_new = \<lparr>na_processes = (\<lambda>_. None)\<rparr>"

definition process_count :: "'c native_adapter \<Rightarrow> nat" where
  "process_count a = card (dom (na_processes a))"

definition native_remove :: "daemon_id \<Rightarrow> (unit, 'c native_adapter, 'w) action" where
  "native_remove i = modify_adapter (\<lambda>a. a\<lparr>na_processes := (na_processes a)(i := None)\<rparr>)"

definition native_spawn :: "('c, 'w) process_api \<Rightarrow> daemon_id \<Rightarrow> (daemon_handle, 'c native_adapter, 'w) action" where
  "native_spawn api i =
     act_bind (os_call (pa_spawn api [''/bin/sleep'', ''3600'']) (\<lambda>e. PSpawnFailed (''failed to spawn: '' @ e))) (\<lambda>child.
     act_bind (os_do (pa_id api child)) (\<lambda>id_option.
     act_bind (require id_option (PSpawnFailed ''failed to get PID'')) (\<lambda>pid.
     act_bind (modify_adapter (\<lambda>a. a\<lparr>na_processes := (na_processes a)(i \<mapsto> child)\<rparr>)) (\<lambda>_.
     act_return (handle_native i pid)))))"

definition native_signal ::
  "('c, 'w) process_api \<Rightarrow> id_printer \<Rightarrow> daemon_handle \<Rightarrow> signal \<Rightarrow> (unit, 'c native_adapter, 'w) action" where
  "native_signal api show_id h sig =
     act_bind (read_adapter (\<lambda>a. na_processes a (dh_id h))) (\<lambda>entry.
     act_bind (require entry (PNotFound (show_id (dh_id h)))) (\<lambda>child.
     act_bind (require (handle_pid h) (PSignalFailed ''no PID in handle'')) (\<lambda>pid.
     act_bind (os_call (pa_kill api pid (nix_signal_of sig)) (\<lambda>e. PSignalFailed (''kill failed: '' @ e))) (\<lambda>_.
     if sig = Kill then act_bind (os_do (pa_start_kill api child)) (\<lambda>_. native_remove (dh_id h))
     else act_return ()))))"

definition status_of_exit :: "exit_status \<Rightarrow> daemon_status" where
  "status_of_exit e =
     (if es_success e then Stopped
      else (case es_signal e of
          None \<Rightarrow> Failed (FExitCode (case es_code e of Some n \<Rightarrow> n | None \<Rightarrow> - 1))
        | Some sig \<Rightarrow> Failed (FSignal sig)))"

definition native_status ::
  "('c, 'w) process_api \<Rightarrow> daemon_handle \<Rightarrow> (daemon_status, 'c native_adapter, 'w) action" where
  "native_status api h =
     act_bind (read_adapter (\<lambda>a. na_processes a (dh_id h))) (\<lambda>entry.
     case entry of
       None \<Rightarrow> act_return Stopped
     | Some child \<Rightarrow>
         act_bind (os_call (pa_try_wait api child) (\<lambda>e. PStatusFailed (''failed to get status: '' @ e))) (\<lambda>waited.
         case waited of
           None \<Rightarrow> act_return Running
         | Some e \<Rightarrow> act_bind (native_remove (dh_id h)) (\<lambda>_. act_return (status_of_exit e))))"

definition native_attach_tracer ::
  "id_printer \<Rightarrow> daemon_handle \<Rightarrow> (tracer_handle, 'c native_adapter, 'w) action" where
  "native_attach_tracer show_id h =
     act_bind (read_adapter (\<lambda>a. na_processes a (dh_id h))) (\<lambda>entry.
     if entry = None then act_fail (PNotFound (show_id (dh_id h))) else act_return (tracer_ptrace (dh_id h)))"

text \<open>The wait of \<open>stop\<close>: \<open>Ok True\<close> when a terminal status was seen, \<open>Ok False\<close> when the time ran out.\<close>

fun native_stop_loop ::
  "nat \<Rightarrow> ('c, 'w) process_api \<Rightarrow> 'w sleeper \<Rightarrow> daemon_handle \<Rightarrow> instant \<Rightarrow> duration
   \<Rightarrow> ('c native_adapter, 'w) world \<Rightarrow> ((platform_error, bool) outcome \<times> ('c native_adapter, 'w) world) option" where
  "native_stop_loop 0 api slp h start timeout w = None"
| "native_stop_loop (Suc n) api slp h start timeout w =
     (if elapsed (clock w) start < timeout then
        (case native_status api h w of
           (Ok st, w') \<Rightarrow>
             if is_terminal st then Some (Ok True, w')
             else native_stop_loop n api slp h start timeout (sleep slp (from_millis 50) w')
         | (Err e, w') \<Rightarrow> Some (Err e, w')
         | (Panic, w') \<Rightarrow> Some (Panic, w'))
      else Some (Ok False, w))"

definition native_stop_fuel :: "duration \<Rightarrow> nat" where
  "native_stop_fuel timeout = timeout div from_millis 50 + 2"

definition native_stop ::
  "('c, 'w) process_api \<Rightarrow> id_printer \<Rightarrow> 'w sleeper \<Rightarrow> daemon_handle \<Rightarrow> duration
   \<Rightarrow> ('c native_adapter, 'w) world \<Rightarrow> ((platform_error, unit) outcome \<times> ('c native_adapter, 'w) world) option" where
  "native_stop api show_id slp h timeout w =
     (case native_signal api show_id h Term w of
        (Ok _, w') \<Rightarrow>
          (case native_stop_loop (native_stop_fuel timeout) api slp h (clock w') timeout w' of
             Some (Ok True, u) \<Rightarrow> Some (Ok (), u)
           | Some (Ok False, u) \<Rightarrow> Some (native_signal api show_id h Kill u)
           | Some (Err e, u) \<Rightarrow> Some (Err e, u)
           | Some (Panic, u) \<Rightarrow> Some (Panic, u)
           | None \<Rightarrow> None)
      | (Err e, w') \<Rightarrow> Some (Err e, w')
      | (Panic, w') \<Rightarrow> Some (Panic, w'))"

section \<open>The clock\<close>

lemma forward_remove [clock_intro]: "forward (native_remove i)"
  by (simp add: native_remove_def clock_intro)

lemma forward_native_signal: "forward (native_signal api show_id h sig)"
  unfolding native_signal_def by (intro clock_intro)

lemma forward_native_status: "forward (native_status api h)"
  unfolding native_status_def by (intro clock_intro)

interpretation native: adapter_clock "native_signal api show_id" "native_status api"
  by unfold_locales (simp_all add: forwardD forward_native_signal forward_native_status)

lemma native_loop_returns:
  "start + timeout \<le> clock w + n * from_millis 50 \<Longrightarrow>
     native_stop_loop (Suc n) api slp h start timeout w \<noteq> None"
proof (induction n arbitrary: w)
  case (Suc n)
  let ?w = "sleep slp (from_millis 50) (snd (native_status api h w))"
  have "clock w + from_millis 50 \<le> clock ?w"
    by (rule native.after_status_nap)
  then have "native_stop_loop (Suc n) api slp h start timeout ?w \<noteq> None"
    using Suc.prems by (intro Suc.IH) simp
  then show ?case
    by (subst native_stop_loop.simps) (auto simp del: native_stop_loop.simps split: prod.split outcome.split)
next
  case 0
  then have "\<not> elapsed (clock w) start < timeout" by simp
  then show ?case by simp
qed

lemma native_loop_enough:
  "native_stop_loop (native_stop_fuel timeout) api slp h (clock w) timeout w \<noteq> None"
proof -
  have "timeout \<le> Suc (timeout div from_millis 50) * from_millis 50"
    using dividend_less_div_times [of "from_millis 50" timeout] by simp
  then show ?thesis
    using native_loop_returns [of "clock w" timeout w "Suc (timeout div from_millis 50)"]
    by (simp add: native_stop_fuel_def del: native_stop_loop.simps)
qed

section \<open>What the methods do to the table\<close>

text \<open>The table is as before, or without the entry of \<open>i\<close>.\<close>

definition gone :: "daemon_id \<Rightarrow> 'c native_adapter \<Rightarrow> 'c native_adapter \<Rightarrow> bool" where
  "gone i a a' \<longleftrightarrow> a' = a\<lparr>na_processes := (na_processes a)(i := None)\<rparr>"

lemma native_status_table:
  assumes "native_status api h w = (r, w')"
  shows "if (\<exists>st. r = Ok st \<and> is_terminal st) then gone (dh_id h) (adapter w) (adapter w')
         else adapter w' = adapter w"
proof (cases "na_processes (adapter w) (dh_id h)")
  case None
  with assms have "r = Ok Stopped" "w' = w" by (auto simp: native_status_def act_simps)
  with None show ?thesis by (auto simp: gone_def fun_upd_idem)
next
  case (Some child)
  obtain x took o' where t: "pa_try_wait api child (os w) = (x, took, o')"
    by (cases "pa_try_wait api child (os w)")
  show ?thesis
    using assms Some t
    by (cases x)
      (auto simp: native_status_def act_simps os_call_def native_remove_def gone_def status_of_exit_def
        split: option.splits if_splits)
qed

lemma native_signal_table:
  assumes "native_signal api show_id h sig w = (r, w')"
  shows "if r = Ok () \<and> sig = Kill then gone (dh_id h) (adapter w) (adapter w') else adapter w' = adapter w"
proof (cases "na_processes (adapter w) (dh_id h)")
  case None
  with assms show ?thesis by (auto simp: native_signal_def act_simps)
next
  case (Some child)
  show ?thesis
  proof (cases "handle_pid h")
    case None
    with assms Some show ?thesis by (auto simp: native_signal_def act_simps)
  next
    case (Some pid)
    obtain x took o' where k: "pa_kill api pid (nix_signal_of sig) (os w) = (x, took, o')"
      by (cases "pa_kill api pid (nix_signal_of sig) (os w)")
    show ?thesis
      using assms Some \<open>na_processes (adapter w) (dh_id h) = Some child\<close> k
      by (cases x)
        (auto simp: native_signal_def act_simps os_call_def os_do_def native_remove_def gone_def split: prod.splits if_splits)
  qed
qed

lemma native_loop_table:
  "native_stop_loop n api slp h start timeout w = Some (r, w') \<Longrightarrow>
     (r = Ok True \<and> gone (dh_id h) (adapter w) (adapter w')) \<or> (r \<noteq> Ok True \<and> adapter w' = adapter w)"
proof (induction n arbitrary: w)
  case (Suc n)
  obtain q u where q: "native_status api h w = (q, u)" by (cases "native_status api h w")
  note tab = native_status_table [OF q]
  have slept: "adapter (sleep slp (from_millis 50) u) = adapter u" by (simp add: sleep_def split: prod.split)
  show ?case
  proof (cases "elapsed (clock w) start < timeout \<and> (\<exists>st. q = Ok st \<and> \<not> is_terminal st)")
    case True
    then have "native_stop_loop n api slp h start timeout (sleep slp (from_millis 50) u) = Some (r, w')"
      using Suc.prems q by auto
    from Suc.IH [OF this] show ?thesis using True tab slept by auto
  next
    case False
    with Suc.prems q tab show ?thesis by (cases q) (auto split: if_splits)
  qed
qed simp

section \<open>Properties\<close>

lemma native_stop_spec:
  "\<exists>r w'. native_stop api show_id slp h timeout w = Some (r, w')
     \<and> (if r = Ok () then na_processes (adapter w') = (na_processes (adapter w))(dh_id h := None)
        else adapter w' = adapter w)"
proof -
  obtain q u where q: "native_signal api show_id h Term w = (q, u)"
    by (cases "native_signal api show_id h Term w")
  then have u: "adapter u = adapter w" using native_signal_table [OF q] by simp
  show ?thesis
  proof (cases q)
    case (Ok x)
    obtain r v where loop:
      "native_stop_loop (native_stop_fuel timeout) api slp h (clock u) timeout u = Some (r, v)"
      using native_loop_enough [of timeout api slp h u] by auto
    note tab = native_loop_table [OF loop]
    obtain k z where k: "native_signal api show_id h Kill v = (k, z)"
      by (cases "native_signal api show_id h Kill v")
    show ?thesis
      using native_signal_table [OF k] tab u q Ok loop k
      by (cases r; cases "r = Ok True") (auto simp: native_stop_def gone_def split: bool.splits if_splits)
  next
    case (Err e)
    with q u show ?thesis by (simp add: native_stop_def)
  next
    case Panic
    with q u show ?thesis by (simp add: native_stop_def)
  qed
qed

lemma native_stop_succeeds: "\<exists>r w'. native_stop api show_id slp h timeout w = Some (r, w')"
  using native_stop_spec by blast

text \<open>The native \<open>stop\<close> always returns. When it succeeds the daemon is out of the table (it ended by itself
  or was killed) and nothing else in the table has changed; when it fails the table is as it was.\<close>

theorem native_stop_ends:
  "\<exists>r w'. native_stop api show_id slp h timeout w = Some (r, w')
     \<and> (if r = Ok () then na_processes (adapter w') = (na_processes (adapter w))(dh_id h := None)
        else adapter w' = adapter w)"
  by (rule native_stop_spec)

text \<open>The end of a child is reported once. The query that finds it gone answers how it ended and drops it
  from the table; every later query, whatever the kernel does, answers \<open>Stopped\<close>, so a crash or a killing
  signal is forgotten, and every later signal is an error.\<close>

theorem native_end_reported_once:
  assumes "na_processes (adapter w) (dh_id h) = Some child"
    and "pa_try_wait api child (os w) = (Ok (Some e), took, o')"
  shows "fst (native_status api h w) = Ok (status_of_exit e)
     \<and> fst (native_status api' h (snd (native_status api h w))) = Ok Stopped
     \<and> fst (native_signal api' show_id h sig (snd (native_status api h w))) = Err (PNotFound (show_id (dh_id h)))"
  using assms
  by (simp add: native_status_def native_signal_def act_simps os_call_def native_remove_def)

text \<open>A kernel with one child, killed by signal 9, and an adapter that holds it.\<close>

definition killed_child :: "(unit, unit) process_api" where
  "killed_child =
     \<lparr>pa_spawn = (\<lambda>_ o'. (Ok (), 0, o')), pa_id = (\<lambda>_ o'. (Some 100, 0, o')),
      pa_try_wait = (\<lambda>_ o'. (Ok (Some \<lparr>es_code = None, es_signal = Some 9\<rparr>), 0, o')),
      pa_start_kill = (\<lambda>_ o'. ((), 0, o')), pa_kill = (\<lambda>_ _ o'. (Ok (), 0, o'))\<rparr>"

definition one_child :: "(unit native_adapter, unit) world" where
  "one_child = snd (native_spawn killed_child 7 \<lparr>clock = 0, adapter = native_new, os = ()\<rparr>)"

theorem native_end_reported_once_witness:
  "fst (native_status killed_child (handle_native 7 100) one_child) = Ok (Failed (FSignal 9))
   \<and> fst (native_status killed_child (handle_native 7 100)
          (snd (native_status killed_child (handle_native 7 100) one_child))) = Ok Stopped"
proof -
  have "na_processes (adapter one_child) (dh_id (handle_native 7 100)) = Some ()"
    by (simp add: one_child_def native_spawn_def act_simps os_call_def os_do_def killed_child_def native_new_def
        handle_native_def)
  moreover have "pa_try_wait killed_child () (os one_child) = (Ok (Some \<lparr>es_code = None, es_signal = Some 9\<rparr>), 0, os one_child)"
    by (simp add: killed_child_def)
  ultimately show ?thesis
    using native_end_reported_once [of one_child "handle_native 7 100" "()" killed_child] by (simp add: status_of_exit_def es_success_def)
qed

end
