(* ===== verification/Adapters.thy ===== *)
theory Adapters
  imports Adapter_Systemd Adapter_Launchd Adapter_Container Adapter_Pepita Adapter_Wos Adapter_Native
begin

text \<open>
  Choosing an adapter, \<open>crates/duende-core/src/adapters/mod.rs\<close>, and what the adapters have in common.

  \<open>any_adapter\<close> is \<open>Box<dyn PlatformAdapter>\<close>: an adapter with its state, and the two stubs that stand for
  systemd and launchd on other systems. \<open>any_signal\<close>, \<open>any_status\<close> and \<open>any_stop\<close> are the calls through
  the trait object; \<open>stop\<close> is the trait's default except for the native adapter, which has its own.

  The sources await commands and system calls without a time limit. Here a command is a function that gives an answer and
  the time it took, so a tool that never answers, and with it a method that never returns, is not represented. What is
  shown of \<open>stop\<close> therefore assumes a bound on these times (\<open>prompt\<close>).
\<close>

datatype 'c any_adapter =
    ASystemd systemd_adapter
  | ASystemdStub
  | ALaunchd launchd_adapter
  | ALaunchdStub
  | AContainer container_adapter
  | APepita pepita_adapter
  | AWos wos_adapter
  | ANative "'c native_adapter"

text \<open>The outside of the program: directories of the user, the counters kept in statics, and the system calls.\<close>

record ('c, 'w) environment =
  en_config_dir :: "string option"
  en_home_dir :: "string option"
  en_uid :: u32
  en_exec :: "'w exec"
  en_api :: "('c, 'w) process_api"
  en_show_id :: id_printer

definition launchd_new :: "string option \<Rightarrow> launchd_adapter" where
  "launchd_new home_dir = launchd_user home_dir"

definition select_adapter ::
  "target_os \<Rightarrow> ('c, 'w) environment \<Rightarrow> u32 \<Rightarrow> u32 \<Rightarrow> platform \<Rightarrow> 'c any_adapter" where
  "select_adapter target env next_cid next_pid p =
     (case p of
        Linux \<Rightarrow> (if target = Os_linux then ASystemd (systemd_new (en_config_dir env)) else ASystemdStub)
      | MacOS \<Rightarrow> (if target = Os_macos then ALaunchd (launchd_new (en_home_dir env)) else ALaunchdStub)
      | Container \<Rightarrow> AContainer container_docker
      | PepitaMicroVM \<Rightarrow> APepita (pepita_new next_cid)
      | Wos \<Rightarrow> AWos (wos_new next_pid)
      | Native \<Rightarrow> ANative native_new)"

definition select_adapter_auto ::
  "host \<Rightarrow> ('c, 'w) environment \<Rightarrow> u32 \<Rightarrow> u32 \<Rightarrow> 'c any_adapter" where
  "select_adapter_auto h env next_cid next_pid =
     select_adapter (target_os h) env next_cid next_pid (detect_platform h)"

fun any_platform :: "'c any_adapter \<Rightarrow> platform" where
  "any_platform (ASystemd _) = Linux"
| "any_platform ASystemdStub = Linux"
| "any_platform (ALaunchd _) = MacOS"
| "any_platform ALaunchdStub = MacOS"
| "any_platform (AContainer _) = Container"
| "any_platform (APepita _) = PepitaMicroVM"
| "any_platform (AWos _) = Wos"
| "any_platform (ANative _) = Native"

section \<open>Calls through the trait object\<close>

definition stub_fails :: "platform \<Rightarrow> string \<Rightarrow> ('a, 's, 'w) action" where
  "stub_fails p what = act_fail (PNotSupported p what)"

definition inside :: "('s \<Rightarrow> 't) \<Rightarrow> 's \<Rightarrow> ('e, 'a, 's, 'w) eaction \<Rightarrow> ('e, 'a, 't, 'w) eaction" where
  "inside wrap s m w =
     (case m \<lparr>clock = clock w, adapter = s, os = os w\<rparr> of
        (r, u) \<Rightarrow> (r, \<lparr>clock = clock u, adapter = wrap (adapter u), os = os u\<rparr>))"

definition any_signal ::
  "('c, 'w) environment \<Rightarrow> daemon_handle \<Rightarrow> signal \<Rightarrow> (unit, 'c any_adapter, 'w) action" where
  "any_signal env h sig w =
     (case adapter w of
        ASystemd a \<Rightarrow> sd_signal a (en_exec env) h sig w
      | ASystemdStub \<Rightarrow> stub_fails Linux ''signal'' w
      | ALaunchd a \<Rightarrow> ld_signal a (en_uid env) (en_exec env) h sig w
      | ALaunchdStub \<Rightarrow> stub_fails MacOS ''signal'' w
      | AContainer a \<Rightarrow> ct_signal a (en_exec env) h sig w
      | APepita s \<Rightarrow> inside APepita s (pp_signal (en_exec env) h sig) w
      | AWos s \<Rightarrow> inside AWos s (wos_signal (en_exec env) h sig) w
      | ANative s \<Rightarrow> inside ANative s (native_signal (en_api env) (en_show_id env) h sig) w)"

definition any_status ::
  "('c, 'w) environment \<Rightarrow> daemon_handle \<Rightarrow> (daemon_status, 'c any_adapter, 'w) action" where
  "any_status env h w =
     (case adapter w of
        ASystemd a \<Rightarrow> sd_status a (en_exec env) h w
      | ASystemdStub \<Rightarrow> stub_fails Linux ''status'' w
      | ALaunchd a \<Rightarrow> ld_status (en_exec env) h w
      | ALaunchdStub \<Rightarrow> stub_fails MacOS ''status'' w
      | AContainer a \<Rightarrow> ct_status a (en_exec env) h w
      | APepita s \<Rightarrow> inside APepita s (pp_status (en_exec env) h) w
      | AWos s \<Rightarrow> inside AWos s (wos_status (en_exec env) h) w
      | ANative s \<Rightarrow> inside ANative s (native_status (en_api env) h) w)"

definition any_stop ::
  "('c, 'w) environment \<Rightarrow> 'w sleeper \<Rightarrow> daemon_handle \<Rightarrow> duration \<Rightarrow> ('c any_adapter, 'w) world
   \<Rightarrow> ((platform_error, unit) outcome \<times> ('c any_adapter, 'w) world) option" where
  "any_stop env slp h timeout w =
     (case adapter w of
        ANative s \<Rightarrow>
          map_option (\<lambda>(r, u). (r, \<lparr>clock = clock u, adapter = ANative (adapter u), os = os u\<rparr>))
            (native_stop (en_api env) (en_show_id env) slp h timeout \<lparr>clock = clock w, adapter = s, os = os w\<rparr>)
      | _ \<Rightarrow> default_stop (any_signal env) (any_status env) slp h timeout w)"

section \<open>The contract of stop, for every adapter\<close>

lemma inside_clock: "forward m \<Longrightarrow> clock w \<le> clock (snd (inside wrap s m w))"
  using forwardD [of m "\<lparr>clock = clock w, adapter = s, os = os w\<rparr>"]
  by (auto simp: inside_def split: prod.split)

lemma any_signal_clock: "clock w \<le> clock (snd (any_signal env h sig w))"
  by (cases "adapter w")
    (simp_all add: any_signal_def stub_fails_def act_fail_def inside_clock forwardD forward_sd_signal
      forward_ld_signal forward_ct_signal forward_pp_signal forward_wos_signal forward_native_signal)

lemma any_status_clock: "clock w \<le> clock (snd (any_status env h w))"
  by (cases "adapter w")
    (simp_all add: any_status_def stub_fails_def act_fail_def inside_clock forwardD forward_sd_status
      forward_ld_status forward_ct_status forward_pp_status forward_wos_status forward_native_status)

interpretation anyone: adapter_clock "any_signal env" "any_status env"
  by unfold_locales (rule any_signal_clock any_status_clock)+

lemma keeps_methods:
  "keeps_adapter (sd_signal a exec h sig)" "keeps_adapter (sd_status a exec h)"
  "keeps_adapter (ld_signal b uid exec h sig)" "keeps_adapter (ld_status exec h)"
  "keeps_adapter (ct_signal c exec h sig)" "keeps_adapter (ct_status c exec h)"
  by (auto simp: sd_signal_def sd_status_def ld_signal_def ld_status_def ct_signal_def ct_status_def Let_def
      intro!: frame)

lemma inside_platform:
  "any_platform (adapter (snd (inside wrap s m w))) = any_platform (wrap (adapter (snd (m \<lparr>clock = clock w, adapter = s, os = os w\<rparr>))))"
  by (simp add: inside_def split: prod.split)

lemma any_signal_platform: "any_platform (adapter (snd (any_signal env h sig w))) = any_platform (adapter w)"
  by (cases "adapter w")
    (simp_all add: any_signal_def stub_fails_def act_fail_def inside_platform keeps_adapterD keeps_methods)

lemma any_status_platform: "any_platform (adapter (snd (any_status env h w))) = any_platform (adapter w)"
  by (cases "adapter w")
    (simp_all add: any_status_def stub_fails_def act_fail_def inside_platform keeps_adapterD keeps_methods)

section \<open>How long stopping takes\<close>

text \<open>Commands and system calls are awaited without a time limit, so the timeout of \<open>stop\<close> bounds its duration only together with
  theirs: \<open>prompt\<close> says that each takes at most \<open>b\<close>, and that a sleep is at most \<open>e\<close> too long.\<close>

definition prompt :: "('c, 'w) environment \<Rightarrow> 'w sleeper \<Rightarrow> duration \<Rightarrow> duration \<Rightarrow> bool" where
  "prompt env slp b e \<longleftrightarrow>
     (\<forall>cmd x. fst (snd (en_exec env cmd x)) \<le> b)
     \<and> (\<forall>c x. fst (snd (pa_try_wait (en_api env) c x)) \<le> b) \<and> (\<forall>c x. fst (snd (pa_start_kill (en_api env) c x)) \<le> b)
     \<and> (\<forall>p s x. fst (snd (pa_kill (en_api env) p s x)) \<le> b) \<and> (\<forall>d x. fst (slp d x) \<le> e)"

definition takes :: "duration \<Rightarrow> ('e, 'a, 's, 'w) eaction \<Rightarrow> bool" where
  "takes b m \<longleftrightarrow> (\<forall>w. clock (snd (m w)) \<le> clock w + b)"

named_theorems takes_intro \<open>how long actions take\<close>

lemma takesD: "takes b m \<Longrightarrow> clock (snd (m w)) \<le> clock w + b"
  by (simp add: takes_def)

lemma takes_mono: "takes b m \<Longrightarrow> b \<le> c \<Longrightarrow> takes c m"
  unfolding takes_def by (meson add_left_mono order_trans)

lemma takes_basic [takes_intro]:
  "takes 0 (act_return a)" "takes 0 (act_fail e)" "takes 0 (require x e)" "takes 0 (modify_adapter f)" "takes 0 (read_adapter g)"
  by (simp_all add: takes_def act_simps)

lemma takes_bind [takes_intro]:
  assumes "takes b m" "\<And>a. takes c (f a)"
  shows "takes (b + c) (act_bind m f)"
  unfolding takes_def
proof
  fix w
  obtain r u where m: "m w = (r, u)" by (cases "m w")
  then have "clock u \<le> clock w + b" using takesD [OF assms(1), of w] by simp
  moreover have "clock (snd (f a u)) \<le> clock u + c" for a by (rule takesD [OF assms(2)])
  ultimately have "clock u \<le> clock w + (b + c)" "\<And>a. clock (snd (f a u)) \<le> clock w + (b + c)"
    by (simp, metis add.assoc add_le_mono1 order_trans)
  with m show "clock (snd (act_bind m f w)) \<le> clock w + (b + c)" by (cases r) (simp_all add: act_bind_def)
qed

lemma sleep_takes: "(\<And>d x. fst (slp d x) \<le> e) \<Longrightarrow> clock (sleep slp d w) \<le> clock w + d + e"
  by (simp add: sleep_def split: prod.split) (metis fst_conv)

lemma takes_if [takes_intro]: "takes b m \<Longrightarrow> takes c n \<Longrightarrow> takes (max b c) (if x then m else n)"
  by (auto intro: takes_mono)

lemma takes_option [takes_intro]:
  "takes b m \<Longrightarrow> (\<And>a. takes c (f a)) \<Longrightarrow> takes (max b c) (case x of None \<Rightarrow> m | Some a \<Rightarrow> f a)"
  by (cases x) (auto intro: takes_mono [OF _ max.cobounded1] takes_mono [OF _ max.cobounded2])

lemma takes_command:
  assumes "\<And>cmd x. fst (snd (exec cmd x)) \<le> b"
  shows "takes b (command exec cmd err)" "takes b (command_succeeds exec cmd)" "takes b (checked_command exec cmd err failed)"
proof -
  have run: "clock (snd (run_command exec cmd w)) \<le> clock w + b" for w
    using assms [of cmd "os w"] by (cases "exec cmd (os w)") (simp add: run_command_def)
  show command: "takes b (command exec cmd err)"
    unfolding takes_def
  proof
    fix w
    show "clock (snd (command exec cmd err w)) \<le> clock w + b"
      using run [of w] by (cases "run_command exec cmd w"; cases "fst (run_command exec cmd w)") (simp_all add: command_def)
  qed
  show "takes b (command_succeeds exec cmd)"
    unfolding takes_def
  proof
    fix w
    show "clock (snd (command_succeeds exec cmd w)) \<le> clock w + b"
      using run [of w]
      by (cases "run_command exec cmd w"; cases "fst (run_command exec cmd w)") (simp_all add: command_succeeds_def)
  qed
  have "takes (b + max 0 0) (checked_command exec cmd err failed)"
    unfolding checked_command_def by (intro takes_bind command takes_if takes_basic)
  then show "takes b (checked_command exec cmd err failed)" by simp
qed

lemma takes_os: "(\<And>x. fst (snd (f x)) \<le> b) \<Longrightarrow> takes b (os_call f err)" "(\<And>x. fst (snd (g x)) \<le> b) \<Longrightarrow> takes b (os_do g)"
  by (auto simp: takes_def os_call_def os_do_def split: prod.split) (metis fst_conv snd_conv)+

lemma inside_takes: "takes b m \<Longrightarrow> clock (snd (inside wrap s m w)) \<le> clock w + b"
  using takesD [of b m "\<lparr>clock = clock w, adapter = s, os = os w\<rparr>"]
  by (auto simp: inside_def split: prod.split)

lemma methods_take:
  assumes "\<And>cmd x. fst (snd (exec cmd x)) \<le> b"
  shows "takes (2 * b) (sd_signal a exec h sig)" "takes (2 * b) (sd_status a exec h)"
    "takes (2 * b) (ld_signal l uid exec h sig)" "takes (2 * b) (ld_status exec h)"
    "takes (2 * b) (ct_signal c exec h sig)" "takes (2 * b) (ct_status c exec h)"
    "takes (2 * b) (pp_signal exec h sig)" "takes (2 * b) (pp_status exec h)"
    "takes (2 * b) (wos_signal exec h sig)" "takes (2 * b) (wos_status exec h)"
proof -
  note commands = takes_command [of exec b, OF assms]
  show "takes (2 * b) (sd_signal a exec h sig)"
    unfolding sd_signal_def by (rule takes_mono, (rule takes_bind takes_if takes_option takes_basic commands)+) simp
  show "takes (2 * b) (sd_status a exec h)"
    unfolding sd_status_def by (rule takes_mono, (rule takes_bind takes_if takes_option takes_basic commands)+) simp
  show "takes (2 * b) (ld_signal l uid exec h sig)"
    unfolding ld_signal_def by (rule takes_mono, (rule takes_bind takes_if takes_option takes_basic commands)+) simp
  show "takes (2 * b) (ld_status exec h)"
    unfolding ld_status_def by (rule takes_mono, (rule takes_bind takes_if takes_option takes_basic commands)+) simp
  show "takes (2 * b) (ct_signal c exec h sig)"
    unfolding ct_signal_def Let_def by (rule takes_mono, (rule takes_bind takes_if takes_option takes_basic commands)+) simp
  show "takes (2 * b) (ct_status c exec h)"
    unfolding ct_status_def Let_def by (rule takes_mono, (rule takes_bind takes_if takes_option takes_basic commands)+) simp
  show "takes (2 * b) (pp_status exec h)"
    unfolding pp_status_def by (rule takes_mono, (rule takes_bind takes_if takes_option takes_basic commands)+) simp
  show "takes (2 * b) (wos_signal exec h sig)"
    unfolding wos_signal_def wos_ctl_available_def by (rule takes_mono, (rule takes_bind takes_if takes_option takes_basic commands)+) simp
  show "takes (2 * b) (wos_status exec h)"
    unfolding wos_status_def wos_ctl_available_def by (rule takes_mono, (rule takes_bind takes_if takes_option takes_basic commands)+) simp
  have "takes (2 * b) (act_bind (checked_command exec cmd err failed)
      (\<lambda>_. if x then modify_adapter f else act_return ()))" for cmd err failed x f
    by (rule takes_mono, (rule takes_bind takes_if takes_basic commands)+) simp
  moreover have "takes (2 * b) (act_fail e)" for e by (rule takes_mono, rule takes_basic) simp
  ultimately show "takes (2 * b) (pp_signal exec h sig)"
    by (cases "pepita_vm_id h"; cases "vsock_cid h") (simp_all only: pp_signal_def prod.case option.case)
qed

lemma native_methods_take:
  assumes "\<And>c x. fst (snd (pa_try_wait api c x)) \<le> b" "\<And>c x. fst (snd (pa_start_kill api c x)) \<le> b"
    and "\<And>p s x. fst (snd (pa_kill api p s x)) \<le> b"
  shows "takes (2 * b) (native_signal api show_id h sig)" "takes b (native_status api h)"
proof -
  note calls = takes_os [of "pa_kill api _ _" b, OF assms(3)] takes_os(2) [of "pa_start_kill api _" b, OF assms(2)]
    takes_os(1) [of "pa_try_wait api _" b, OF assms(1)]
  show "takes (2 * b) (native_signal api show_id h sig)"
    unfolding native_signal_def native_remove_def by (rule takes_mono, (rule takes_bind takes_if takes_option takes_basic calls)+) simp
  show "takes b (native_status api h)"
    unfolding native_status_def native_remove_def by (rule takes_mono, (rule takes_bind takes_if takes_option takes_basic calls)+) simp
qed

lemma stop_loop_takes:
  assumes "takes b (status h)" "\<And>d x. fst (slp d x) \<le> e"
  shows "stop_loop n status slp h start timeout w = Some (r, w') \<Longrightarrow> clock w \<le> start + timeout + b + from_millis 100 + e
    \<Longrightarrow> clock w' \<le> start + timeout + b + from_millis 100 + e"
proof (induction n arbitrary: w)
  case (Suc n)
  obtain q u where q: "status h w = (q, u)" by (cases "status h w")
  show ?case
  proof (cases "elapsed (clock w) start < timeout")
    case True
    then have u: "clock u \<le> start + timeout + b" using takesD [OF assms(1), of w] q by simp
    then have "clock (sleep slp (from_millis 100) u) \<le> start + timeout + b + from_millis 100 + e"
      using sleep_takes [of slp e "from_millis 100" u] assms(2) by fastforce
    with Suc.prems Suc.IH [of "sleep slp (from_millis 100) u"] True q u show ?thesis
      by (cases q) (auto split: if_splits)
  qed (use Suc.prems in simp)
qed simp

lemma native_loop_takes:
  assumes "takes b (native_status api h)" "\<And>d x. fst (slp d x) \<le> e"
  shows "native_stop_loop n api slp h start timeout w = Some (r, w') \<Longrightarrow> clock w \<le> start + timeout + b + from_millis 50 + e
    \<Longrightarrow> clock w' \<le> start + timeout + b + from_millis 50 + e"
proof (induction n arbitrary: w)
  case (Suc n)
  obtain q u where q: "native_status api h w = (q, u)" by (cases "native_status api h w")
  show ?case
  proof (cases "elapsed (clock w) start < timeout")
    case True
    then have u: "clock u \<le> start + timeout + b" using takesD [OF assms(1), of w] q by simp
    then have "clock (sleep slp (from_millis 50) u) \<le> start + timeout + b + from_millis 50 + e"
      using sleep_takes [of slp e "from_millis 50" u] assms(2) by fastforce
    with Suc.prems Suc.IH [of "sleep slp (from_millis 50) u"] True q u show ?thesis
      by (cases q) (auto split: if_splits)
  qed (use Suc.prems in simp)
qed simp

lemma promptD:
  assumes "prompt env slp b e"
  shows "fst (snd (en_exec env cmd x)) \<le> b" "fst (snd (pa_try_wait (en_api env) c x)) \<le> b"
    "fst (snd (pa_start_kill (en_api env) c x)) \<le> b" "fst (snd (pa_kill (en_api env) p s x)) \<le> b" "fst (slp d x) \<le> e"
  using assms by (simp_all add: prompt_def)

lemma any_methods_take:
  assumes "prompt env slp b e"
  shows "takes (2 * b) (any_signal env h sig)" "takes (2 * b) (any_status env h)"
proof -
  note tools = methods_take [of "en_exec env" b, OF promptD(1) [OF assms]]
  note natives = native_methods_take [of "en_api env" b, OF promptD(2,3,4) [OF assms]]
  have "clock (snd (any_signal env h sig w)) \<le> clock w + 2 * b" for w
    by (cases "adapter w") (simp_all only: any_signal_def any_adapter.case stub_fails_def act_fail_def snd_conv le_add1
        takesD [OF tools(1)] takesD [OF tools(3)] takesD [OF tools(5)] inside_takes tools natives)
  then show "takes (2 * b) (any_signal env h sig)" by (simp add: takes_def)
  have "takes (2 * b) (native_status (en_api env) h)" by (rule takes_mono [OF natives(2)]) simp
  then have "clock (snd (any_status env h w)) \<le> clock w + 2 * b" for w
    by (cases "adapter w") (simp_all only: any_status_def any_adapter.case stub_fails_def act_fail_def snd_conv le_add1
        takesD [OF tools(2)] takesD [OF tools(4)] takesD [OF tools(6)] inside_takes tools)
  then show "takes (2 * b) (any_status env h)" by (simp add: takes_def)
qed

lemma default_stop_takes:
  assumes "prompt env slp b e" "default_stop (any_signal env) (any_status env) slp h timeout w = Some (r, w')"
  shows "clock w' \<le> clock w + timeout + 4 * b + from_millis 100 + e"
proof -
  obtain q u where q: "any_signal env h Term w = (q, u)" by (cases "any_signal env h Term w")
  then have u: "clock u \<le> clock w + 2 * b"
    using takesD [OF any_methods_take(1) [OF assms(1)], of h Term w] by simp
  show ?thesis
  proof (cases q)
    case (Ok x)
    with assms(2) q have "stop_loop (stop_fuel timeout) (any_status env) slp h (clock u) timeout u = Some (r, w')"
      by (simp add: default_stop_def)
    then have "clock w' \<le> clock u + timeout + 2 * b + from_millis 100 + e"
      by (rule stop_loop_takes [OF any_methods_take(2) [OF assms(1)] promptD(5) [OF assms(1)]]) simp
    with u show ?thesis by simp
  qed (use assms(2) q u in \<open>auto simp: default_stop_def\<close>)
qed

lemma native_stop_takes:
  assumes "prompt env slp b e" "native_stop (en_api env) show_id slp h timeout w = Some (r, w')"
  shows "clock w' \<le> clock w + timeout + 5 * b + from_millis 50 + e"
proof -
  note natives = native_methods_take [of "en_api env" b, OF promptD(2,3,4) [OF assms(1)]]
  obtain q u where q: "native_signal (en_api env) show_id h Term w = (q, u)"
    by (cases "native_signal (en_api env) show_id h Term w")
  then have u: "clock u \<le> clock w + 2 * b"
    using takesD [OF natives(1), of show_id h Term w] by simp
  show ?thesis
  proof (cases q)
    case (Ok x)
    with assms(2) q obtain t v where
      loop: "native_stop_loop (native_stop_fuel timeout) (en_api env) slp h (clock u) timeout u = Some (t, v)"
      by (cases "native_stop_loop (native_stop_fuel timeout) (en_api env) slp h (clock u) timeout u")
        (auto simp: native_stop_def)
    then have v: "clock v \<le> clock u + timeout + b + from_millis 50 + e"
      by (rule native_loop_takes [OF natives(2) promptD(5) [OF assms(1)]]) simp
    have "w' = v \<or> w' = snd (native_signal (en_api env) show_id h Kill v)"
      using assms(2) q loop Ok by (cases t) (auto simp: native_stop_def split: if_splits bool.splits)
    with u v takesD [OF natives(1), of show_id h Kill v] show ?thesis by auto
  qed (use assms(2) q u in \<open>auto simp: native_stop_def\<close>)
qed

lemma any_stop_answers:
  obtains r w' where "any_stop env slp h timeout w = Some (r, w')" "any_platform (adapter w') = any_platform (adapter w)"
proof (cases "\<exists>s. adapter w = ANative s")
  case True
  then obtain s where s: "adapter w = ANative s" by auto
  obtain r u where "native_stop (en_api env) (en_show_id env) slp h timeout \<lparr>clock = clock w, adapter = s, os = os w\<rparr>
      = Some (r, u)"
    using native_stop_succeeds by blast
  with s show thesis by (intro that [of r "\<lparr>clock = clock u, adapter = ANative (adapter u), os = os u\<rparr>"]) (simp_all add: any_stop_def)
next
  case False
  then have stop: "any_stop env slp h timeout w = default_stop (any_signal env) (any_status env) slp h timeout w"
    by (cases "adapter w") (auto simp: any_stop_def)
  obtain r w' where rw: "default_stop (any_signal env) (any_status env) slp h timeout w = Some (r, w')"
    using anyone.stop_returns by fast
  have "any_platform (adapter w') = any_platform (adapter w)"
    by (rule default_stop_keeps [where P = "\<lambda>a. any_platform a = any_platform (adapter w)", OF _ _ _ rw])
      (simp_all add: any_signal_platform any_status_platform)
  with rw stop show thesis by (intro that [of r w']) simp_all
qed

lemma any_stop_takes:
  assumes "prompt env slp b e" "any_stop env slp h timeout w = Some (r, w')"
  shows "clock w' \<le> clock w + timeout + 5 * b + from_millis 100 + e"
proof (cases "\<exists>s. adapter w = ANative s")
  case True
  then obtain s where s: "adapter w = ANative s" by auto
  with assms(2) obtain q u where "native_stop (en_api env) (en_show_id env) slp h timeout \<lparr>clock = clock w, adapter = s, os = os w\<rparr>
      = Some (q, u)" "clock w' = clock u"
    by (auto simp: any_stop_def)
  with native_stop_takes [OF assms(1)] show ?thesis by fastforce
next
  case False
  then have "any_stop env slp h timeout w = default_stop (any_signal env) (any_status env) slp h timeout w"
    by (cases "adapter w") (auto simp: any_stop_def)
  with default_stop_takes [OF assms(1)] assms(2) show ?thesis by fastforce
qed

text \<open>C22: If every command and every system call an adapter makes returns within \<open>b\<close>, and no sleep is more than \<open>e\<close> too
  long, then stopping a daemon through the trait object, whichever adapter was selected and whatever the commands answer, returns
  after at most the timeout, five times \<open>b\<close>, a tenth of a second and \<open>e\<close>. It leaves an adapter of the same platform.\<close>

theorem stop_returns_everywhere:
  assumes "prompt env slp b e"
  shows "\<exists>r w'. any_stop env slp h timeout w = Some (r, w')
     \<and> clock w' \<le> clock w + timeout + 5 * b + from_millis 100 + e
     \<and> any_platform (adapter w') = any_platform (adapter w)"
proof -
  obtain r w' where "any_stop env slp h timeout w = Some (r, w')" "any_platform (adapter w') = any_platform (adapter w)"
    by (rule any_stop_answers)
  with any_stop_takes [OF assms] show ?thesis by blast
qed

text \<open>A system on which every command takes a second and a half and says that the daemon is running.\<close>

definition slow_system :: "(unit, unit) environment" where
  "slow_system =
     \<lparr>en_config_dir = None, en_home_dir = None, en_uid = 1000, 
      en_exec = (\<lambda>_ o'. (Ok \<lparr>out_success = True, out_code = Some 0, out_stdout = ''running'', out_stderr = ''''\<rparr>, from_millis 1500, o')),
      en_api = killed_child, en_show_id = (\<lambda>_. ''id'')\<rparr>"

lemma slow_system_prompt: "prompt slow_system (\<lambda>_ o'. (from_millis 5, o')) (from_millis 1500) (from_millis 5)"
  by (simp add: prompt_def slow_system_def killed_child_def)

theorem stop_returns_everywhere_witness:
  "\<exists>r w'. any_stop slow_system (\<lambda>_ o'. (from_millis 5, o')) (handle_container 7 ''docker'' ''abc'') (from_secs 10)
       \<lparr>clock = 3, adapter = select_adapter Os_linux slow_system 3 2 Container, os = ()\<rparr> = Some (r, w')
     \<and> clock w' \<le> 3 + from_secs 10 + 5 * from_millis 1500 + from_millis 100 + from_millis 5
     \<and> any_platform (adapter w') = Container"
  using stop_returns_everywhere [OF slow_system_prompt, of "handle_container 7 ''docker'' ''abc''" "from_secs 10"
      "\<lparr>clock = 3, adapter = select_adapter Os_linux slow_system 3 2 Container, os = ()\<rparr>"]
  by (simp add: select_adapter_def)

section \<open>Handles of other platforms\<close>

fun data_platform :: "handle_data \<Rightarrow> platform" where
  "data_platform (HSystemd _) = Linux"
| "data_platform (HLaunchd _) = MacOS"
| "data_platform (HContainer _ _) = Container"
| "data_platform (HPepita _ _) = PepitaMicroVM"
| "data_platform (HWos _) = Wos"
| "data_platform (HNative _) = Native"

lemma inside_fail: "m \<lparr>clock = clock w, adapter = s, os = os w\<rparr> = (Err e, \<lparr>clock = clock w, adapter = s, os = os w\<rparr>)
    \<Longrightarrow> adapter w = wrap s \<Longrightarrow> inside wrap s m w = (Err e, w)"
  by (cases w) (simp add: inside_def)

lemmas accessor_defs = systemd_unit_def launchd_label_def container_id_def pepita_vm_id_def vsock_cid_def handle_pid_def

lemma foreign_signal:
  assumes "data_platform (dh_data h) \<noteq> any_platform (adapter w)" "any_platform (adapter w) \<noteq> Native"
    and "(any_platform (adapter w), data_platform (dh_data h)) \<noteq> (Wos, Native)"
  shows "\<exists>e. any_signal env h sig w = (Err e, w)"
  using assms
  by (cases "adapter w"; cases "dh_data h")
    (auto simp: any_signal_def stub_fails_def act_simps sd_signal_def ld_signal_def ct_signal_def pp_signal_def wos_signal_def
      accessor_defs Let_def intro!: inside_fail)

lemma foreign_status:
  assumes "data_platform (dh_data h) \<noteq> any_platform (adapter w)" "any_platform (adapter w) \<noteq> Native"
    and "(any_platform (adapter w), data_platform (dh_data h)) \<noteq> (Wos, Native)"
  shows "\<exists>e. any_status env h w = (Err e, w)"
  using assms
  by (cases "adapter w"; cases "dh_data h")
    (auto simp: any_status_def stub_fails_def act_simps sd_status_def ld_status_def ct_status_def pp_status_def wos_status_def
      accessor_defs Let_def intro!: inside_fail)

text \<open>The second case: the WOS adapter does with a native handle what it does with its own handle of that process id.\<close>

lemma wos_accepts_native_handle:
  assumes "adapter w = AWos s"
  shows "any_signal env (handle_native i pid) sig w = any_signal env (handle_wos j pid) sig w"
    "any_status env (handle_native i pid) w = any_status env (handle_wos j pid) w"
  using assms
  by (simp_all add: any_signal_def any_status_def wos_signal_def wos_status_def handle_pid_def handle_native_def handle_wos_def
      inside_def)

text \<open>C24: An adapter given the handle of another platform refuses it before doing anything: signal, status and
  stop are errors, no command is run and nothing changes. Two cases are left out: the native adapter looks a daemon
  up by its id alone, and the WOS adapter takes the process id of a native handle for one of its own.\<close>

theorem foreign_handle_refused:
  assumes "data_platform (dh_data h) \<noteq> any_platform (adapter w)" and "any_platform (adapter w) \<noteq> Native"
    and "(any_platform (adapter w), data_platform (dh_data h)) \<noteq> (Wos, Native)"
  shows "(\<exists>e. any_signal env h sig w = (Err e, w)) \<and> (\<exists>e. any_status env h w = (Err e, w))
     \<and> (\<exists>e. any_stop env slp h timeout w = Some (Err e, w))"
proof -
  obtain e where "any_signal env h Term w = (Err e, w)" using foreign_signal [OF assms] by blast
  then have "default_stop (any_signal env) (any_status env) slp h timeout w = Some (Err e, w)"
    by (simp add: default_stop_def)
  moreover have "any_stop env slp h timeout w = default_stop (any_signal env) (any_status env) slp h timeout w"
    using assms(2) by (cases "adapter w") (simp_all add: any_stop_def)
  ultimately show ?thesis using foreign_signal [OF assms] foreign_status [OF assms] by simp
qed

text \<open>A system on which every command fails, and a container adapter on it.\<close>

definition bare_system :: "(unit, unit) environment" where
  "bare_system =
     \<lparr>en_config_dir = None, en_home_dir = None, en_uid = 1000, en_exec = lone_exec, en_api = killed_child,
      en_show_id = (\<lambda>_. ''id'')\<rparr>"

theorem foreign_handle_refused_witness:
  "\<exists>e. any_stop bare_system (\<lambda>_ o'. (0, o')) (handle_systemd 7 ''duende-web.service'') (from_secs 1)
     \<lparr>clock = 0, adapter = select_adapter Os_linux bare_system 3 2 Container, os = ()\<rparr>
   = Some (Err e, \<lparr>clock = 0, adapter = select_adapter Os_linux bare_system 3 2 Container, os = ()\<rparr>)"
  using foreign_handle_refused [of "handle_systemd 7 ''duende-web.service''"
      "\<lparr>clock = 0, adapter = select_adapter Os_linux bare_system 3 2 Container, os = ()\<rparr>" bare_system]
  by (simp add: select_adapter_def handle_systemd_def)

section \<open>Handles of spawned daemons\<close>

text \<open>Starting a daemon through the trait object. What only spawning asks of the outside: the host, whether
  \<open>/dev/kvm\<close> exists, and the files of launchd.\<close>

record 'w spawn_site =
  ss_host :: host
  ss_kvm :: bool
  ss_fs :: "'w plist_fs"

definition any_spawn ::
  "'w spawn_site \<Rightarrow> ('c, 'w) environment \<Rightarrow> daemon_id \<Rightarrow> string \<Rightarrow> (daemon_handle, 'c any_adapter, 'w) action" where
  "any_spawn site env i name w =
     (case adapter w of
        ASystemd a \<Rightarrow> sd_spawn a (en_exec env) i name w
      | ASystemdStub \<Rightarrow> stub_fails Linux ''spawn'' w
      | ALaunchd a \<Rightarrow> ld_spawn a (en_uid env) (ss_fs site) (en_exec env) i name w
      | ALaunchdStub \<Rightarrow> stub_fails MacOS ''spawn'' w
      | AContainer a \<Rightarrow> ct_spawn a (en_exec env) i name w
      | APepita s \<Rightarrow> inside APepita s (pp_spawn (ss_kvm site) (en_exec env) i name) w
      | AWos s \<Rightarrow> inside AWos s (wos_spawn (ss_host site) (en_exec env) i name) w
      | ANative s \<Rightarrow> inside ANative s (native_spawn (en_api env) i) w)"

text \<open>A handle is well typed when its platform is that of its data.\<close>

definition handle_of :: "platform \<Rightarrow> daemon_id \<Rightarrow> daemon_handle \<Rightarrow> bool" where
  "handle_of p i h \<longleftrightarrow> dh_id h = i \<and> dh_platform h = p \<and> data_platform (dh_data h) = p"

lemma handle_of_constructors:
  "handle_of Linux i (handle_systemd i u)" "handle_of MacOS i (handle_launchd i l)"
  "handle_of Container i (handle_container i r c)" "handle_of PepitaMicroVM i (handle_pepita i v n)"
  "handle_of Wos i (handle_wos i pid)" "handle_of Native i (handle_native i pid)"
  by (simp_all add: handle_of_def handle_systemd_def handle_launchd_def handle_container_def handle_pepita_def
      handle_wos_def handle_native_def)

lemma returning_spawns:
  "returning (handle_of Linux i) (sd_spawn a exec i name)"
  "returning (handle_of MacOS i) (ld_spawn b uid fs exec i name)"
  "returning (handle_of Container i) (ct_spawn c exec i name)"
  "returning (handle_of PepitaMicroVM i) (pp_spawn kvm exec i name)"
  "returning (handle_of Wos i) (wos_spawn hst exec i name)"
  "returning (handle_of Native i) (native_spawn api i)"
  unfolding sd_spawn_def ld_spawn_def ct_spawn_def pp_spawn_def wos_spawn_def native_spawn_def Let_def
  by (intro returning_intro handle_of_constructors)+

lemma inside_result: "fst (inside wrap s m w) = fst (m \<lparr>clock = clock w, adapter = s, os = os w\<rparr>)"
  by (simp add: inside_def split: prod.split)

text \<open>C23: A handle an adapter returns from \<open>spawn\<close> is for the daemon it was asked to start, of the adapter's own platform, and
  holds that platform's data: the handle the adapter's other methods take.\<close>

theorem spawned_handle_is_typed:
  assumes "fst (any_spawn site env i name w) = Ok h"
  shows "handle_of (any_platform (adapter w)) i h"
  using assms returning_spawns
  by (cases "adapter w")
    (auto simp: any_spawn_def stub_fails_def act_fail_def inside_result elim!: returningD [rotated])

definition wasm_site :: "unit spawn_site" where
  "wasm_site =
     \<lparr>ss_host = wos_host, ss_kvm = False,
      ss_fs = \<lparr>pf_create_dir_all = (\<lambda>p o'. (Ok (), 0, o')), pf_write = (\<lambda>p t o'. (Ok (), 0, o')), pf_remove = (\<lambda>p o'. ((), 0, o'))\<rparr>\<rparr>"

theorem spawned_handle_is_typed_witness:
  "handle_of Wos 7 (handle_wos 7 2)"
proof -
  let ?w = "\<lparr>clock = 0, adapter = select_adapter Os_linux bare_system 3 2 Wos, os = ()\<rparr>"
  have "fst (any_spawn wasm_site bare_system 7 ''d'' ?w) = Ok (handle_wos 7 2)"
    using wos_spawn_local(1) [OF no_ctl_lone wos_host_env, of 7 "''d''" "\<lparr>clock = 0, adapter = wos_new 2, os = ()\<rparr>"]
    by (simp add: any_spawn_def select_adapter_def inside_result wasm_site_def bare_system_def wos_new_def)
  from spawned_handle_is_typed [OF this] show ?thesis by (simp add: select_adapter_def)
qed

section \<open>The signal tables\<close>

text \<open>The adapters agree on signals. systemd and the container runtimes get the same name, the pepita and WOS
  tools the number of the shared table, the native adapter the same signal of the \<open>nix\<close> crate; launchd's numbers
  are macOS's own, which differ from the shared table exactly for the two user signals, \<open>Stop\<close> and \<open>Cont\<close>.
  In every table different signals stay different.\<close>

theorem signal_tables_agree:
  "sd_signal_name s = ct_signal_name s \<and> pp_signal_number s = signal_as_i32 s \<and> wos_signal_number s = signal_as_i32 s
   \<and> (ld_signal_number s = signal_as_i32 s) = (s \<notin> {Usr1, Usr2, Stop, Cont})
   \<and> (sd_signal_name s = sd_signal_name t) = (s = t) \<and> (ld_signal_number s = ld_signal_number t) = (s = t)
   \<and> (nix_signal_of s = nix_signal_of t) = (s = t) \<and> signal_from_i32 (wos_signal_number s) = Some s"
  by (cases s; cases t) (simp_all add: signal_as_i32_def signal_from_i32_def)

end
