(* ===== verification/Policy_Jidoka.thy ===== *)
theory Policy_Jidoka
  imports Prelude
begin

text \<open>
  The Jidoka gate, \<open>crates/duende-policy/src/jidoka.rs\<close>: checks run in order over the evidence,
  stopping at the first violation or collecting them all, with a recommendation per kind of
  violation. A check is the function its \<open>verify\<close> is.
\<close>

section \<open>Data\<close>

record check_item =
  ci_name :: string
  ci_passed :: bool
  ci_message :: "string option"

type_synonym evidence = "check_item list"

datatype violation_kind = Invariant | Precondition | Postcondition | ResourceLeak | Timeout

record jidoka_violation =
  jv_check_name :: string
  jv_kind :: violation_kind
  jv_description :: string

datatype jidoka_result = Pass | StopLine "jidoka_violation list" string

type_synonym jidoka_check = "evidence \<Rightarrow> jidoka_violation option"

record jidoka_gate =
  jg_checks :: "jidoka_check list"
  jg_stop_on_first :: bool

definition evidence_add :: "string \<Rightarrow> bool \<Rightarrow> string option \<Rightarrow> evidence \<Rightarrow> evidence" where
  "evidence_add name passed message ev =
     ev @ [\<lparr>ci_name = name, ci_passed = passed, ci_message = message\<rparr>]"

definition evidence_all_passed :: "evidence \<Rightarrow> bool" where
  "evidence_all_passed ev \<longleftrightarrow> list_all ci_passed ev"

definition jidoka_new :: "bool \<Rightarrow> jidoka_gate" where
  "jidoka_new stop_on_first = \<lparr>jg_checks = [], jg_stop_on_first = stop_on_first\<rparr>"

definition add_check :: "jidoka_check \<Rightarrow> jidoka_gate \<Rightarrow> jidoka_gate" where
  "add_check c g = g\<lparr>jg_checks := jg_checks g @ [c]\<rparr>"

fun jidoka_passed :: "jidoka_result \<Rightarrow> bool" where
  "jidoka_passed Pass = True"
| "jidoka_passed (StopLine _ _) = False"

section \<open>Checking\<close>

fun join_with :: "string \<Rightarrow> string list \<Rightarrow> string" where
  "join_with sep [] = []"
| "join_with sep [x] = x"
| "join_with sep (x # xs) = x @ sep @ join_with sep xs"

fun advice :: "violation_kind \<Rightarrow> string" where
  "advice Invariant = ''Review invariant conditions and add assertions''"
| "advice Precondition = ''Validate inputs at function boundaries''"
| "advice Postcondition = ''Verify outputs meet expected conditions''"
| "advice ResourceLeak = ''Ensure resources are properly cleaned up (RAII pattern)''"
| "advice Timeout = ''Add timeout handling and circuit breakers''"

text \<open>\<open>Vec::dedup\<close> drops an element equal to the one before it.\<close>

definition recommend :: "jidoka_violation list \<Rightarrow> string" where
  "recommend violations =
     (if violations = [] then []
      else join_with ''; '' (remdups_adj (map (advice \<circ> jv_kind) violations)))"

fun check_loop :: "bool \<Rightarrow> evidence \<Rightarrow> jidoka_check list \<Rightarrow> jidoka_violation list \<Rightarrow> jidoka_result" where
  "check_loop stop ev [] violations =
     (if violations = [] then Pass else StopLine violations (recommend violations))"
| "check_loop stop ev (c # cs) violations =
     (case c ev of
        Some v \<Rightarrow>
          (let violations = violations @ [v]
           in if stop then StopLine violations (recommend violations)
              else check_loop stop ev cs violations)
      | None \<Rightarrow> check_loop stop ev cs violations)"

definition jidoka_check_evidence :: "jidoka_gate \<Rightarrow> evidence \<Rightarrow> jidoka_result" where
  "jidoka_check_evidence g ev = check_loop (jg_stop_on_first g) ev (jg_checks g) []"

section \<open>Facts\<close>

abbreviation found :: "evidence \<Rightarrow> jidoka_check list \<Rightarrow> jidoka_violation list" where
  "found ev cs \<equiv> List.map_filter (\<lambda>c. c ev) cs"

lemma check_loop_all:
  "check_loop False ev cs vs =
     (let all = vs @ found ev cs in if all = [] then Pass else StopLine all (recommend all))"
  by (induction cs arbitrary: vs) (auto simp: map_filter_simps Let_def split: option.split)

lemma check_loop_first:
  "check_loop True ev cs [] =
     (case found ev cs of [] \<Rightarrow> Pass | v # _ \<Rightarrow> StopLine [v] (recommend [v]))"
  by (induction cs) (auto simp: map_filter_simps Let_def split: option.split)

text \<open>The gate passes exactly when no check finds a violation. Otherwise it stops the line with the
  first violation in the order the checks were added, or with all of them in that order, as it
  was configured; checks added later never remove a stop.\<close>

theorem jidoka_reports_violations:
  "jidoka_check_evidence g ev =
     (case found ev (jg_checks g) of
        [] \<Rightarrow> Pass
      | v # vs \<Rightarrow> (let report = if jg_stop_on_first g then [v] else v # vs
                  in StopLine report (recommend report)))
   \<and> (jidoka_passed (jidoka_check_evidence (add_check c g) ev) \<longleftrightarrow>
        jidoka_passed (jidoka_check_evidence g ev) \<and> c ev = None)"
proof -
  have eq: "jidoka_check_evidence g ev =
     (case found ev (jg_checks g) of
        [] \<Rightarrow> Pass
      | v # vs \<Rightarrow> (let report = if jg_stop_on_first g then [v] else v # vs
                  in StopLine report (recommend report)))" for g
    by (cases "jg_stop_on_first g")
      (auto simp: jidoka_check_evidence_def check_loop_all check_loop_first Let_def split: list.split)
  have passed: "jidoka_passed (jidoka_check_evidence g ev) \<longleftrightarrow> found ev (jg_checks g) = []" for g
    by (simp add: eq Let_def split: list.split)
  have "found ev (jg_checks (add_check c g)) = found ev (jg_checks g) @ found ev [c]"
    by (simp add: add_check_def List.map_filter_def)
  then have "found ev (jg_checks (add_check c g)) = [] \<longleftrightarrow> found ev (jg_checks g) = [] \<and> c ev = None"
    by (auto simp: map_filter_simps split: option.split)
  then show ?thesis unfolding passed using eq [of g] by simp
qed

definition always :: "violation_kind \<Rightarrow> jidoka_check" where
  "always k ev = Some \<lparr>jv_check_name = ''c'', jv_kind = k, jv_description = ''d''\<rparr>"

text \<open>A recommendation is repeated when another kind of violation stands between two of its kind:
  only neighbouring duplicates are removed.\<close>

theorem recommendation_repeats:
  "jidoka_check_evidence
     (add_check (always Timeout) (add_check (always Precondition) (add_check (always Timeout) (jidoka_new False)))) []
   = StopLine (map (\<lambda>k. \<lparr>jv_check_name = ''c'', jv_kind = k, jv_description = ''d''\<rparr>)
                 [Timeout, Precondition, Timeout])
       (advice Timeout @ ''; '' @ advice Precondition @ ''; '' @ advice Timeout)"
  by (simp add: jidoka_check_evidence_def add_check_def jidoka_new_def always_def recommend_def Let_def)

end
