(* ===== verification/Policy_Gate.thy ===== *)
theory Policy_Gate
  imports F64
begin

text \<open>
  The quality gate, \<open>crates/duende-policy/src/gate.rs\<close>: four thresholds, checked in order, every
  breach reported.
\<close>

record gate_config =
  gc_max_complexity :: u32
  gc_satd_tolerance :: u32
  gc_dead_code_max_percent :: f64
  gc_min_quality_score :: f64

definition gate_default :: gate_config where
  "gate_default =
     \<lparr>gc_max_complexity = 20, gc_satd_tolerance = 0, gc_dead_code_max_percent = Fin 10,
      gc_min_quality_score = Fin 80\<rparr>"

record quality_analysis =
  qa_max_complexity :: u32
  qa_complexity_hotspot :: "string option"
  qa_satd_count :: u32
  qa_dead_code_percent :: f64
  qa_quality_score :: f64

datatype quality_violation =
    Complexity u32 u32 "string option"
  | TechnicalDebt u32 u32
  | DeadCode f64 f64
  | QualityScore f64 f64

datatype gate_result = Passed | FailedGate "quality_violation list"

fun gate_passed :: "gate_result \<Rightarrow> bool" where
  "gate_passed Passed = True"
| "gate_passed (FailedGate _) = False"

definition gate_analyze :: "gate_config \<Rightarrow> quality_analysis \<Rightarrow> ('e, gate_result) outcome" where
  "gate_analyze c a =
     (let violations = [];
          violations =
            (if gc_max_complexity c < qa_max_complexity a
             then violations @ [Complexity (qa_max_complexity a) (gc_max_complexity c) (qa_complexity_hotspot a)]
             else violations);
          violations =
            (if gc_satd_tolerance c < qa_satd_count a
             then violations @ [TechnicalDebt (qa_satd_count a) (gc_satd_tolerance c)]
             else violations);
          violations =
            (if f_gt (qa_dead_code_percent a) (gc_dead_code_max_percent c)
             then violations @ [DeadCode (qa_dead_code_percent a) (gc_dead_code_max_percent c)]
             else violations);
          violations =
            (if f_lt (qa_quality_score a) (gc_min_quality_score c)
             then violations @ [QualityScore (qa_quality_score a) (gc_min_quality_score c)]
             else violations)
      in if violations = [] then Ok Passed else Ok (FailedGate violations))"

text \<open>Analyses that are no worse in any respect: worse is more complexity, debt or dead code, or a lower score.\<close>

definition no_worse :: "quality_analysis \<Rightarrow> quality_analysis \<Rightarrow> bool" where
  "no_worse a b \<longleftrightarrow>
     qa_max_complexity a \<le> qa_max_complexity b \<and> qa_satd_count a \<le> qa_satd_count b
     \<and> f_le (qa_dead_code_percent a) (qa_dead_code_percent b)
     \<and> f_le (qa_quality_score b) (qa_quality_score a)"

lemma gate_passes_iff:
  "gate_analyze c a = Ok Passed \<longleftrightarrow>
     qa_max_complexity a \<le> gc_max_complexity c \<and> qa_satd_count a \<le> gc_satd_tolerance c
     \<and> \<not> f_gt (qa_dead_code_percent a) (gc_dead_code_max_percent c)
     \<and> \<not> f_lt (qa_quality_score a) (gc_min_quality_score c)"
  by (auto simp: gate_analyze_def Let_def)

lemma f_lt_le_trans: "f_lt x y \<Longrightarrow> f_le y z \<Longrightarrow> f_lt x z"
  by (cases x; cases y; cases z) auto

lemma f_le_lt_trans: "f_le x y \<Longrightarrow> f_lt y z \<Longrightarrow> f_lt x z"
  by (cases x; cases y; cases z) auto

text \<open>The gate passes exactly when the analysis is within all four thresholds (no comparison with
  NaN is a breach) and otherwise reports at least one breach; it is never an error. It is
  monotone: an analysis that is no worse than a passing one passes.\<close>

theorem gate_is_exact_and_monotone:
  assumes "no_worse a b"
  shows "(gate_analyze c b = (Ok Passed :: ('e, _) outcome) \<longleftrightarrow>
        qa_max_complexity b \<le> gc_max_complexity c \<and> qa_satd_count b \<le> gc_satd_tolerance c
        \<and> \<not> f_gt (qa_dead_code_percent b) (gc_dead_code_max_percent c)
        \<and> \<not> f_lt (qa_quality_score b) (gc_min_quality_score c))
    \<and> (gate_analyze c b = (Ok Passed :: ('e, _) outcome)
        \<longrightarrow> gate_analyze c a = (Ok Passed :: ('e, _) outcome))
    \<and> gate_analyze c a \<in> insert (Ok Passed :: ('e, _) outcome) {Ok (FailedGate vs) | vs. vs \<noteq> []}"
proof (intro conjI impI)
  show "gate_analyze c a = (Ok Passed :: ('e, _) outcome)"
    if "gate_analyze c b = (Ok Passed :: ('e, _) outcome)"
    using that assms unfolding gate_passes_iff no_worse_def
    by (auto dest: f_le_lt_trans f_lt_le_trans intro: order_trans)
  show "gate_analyze c a \<in> insert (Ok Passed :: ('e, _) outcome) {Ok (FailedGate vs) | vs. vs \<noteq> []}"
    by (simp add: gate_analyze_def Let_def)
qed (rule gate_passes_iff)

theorem gate_is_exact_and_monotone_witness:
  "gate_analyze gate_default
     \<lparr>qa_max_complexity = 10, qa_complexity_hotspot = None, qa_satd_count = 0,
      qa_dead_code_percent = Fin 5, qa_quality_score = Fin 90\<rparr> = (Ok Passed :: (unit, _) outcome)"
proof -
  let ?a = "\<lparr>qa_max_complexity = 10, qa_complexity_hotspot = None, qa_satd_count = 0,
      qa_dead_code_percent = Fin 5, qa_quality_score = Fin 90\<rparr> :: quality_analysis"
  have "no_worse ?a ?a" by (simp add: no_worse_def)
  from gate_is_exact_and_monotone [OF this, of gate_default, where 'e = unit]
  show ?thesis by (simp add: gate_default_def)
qed

end
