(* ===== verification/Policy_Limiter.thy ===== *)
theory Policy_Limiter
  imports F64 Rust_Text
begin

text \<open>
  Resource limits through cgroups v2, \<open>crates/duende-policy/src/limiter.rs\<close> (the Linux code). The
  file system is an argument: \<open>fs_ops\<close> holds the operations the code calls, on a state \<open>'f\<close>; their
  errors are the texts the code prints. \<open>logged\<close> wraps a file system so that the attempted writes
  can be read off.
\<close>

section \<open>State and operations\<close>

record resource_limits =
  rl_memory_bytes :: u64
  rl_memory_swap_bytes :: u64
  rl_cpu_quota_percent :: f64
  rl_cpu_period_us :: u64
  rl_io_read_bps :: u64
  rl_io_write_bps :: u64
  rl_pids_max :: u64

definition limits_default :: resource_limits where
  "limits_default =
     \<lparr>rl_memory_bytes = 512 * 1024 * 1024, rl_memory_swap_bytes = 1024 * 1024 * 1024,
      rl_cpu_quota_percent = Fin 100, rl_cpu_period_us = 100000, rl_io_read_bps = 0,
      rl_io_write_bps = 0, rl_pids_max = 100\<rparr>"

definition with_memory :: "u64 \<Rightarrow> resource_limits \<Rightarrow> resource_limits" where
  "with_memory bytes c = c\<lparr>rl_memory_bytes := bytes\<rparr>"

definition with_cpu :: "f64 \<Rightarrow> resource_limits \<Rightarrow> resource_limits" where
  "with_cpu percent c = c\<lparr>rl_cpu_quota_percent := percent\<rparr>"

definition with_pids :: "u64 \<Rightarrow> resource_limits \<Rightarrow> resource_limits" where
  "with_pids pids c = c\<lparr>rl_pids_max := pids\<rparr>"

definition with_io :: "u64 \<Rightarrow> u64 \<Rightarrow> resource_limits \<Rightarrow> resource_limits" where
  "with_io read_bps write_bps c = c\<lparr>rl_io_read_bps := read_bps, rl_io_write_bps := write_bps\<rparr>"

record resource_limiter =
  lim_limits :: resource_limits
  lim_cgroup_prefix :: string
  lim_cgroup_base :: string

definition limiter_new :: "resource_limits \<Rightarrow> resource_limiter" where
  "limiter_new limits =
     \<lparr>lim_limits = limits, lim_cgroup_prefix = ''duende'', lim_cgroup_base = ''/sys/fs/cgroup''\<rparr>"

definition with_cgroup_prefix :: "string \<Rightarrow> resource_limiter \<Rightarrow> resource_limiter" where
  "with_cgroup_prefix pre c = c\<lparr>lim_cgroup_prefix := pre\<rparr>"

definition with_cgroup_base :: "string \<Rightarrow> resource_limiter \<Rightarrow> resource_limiter" where
  "with_cgroup_base base c = c\<lparr>lim_cgroup_base := base\<rparr>"

datatype policy_error =
    CircuitOpen
  | GateFailed string
  | ResourceLimit string
  | JidokaViolation string
  | PolicyIo string

record 'f fs_ops =
  fs_exists :: "string \<Rightarrow> 'f \<Rightarrow> bool"
  fs_create_dir_all :: "string \<Rightarrow> 'f \<Rightarrow> (string, unit) outcome \<times> 'f"
  fs_write :: "string \<Rightarrow> string \<Rightarrow> 'f \<Rightarrow> (string, unit) outcome \<times> 'f"
  fs_read :: "string \<Rightarrow> 'f \<Rightarrow> (string, string) outcome"
  fs_remove_dir :: "string \<Rightarrow> 'f \<Rightarrow> (string, unit) outcome \<times> 'f"

type_synonym ('a, 'f) fs_action = "'f \<Rightarrow> (policy_error, 'a) outcome \<times> 'f"

definition fs_bind :: "(unit, 'f) fs_action \<Rightarrow> (unit, 'f) fs_action \<Rightarrow> (unit, 'f) fs_action" where
  "fs_bind m k f = (case m f of (Ok _, f') \<Rightarrow> k f' | (Err e, f') \<Rightarrow> (Err e, f') | (Panic, f') \<Rightarrow> (Panic, f'))"

text \<open>\<open>.map_err(..)?\<close> on a file-system result.\<close>

definition or_error ::
  "(string \<Rightarrow> string) \<Rightarrow> ('f \<Rightarrow> (string, unit) outcome \<times> 'f) \<Rightarrow> (unit, 'f) fs_action" where
  "or_error msg m f =
     (case m f of
        (Ok _, f') \<Rightarrow> (Ok (), f')
      | (Err e, f') \<Rightarrow> (Err (ResourceLimit (msg e)), f')
      | (Panic, f') \<Rightarrow> (Panic, f'))"

definition cgroup_path :: "resource_limiter \<Rightarrow> u32 \<Rightarrow> string" where
  "cgroup_path l pid = path_join (lim_cgroup_base l) (lim_cgroup_prefix l @ ''-'' @ show_word pid)"

definition quota_us :: "resource_limits \<Rightarrow> u64" where
  "quota_us r = f_to_u64
     (f_mul (f_div (rl_cpu_quota_percent r) (Fin 100)) (f_of_word (rl_cpu_period_us r)))"

definition cpu_max_value :: "resource_limits \<Rightarrow> string" where
  "cpu_max_value r = show_word (quota_us r) @ '' '' @ show_word (rl_cpu_period_us r)"

text \<open>One of the four limits: written when it is set and the controller's file is there.\<close>

definition apply_one :: "'f fs_ops \<Rightarrow> string \<Rightarrow> bool \<Rightarrow> string \<Rightarrow> string \<Rightarrow> (unit, 'f) fs_action" where
  "apply_one io dir is_set file value f =
     (if is_set \<and> fs_exists io (path_join dir file) f
      then or_error (\<lambda>e. ''failed to set '' @ file @ '': '' @ e) (fs_write io (path_join dir file) value) f
      else (Ok (), f))"

definition limits_apply :: "'f fs_ops \<Rightarrow> resource_limiter \<Rightarrow> u32 \<Rightarrow> (unit, 'f) fs_action" where
  "limits_apply io l pid =
     (let r = lim_limits l; dir = cgroup_path l pid in
      fs_bind
        (\<lambda>f. if fs_exists io dir f then (Ok (), f)
             else or_error (\<lambda>e. ''failed to create cgroup '' @ dir @ '': '' @ e
                    @ '' (requires root or cgroup delegation)'') (fs_create_dir_all io dir) f)
        (fs_bind (apply_one io dir (0 < rl_memory_bytes r) ''memory.max'' (show_word (rl_memory_bytes r)))
        (fs_bind (apply_one io dir (0 < rl_memory_swap_bytes r) ''memory.swap.max''
                    (show_word (rl_memory_swap_bytes r)))
        (fs_bind (apply_one io dir (f_gt (rl_cpu_quota_percent r) (Fin 0)) ''cpu.max'' (cpu_max_value r))
        (fs_bind (apply_one io dir (0 < rl_pids_max r) ''pids.max'' (show_word (rl_pids_max r)))
           (or_error (\<lambda>e. ''failed to move pid '' @ show_word pid @ '' to cgroup: '' @ e)
              (fs_write io (path_join dir ''cgroup.procs'') (show_word pid))))))))"

definition procs_to_move :: "string \<Rightarrow> u32 list" where
  "procs_to_move procs = List.map_filter (\<lambda>line. parse_u32 (trim line)) (lines procs)"

definition move_to_parent :: "'f fs_ops \<Rightarrow> resource_limiter \<Rightarrow> string \<Rightarrow> 'f \<Rightarrow> 'f" where
  "move_to_parent io l procs f =
     (if trim procs = [] then f
      else fold (\<lambda>p f. snd (fs_write io (path_join (lim_cgroup_base l) ''cgroup.procs'') (show_word p) f))
             (procs_to_move procs) f)"

definition limits_remove :: "'f fs_ops \<Rightarrow> resource_limiter \<Rightarrow> u32 \<Rightarrow> (unit, 'f) fs_action" where
  "limits_remove io l pid f =
     (let dir = cgroup_path l pid in
      if fs_exists io dir f then
        (let f = (case fs_read io (path_join dir ''cgroup.procs'') f of
                    Ok procs \<Rightarrow> move_to_parent io l procs f
                  | _ \<Rightarrow> f)
         in or_error (\<lambda>e. ''failed to remove cgroup: '' @ e) (fs_remove_dir io dir) f)
      else (Ok (), f))"

definition cgroups_v2_available :: "'f fs_ops \<Rightarrow> resource_limiter \<Rightarrow> 'f \<Rightarrow> bool" where
  "cgroups_v2_available io l f = fs_exists io (path_join (lim_cgroup_base l) ''cgroup.controllers'') f"

text \<open>The bodies for targets other than Linux touch nothing.\<close>

definition limits_apply_elsewhere :: "resource_limiter \<Rightarrow> u32 \<Rightarrow> (unit, unit) outcome" where
  "limits_apply_elsewhere l pid = Ok ()"

definition limits_remove_elsewhere :: "resource_limiter \<Rightarrow> u32 \<Rightarrow> (unit, unit) outcome" where
  "limits_remove_elsewhere l pid = Ok ()"

definition cgroups_v2_available_elsewhere :: "resource_limiter \<Rightarrow> bool" where
  "cgroups_v2_available_elsewhere l = False"

definition set_limits :: "resource_limits \<Rightarrow> resource_limiter \<Rightarrow> resource_limiter" where
  "set_limits r l = l\<lparr>lim_limits := r\<rparr>"

section \<open>Limits before admission\<close>

text \<open>The log: path, text, and whether the write succeeded.\<close>

type_synonym write_log = "((string \<times> string) \<times> bool) list"

definition logged :: "'f fs_ops \<Rightarrow> ('f \<times> write_log) fs_ops" where
  "logged io =
     \<lparr>fs_exists = (\<lambda>p f. fs_exists io p (fst f)),
      fs_create_dir_all = (\<lambda>p f. case fs_create_dir_all io p (fst f) of (r, g) \<Rightarrow> (r, g, snd f)),
      fs_write = (\<lambda>p v f. case fs_write io p v (fst f) of (r, g) \<Rightarrow> (r, g, snd f @ [((p, v), is_ok r)])),
      fs_read = (\<lambda>p f. fs_read io p (fst f)),
      fs_remove_dir = (\<lambda>p f. case fs_remove_dir io p (fst f) of (r, g) \<Rightarrow> (r, g, snd f))\<rparr>"

text \<open>The limits that are set, in order; a controller whose file is missing is left out.\<close>

definition limit_writes :: "resource_limiter \<Rightarrow> u32 \<Rightarrow> (string \<times> string) list" where
  "limit_writes l pid =
     (let r = lim_limits l; dir = cgroup_path l pid in
      map snd (filter fst
        [(0 < rl_memory_bytes r, path_join dir ''memory.max'', show_word (rl_memory_bytes r)),
         (0 < rl_memory_swap_bytes r, path_join dir ''memory.swap.max'', show_word (rl_memory_swap_bytes r)),
         (f_gt (rl_cpu_quota_percent r) (Fin 0), path_join dir ''cpu.max'', cpu_max_value r),
         (0 < rl_pids_max r, path_join dir ''pids.max'', show_word (rl_pids_max r))]))"

definition admission :: "resource_limiter \<Rightarrow> u32 \<Rightarrow> string \<times> string" where
  "admission l pid = (path_join (cgroup_path l pid) ''cgroup.procs'', show_word pid)"

text \<open>The specification: each limit is tried in its turn, and found to have no controller file then, written, or refused, which
  ends it.\<close>

datatype trial = Missing | Written | Refused

fun try_limits ::
  "'f fs_ops \<Rightarrow> (string \<times> string) list \<Rightarrow> 'f \<Rightarrow> bool \<times> 'f \<times> ((string \<times> string) \<times> trial) list" where
  "try_limits io [] f = (True, f, [])"
| "try_limits io (w # ws) f =
     (if \<not> fs_exists io (fst w) f then
        (case try_limits io ws f of (ok, g, ts) \<Rightarrow> (ok, g, (w, Missing) # ts))
      else (case fs_write io (fst w) (snd w) f of
          (r, g) \<Rightarrow>
            if is_ok r then (case try_limits io ws g of (ok, h, ts) \<Rightarrow> (ok, h, (w, Written) # ts))
            else (False, g, [(w, Refused)])))"

definition make_dir :: "'f fs_ops \<Rightarrow> string \<Rightarrow> 'f \<Rightarrow> bool \<times> 'f" where
  "make_dir io dir f =
     (if fs_exists io dir f then (True, f) else (case fs_create_dir_all io dir f of (r, g) \<Rightarrow> (is_ok r, g)))"

definition attempted :: "((string \<times> string) \<times> trial) list \<Rightarrow> write_log" where
  "attempted ts = map (\<lambda>(w, t). (w, t = Written)) (filter (\<lambda>(w, t). t \<noteq> Missing) ts)"

lemma attempted_simps [simp]:
  "attempted [] = []"
  "attempted ((w, t) # ts) = (if t = Missing then attempted ts else (w, t = Written) # attempted ts)"
  "attempted (ts @ us) = attempted ts @ attempted us"
  by (simp_all add: attempted_def)

lemma try_limits_append:
  "try_limits io (ws @ vs) f =
     (case try_limits io ws f of
        (True, g, ts) \<Rightarrow> (case try_limits io vs g of (ok, h, us) \<Rightarrow> (ok, h, ts @ us))
      | (False, g, ts) \<Rightarrow> (False, g, ts))"
  by (induction ws arbitrary: f) (auto split: prod.split bool.split)

lemma try_limits_all:
  "try_limits io ws f = (True, h, ts) \<Longrightarrow> map fst ts = ws \<and> list_all (\<lambda>t. snd t \<noteq> Refused) ts"
  by (induction ws arbitrary: f h ts) (auto split: if_splits prod.splits)

text \<open>An action that tries the writes \<open>ws\<close>, and succeeds when none is refused.\<close>

definition tries :: "'f fs_ops \<Rightarrow> (unit, 'f \<times> write_log) fs_action \<Rightarrow> (string \<times> string) list \<Rightarrow> bool" where
  "tries io m ws \<longleftrightarrow>
     (\<forall>f lg. case try_limits io ws f of (ok, g, ts) \<Rightarrow> \<exists>r. m (f, lg) = (r, g, lg @ attempted ts) \<and> (r = Ok () \<longleftrightarrow> ok))"

lemma triesD:
  assumes "tries io m ws" "try_limits io ws f = (ok, g, ts)"
  obtains r where "m (f, lg) = (r, g, lg @ attempted ts)" "r = Ok () \<longleftrightarrow> ok"
proof -
  have "case try_limits io ws f of (ok, g, ts) \<Rightarrow> \<exists>r. m (f, lg) = (r, g, lg @ attempted ts) \<and> (r = Ok () \<longleftrightarrow> ok)"
    using assms(1) unfolding tries_def by (elim allE)
  with assms(2) that show thesis by auto
qed

lemma tries_bind:
  assumes "tries io m ws" "tries io k vs"
  shows "tries io (fs_bind m k) (ws @ vs)"
  unfolding tries_def
proof (intro allI)
  fix f and lg :: write_log
  obtain ok g ts where t: "try_limits io ws f = (ok, g, ts)" by (cases "try_limits io ws f")
  obtain r where m: "m (f, lg) = (r, g, lg @ attempted ts)" "r = Ok () \<longleftrightarrow> ok" by (rule triesD [OF assms(1) t])
  show "case try_limits io (ws @ vs) f of (ok, g, ts) \<Rightarrow>
      \<exists>r. fs_bind m k (f, lg) = (r, g, lg @ attempted ts) \<and> (r = Ok () \<longleftrightarrow> ok)"
  proof (cases ok)
    case True
    obtain ok' h us where u: "try_limits io vs g = (ok', h, us)" by (cases "try_limits io vs g")
    obtain r' where "k (g, lg @ attempted ts) = (r', h, (lg @ attempted ts) @ attempted us)" "r' = Ok () \<longleftrightarrow> ok'"
      by (rule triesD [OF assms(2) u])
    with True m t u show ?thesis by (simp add: try_limits_append fs_bind_def)
  next
    case False
    with m t show ?thesis by (cases r) (simp_all add: try_limits_append fs_bind_def)
  qed
qed

lemma tries_one:
  "tries io (apply_one (logged io) dir b file v) (map snd (filter fst [(b, path_join dir file, v)]))"
  unfolding tries_def
proof (intro allI)
  fix f and lg :: write_log
  obtain r g where "fs_write io (path_join dir file) v f = (r, g)" by (cases "fs_write io (path_join dir file) v f")
  then show "case try_limits io (map snd (filter fst [(b, path_join dir file, v)])) f of (ok, g, ts) \<Rightarrow>
      \<exists>r. apply_one (logged io) dir b file v (f, lg) = (r, g, lg @ attempted ts) \<and> (r = Ok () \<longleftrightarrow> ok)"
    by (cases r; cases b; cases "fs_exists io (path_join dir file) f") (auto simp: apply_one_def or_error_def logged_def)
qed

lemma fs_bind_assoc: "fs_bind (fs_bind m k) n = fs_bind m (fs_bind k n)"
  by (rule ext) (auto simp: fs_bind_def split: prod.split outcome.split)

definition make_cgroup :: "'f fs_ops \<Rightarrow> string \<Rightarrow> (unit, 'f) fs_action" where
  "make_cgroup io dir f =
     (if fs_exists io dir f then (Ok (), f)
      else or_error (\<lambda>e. ''failed to create cgroup '' @ dir @ '': '' @ e
             @ '' (requires root or cgroup delegation)'') (fs_create_dir_all io dir) f)"

definition set_controllers :: "'f fs_ops \<Rightarrow> resource_limiter \<Rightarrow> u32 \<Rightarrow> (unit, 'f) fs_action" where
  "set_controllers io l pid =
     (let r = lim_limits l; dir = cgroup_path l pid in
      fs_bind (apply_one io dir (0 < rl_memory_bytes r) ''memory.max'' (show_word (rl_memory_bytes r)))
        (fs_bind (apply_one io dir (0 < rl_memory_swap_bytes r) ''memory.swap.max''
                    (show_word (rl_memory_swap_bytes r)))
        (fs_bind (apply_one io dir (f_gt (rl_cpu_quota_percent r) (Fin 0)) ''cpu.max'' (cpu_max_value r))
          (apply_one io dir (0 < rl_pids_max r) ''pids.max'' (show_word (rl_pids_max r))))))"

definition admit :: "'f fs_ops \<Rightarrow> resource_limiter \<Rightarrow> u32 \<Rightarrow> (unit, 'f) fs_action" where
  "admit io l pid = or_error (\<lambda>e. ''failed to move pid '' @ show_word pid @ '' to cgroup: '' @ e)
     (fs_write io (path_join (cgroup_path l pid) ''cgroup.procs'') (show_word pid))"

lemma limits_apply_split:
  "limits_apply io l pid = fs_bind (make_cgroup io (cgroup_path l pid)) (fs_bind (set_controllers io l pid) (admit io l pid))"
  by (simp add: limits_apply_def set_controllers_def admit_def make_cgroup_def [abs_def] Let_def fs_bind_assoc)

lemma make_cgroup_logged:
  "make_dir io dir f = (made, g) \<Longrightarrow> \<exists>r. make_cgroup (logged io) dir (f, lg) = (r, g, lg) \<and> (r = Ok () \<longleftrightarrow> made)"
  by (cases "fs_create_dir_all io dir f"; cases "fst (fs_create_dir_all io dir f)")
    (auto simp: make_dir_def make_cgroup_def or_error_def logged_def split: if_splits)

lemma limit_writes_append:
  "limit_writes l pid =
     (let r = lim_limits l; dir = cgroup_path l pid in
      map snd (filter fst [(0 < rl_memory_bytes r, path_join dir ''memory.max'', show_word (rl_memory_bytes r))])
      @ map snd (filter fst [(0 < rl_memory_swap_bytes r, path_join dir ''memory.swap.max'',
          show_word (rl_memory_swap_bytes r))])
      @ map snd (filter fst [(f_gt (rl_cpu_quota_percent r) (Fin 0), path_join dir ''cpu.max'', cpu_max_value r)])
      @ map snd (filter fst [(0 < rl_pids_max r, path_join dir ''pids.max'', show_word (rl_pids_max r))]))"
  by (simp add: limit_writes_def Let_def)

lemma tries_set_controllers: "tries io (set_controllers (logged io) l pid) (limit_writes l pid)"
  unfolding set_controllers_def limit_writes_append Let_def by (intro tries_bind tries_one)

lemma admit_logged:
  "\<exists>r. admit (logged io) l pid (h, lg)
      = (r, snd (fs_write io (fst (admission l pid)) (snd (admission l pid)) h), lg @ [(admission l pid, r = Ok ())])"
  by (cases "fs_write io (fst (admission l pid)) (snd (admission l pid)) h";
      cases "fst (fs_write io (fst (admission l pid)) (snd (admission l pid)) h)")
    (auto simp: admit_def or_error_def logged_def admission_def)

text \<open>C32: A process is admitted to its cgroup last: once the cgroup is there, \<open>apply\<close> tries each of the memory, swap, CPU
  and process limits that are set, in order and with the configured value; it writes each whose controller file exists
  and stops at the first that is refused. Only when all of them were tried and none refused does it write the pid to
  \<open>cgroup.procs\<close>, and it succeeds exactly when that last write does. It writes nothing else, so no I/O limit.\<close>

theorem limits_before_admission:
  "\<exists>r g wl. limits_apply (logged io) l pid (f, []) = (r, g, wl) \<and>
     (case make_dir io (cgroup_path l pid) f of
        (False, f') \<Rightarrow> r \<noteq> Ok () \<and> g = f' \<and> wl = []
      | (True, f') \<Rightarrow>
          (case try_limits io (limit_writes l pid) f' of
             (False, h, ts) \<Rightarrow> r \<noteq> Ok () \<and> g = h \<and> wl = attempted ts
           | (True, h, ts) \<Rightarrow>
               map fst ts = limit_writes l pid \<and> list_all (\<lambda>t. snd t \<noteq> Refused) ts
               \<and> g = snd (fs_write io (fst (admission l pid)) (snd (admission l pid)) h)
               \<and> wl = attempted ts @ [(admission l pid, r = Ok ())]))"
proof -
  obtain made f1 where d: "make_dir io (cgroup_path l pid) f = (made, f1)" by (cases "make_dir io (cgroup_path l pid) f")
  obtain r1 where r1: "make_cgroup (logged io) (cgroup_path l pid) (f, []) = (r1, f1, [])" "r1 = Ok () \<longleftrightarrow> made"
    using make_cgroup_logged [OF d] by blast
  obtain ok h ts where t: "try_limits io (limit_writes l pid) f1 = (ok, h, ts)" by (cases "try_limits io (limit_writes l pid) f1")
  obtain r2 where r2: "set_controllers (logged io) l pid (f1, []) = (r2, h, [] @ attempted ts)" "r2 = Ok () \<longleftrightarrow> ok"
    by (rule triesD [OF tries_set_controllers t])
  obtain r3 where r3: "admit (logged io) l pid (h, attempted ts)
      = (r3, snd (fs_write io (fst (admission l pid)) (snd (admission l pid)) h),
         attempted ts @ [(admission l pid, r3 = Ok ())])"
    using admit_logged [of io l pid h "attempted ts"] by blast
  show ?thesis
  proof (cases made)
    case False
    with d r1 show ?thesis by (cases r1) (simp_all add: limits_apply_split fs_bind_def)
  next
    case made: True
    show ?thesis
    proof (cases ok)
      case False
      with made d t r1 r2 show ?thesis by (cases r2) (simp_all add: limits_apply_split fs_bind_def)
    next
      case True
      with made d t r1 r2 r3 try_limits_all [of io "limit_writes l pid" f1 h ts] show ?thesis
        by (simp add: limits_apply_split fs_bind_def)
    qed
  qed
qed

section \<open>The CPU quota\<close>

lemma pow2_lower: "pow2 (- 1022) \<le> 1 / 128"
proof -
  have "pow2 (- 1022) \<le> pow2 (- 7)" by (rule pow2_mono) simp
  also have "pow2 (- 7) = 1 / 128" by (simp add: pow2_def power_int_minus)
  finally show ?thesis .
qed

lemma rndq_close:
  assumes "1 / 128 \<le> x"
  shows "rndq x - x \<le> x / 9007199254740992" "x - rndq x \<le> x / 9007199254740992"
proof -
  have "pow2 (- 53) = 1 / 9007199254740992" by (simp add: pow2_def power_int_minus)
  moreover have "\<bar>rndq x - x\<bar> \<le> x * pow2 (- 53)"
    using pow2_lower assms by (intro rndq_error) linarith
  ultimately show "rndq x - x \<le> x / 9007199254740992" "x - rndq x \<le> x / 9007199254740992"
    by (simp_all only: abs_le_iff) simp_all
qed

lemma floor_near:
  assumes "of_nat n - 1 < (y :: rat)" "y < of_nat n + 1" "0 < n"
  shows "\<lfloor>y\<rfloor> = int n - 1 \<or> \<lfloor>y\<rfloor> = int n"
proof -
  have "of_int (int n - 1) \<le> y" "y < of_int (int n + 1)" using assms(1,2) by simp_all
  then have "int n - 1 \<le> \<lfloor>y\<rfloor>" "\<lfloor>y\<rfloor> < int n + 1" by (simp_all only: le_floor_iff floor_less_iff)
  then show ?thesis by linarith
qed

lemma f_to_u64_near:
  assumes "of_nat n - 1 < y" "y < of_nat n + 1" "1 < n" "n < 2 ^ 63"
  shows "unat (f_to_u64 (Fin y)) \<in> {n - 1, n}"
proof -
  have "(of_nat n :: rat) \<le> of_nat (2 ^ 63)" using assms(4) by (simp only: of_nat_le_iff less_imp_le)
  then have "\<not> 2 ^ 64 \<le> y" using assms(2) by simp
  moreover have "0 < y" using assms(1,3) by simp
  ultimately have u: "f_to_u64 (Fin y) = word_of_int \<lfloor>y\<rfloor>" by simp
  have "unat (word_of_int (int m) :: u64) = m" if "m < 2 ^ 64" for m
    using that by (simp add: unat_of_nat)
  then have "unat (word_of_int (int n) :: u64) = n" "unat (word_of_int (int (n - 1)) :: u64) = n - 1"
    using assms(4) by simp_all
  then show ?thesis unfolding u using floor_near [OF assms(1,2)] assms(3) by (auto simp: of_nat_diff)
qed

text \<open>For a quota of a whole percentage \<open>p\<close> and the default period, the microseconds written to
  \<open>cpu.max\<close> are \<open>1000 * p\<close> or one less: the floating-point product is truncated, so 29 percent
  becomes 28999.\<close>

theorem cpu_quota_nearly_exact:
  assumes "0 < p" "p \<le> 1000000"
    and "rl_cpu_quota_percent r = Fin (of_nat p)" "rl_cpu_period_us r = 100000"
  shows "unat (quota_us r) \<in> {1000 * p - 1, 1000 * p}"
proof -
  define x :: rat where "x = of_nat p / 100"
  have p1: "1 \<le> (of_nat p :: rat)" using assms(1) by simp
  have p2: "(of_nat p :: rat) \<le> of_nat 1000000" using assms(2) by (simp only: of_nat_le_iff)
  have x: "1 / 100 \<le> x" "x \<le> 10000" using p1 p2 by (simp_all add: x_def)
  let ?y = "rndq x * 100000"
  have x1: "1 / 128 \<le> x" using x(1) by linarith
  note e1 = rndq_close [OF x1]
  have "1 / 128 \<le> ?y" using e1 x by linarith
  note e2 = rndq_close [OF this]
  have exact: "of_nat (1000 * p) = x * 100000" by (simp add: x_def)
  have y: "0 \<le> ?y" "?y \<le> 2 ^ 64" using e1 x by simp_all
  have "f_round x = Fin (rndq x)" "f_round ?y = Fin (rndq ?y)"
    using x y by (simp_all add: f_round_small)
  moreover have "f_of_word (100000 :: u64) = Fin 100000" using f_of_nat_small [of 100000] by simp
  ultimately have q: "quota_us r = f_to_u64 (Fin (rndq ?y))"
    using assms(3,4) by (simp add: quota_us_def x_def)
  have "of_nat (1000 * p) - 1 < rndq ?y" "rndq ?y < of_nat (1000 * p) + 1"
    unfolding exact using e1 e2 x by linarith+
  then show ?thesis unfolding q by (rule f_to_u64_near) (use assms(1,2) in simp_all)
qed

lemma rndq_29_100: "rndq (29 / 100) = 5224175567749775 / 18014398509481984"
  using rndq_eqI [of "- 2" "29 / 100" 5224175567749775] by (simp add: pow2_def power_int_minus)

lemma rndq_29_percent:
  "rndq (16325548649218046875 / 562949953421312) = 7971459301375999 / 274877906944"
  using rndq_eqI [of 14 "16325548649218046875 / 562949953421312" 7971459301375999]
  by (simp add: pow2_def power_int_minus)

definition quarter_core :: resource_limits where
  "quarter_core = limits_default\<lparr>rl_cpu_quota_percent := Fin (of_nat 29)\<rparr>"

lemma quota_29: "quota_us quarter_core = 28999"
proof -
  have "f_round (29 / 100) = Fin (rndq (29 / 100))" by (rule f_round_small) simp_all
  moreover have "f_round (16325548649218046875 / 562949953421312) =
      Fin (rndq (16325548649218046875 / 562949953421312))"
    by (rule f_round_small) simp_all
  moreover have "f_of_word (100000 :: u64) = Fin 100000" using f_of_nat_small [of 100000] by simp
  moreover have "\<lfloor>7971459301375999 / 274877906944 :: rat\<rfloor> = 28999" by (rule floor_unique) simp_all
  ultimately show ?thesis
    by (simp add: quota_us_def quarter_core_def limits_default_def rndq_29_100 rndq_29_percent)
qed

theorem cpu_quota_nearly_exact_witness:
  "unat (quota_us quarter_core) \<in> {28999, 29000} \<and> quota_us quarter_core = 28999"
proof
  show "unat (quota_us quarter_core) \<in> {28999, 29000}"
    using cpu_quota_nearly_exact [of 29 quarter_core] by (simp add: quarter_core_def limits_default_def)
qed (rule quota_29)

end
