(* ===== verification/Obs_Monitor.thy ===== *)
theory Obs_Monitor
  imports F64 Rust_Text
begin

text \<open>
  The daemon monitor, \<open>crates/duende-observe/src/monitor.rs\<close> (the Linux code): the parsers of the
  \<open>/proc\<close> files, the CPU percentage from two samples, and the ring buffer of snapshots.

  Reading a file is the argument \<open>read\<close>; \<open>clk_tck\<close> is \<open>sysconf(_SC_CLK_TCK)\<close> and the page size is
  part of the state. The build decides whether integer overflow panics or wraps.
\<close>

section \<open>State\<close>

datatype io_error = Io_not_found string | Io_other string

datatype observe_error =
    OTracer string
  | OMonitor string
  | OExport string
  | OIo io_error

type_synonym reader = "string \<Rightarrow> (io_error, string) outcome"
type_synonym 'a observed = "(observe_error, 'a) outcome"

datatype proc_state = PsRunning | PsSleeping | PsDiskWait | PsZombie | PsStopped | PsUnknown

record proc_stat =
  ps_state :: proc_state
  ps_utime :: u64
  ps_stime :: u64
  ps_num_threads :: u32

record daemon_snapshot =
  sn_timestamp :: instant
  sn_pid :: u32
  sn_cpu_percent :: f64
  sn_memory_bytes :: u64
  sn_memory_percent :: f64
  sn_threads :: u32
  sn_state :: proc_state
  sn_io_read_bytes :: u64
  sn_io_write_bytes :: u64

record cpu_measurement =
  cm_utime :: u64
  cm_stime :: u64
  cm_wall_time :: instant

record monitor =
  mon_capacity :: nat
  mon_history :: "daemon_snapshot list"
  mon_prev_cpu :: "cpu_measurement option"
  mon_page_size :: u64
  mon_total_memory :: u64

section \<open>Parsers\<close>

text \<open>\<open>f(..)?\<close> with the reader's error converted by \<open>From\<close>.\<close>

definition read_io :: "reader \<Rightarrow> string \<Rightarrow> string observed" where
  "read_io read path =
     (case read path of Ok s \<Rightarrow> Ok s | Err e \<Rightarrow> Err (OIo e) | Panic \<Rightarrow> Panic)"

definition or_panic :: "'a option \<Rightarrow> 'a observed" where
  "or_panic x = (case x of Some a \<Rightarrow> Ok a | None \<Rightarrow> Panic)"

lemma or_panic_simps [simp]:
  "or_panic x \<noteq> Err e" "or_panic x = Ok a \<longleftrightarrow> x = Some a" "or_panic x = Panic \<longleftrightarrow> x = None"
  by (auto simp: or_panic_def split: option.split)

fun mem_total :: "build \<Rightarrow> string list \<Rightarrow> u64 observed" where
  "mem_total bld [] = Err (OMonitor ''failed to parse MemTotal from /proc/meminfo'')"
| "mem_total bld (line # rest) =
     (if prefix ''MemTotal:'' line then
        (let parts = split_whitespace line
         in case (if 2 \<le> length parts then parse_u64 (parts ! 1) else None) of
              Some kb \<Rightarrow> or_panic (umul bld kb 1024)
            | None \<Rightarrow> mem_total bld rest)
      else mem_total bld rest)"

definition read_total_memory :: "build \<Rightarrow> reader \<Rightarrow> u64 observed" where
  "read_total_memory bld read =
     and_then (read_io read ''/proc/meminfo'') (\<lambda>content. mem_total bld (lines content))"

text \<open>\<open>None\<close>: building the monitor panics.\<close>

definition monitor_new :: "build \<Rightarrow> reader \<Rightarrow> u64 \<Rightarrow> nat \<Rightarrow> monitor option" where
  "monitor_new bld read page_size capacity =
     (case read_total_memory bld read of
        Panic \<Rightarrow> None
      | r \<Rightarrow> Some \<lparr>mon_capacity = capacity, mon_history = [], mon_prev_cpu = None,
               mon_page_size = page_size,
               mon_total_memory = (case r of Ok bytes \<Rightarrow> bytes | _ \<Rightarrow> 0)\<rparr>)"

definition state_of_field :: "string \<Rightarrow> proc_state" where
  "state_of_field f =
     (case f of
        c # _ \<Rightarrow>
          if c = CHR ''R'' then PsRunning
          else if c = CHR ''S'' then PsSleeping
          else if c = CHR ''D'' then PsDiskWait
          else if c = CHR ''Z'' then PsZombie
          else if c = CHR ''T'' \<or> c = CHR ''t'' then PsStopped
          else PsUnknown
      | [] \<Rightarrow> PsUnknown)"

definition parse_stat_content :: "string \<Rightarrow> proc_stat observed" where
  "parse_stat_content content =
     and_then (ok_or (rfind_char (CHR '')'') content)
                (OMonitor ''malformed /proc/stat: no closing paren'')) (\<lambda>comm_end.
     and_then (or_panic (slice_from (comm_end + 2) content)) (\<lambda>after_comm.
     (let fields = split_whitespace after_comm in
      if length fields < 20 then
        Err (OMonitor (''malformed /proc/stat: expected 20+ fields, got '' @ show_nat (length fields)))
      else
        (let state = state_of_field (fields ! 0) in
         and_then (ok_or (parse_u64 (fields ! 11)) (OMonitor ''failed to parse utime'')) (\<lambda>utime.
         and_then (ok_or (parse_u64 (fields ! 12)) (OMonitor ''failed to parse stime'')) (\<lambda>stime.
         and_then (ok_or (parse_u32 (fields ! 17)) (OMonitor ''failed to parse num_threads'')) (\<lambda>n.
         Ok \<lparr>ps_state = state, ps_utime = utime, ps_stime = stime, ps_num_threads = n\<rparr>)))))))"

definition parse_proc_stat :: "reader \<Rightarrow> u32 \<Rightarrow> proc_stat observed" where
  "parse_proc_stat read pid =
     (case read (''/proc/'' @ show_word pid @ ''/stat'') of
        Ok content \<Rightarrow> parse_stat_content content
      | Err (Io_not_found _) \<Rightarrow> Err (OMonitor (''process '' @ show_word pid @ '' not found''))
      | Err e \<Rightarrow> Err (OIo e)
      | Panic \<Rightarrow> Panic)"

definition parse_proc_statm :: "build \<Rightarrow> reader \<Rightarrow> u64 \<Rightarrow> u32 \<Rightarrow> u64 observed" where
  "parse_proc_statm bld read page_size pid =
     and_then (read_io read (''/proc/'' @ show_word pid @ ''/statm'')) (\<lambda>content.
     (let fields = split_whitespace content in
      if length fields < 2 then Err (OMonitor ''malformed /proc/statm'')
      else and_then (ok_or (parse_u64 (fields ! 1)) (OMonitor ''failed to parse RSS pages''))
             (\<lambda>rss_pages. or_panic (umul bld rss_pages page_size))))"

definition or_zero :: "u64 option \<Rightarrow> u64" where
  "or_zero x = (case x of Some n \<Rightarrow> n | None \<Rightarrow> 0)"

fun io_line :: "u64 \<times> u64 \<Rightarrow> string \<Rightarrow> u64 \<times> u64" where
  "io_line (r, w) line =
     (case strip_prefix ''read_bytes: '' line of
        Some v \<Rightarrow> (or_zero (parse_u64 (trim v)), w)
      | None \<Rightarrow>
          (case strip_prefix ''write_bytes: '' line of
             Some v \<Rightarrow> (r, or_zero (parse_u64 (trim v)))
           | None \<Rightarrow> (r, w)))"

definition parse_proc_io :: "reader \<Rightarrow> u32 \<Rightarrow> (u64 \<times> u64) observed" where
  "parse_proc_io read pid =
     and_then (read_io read (''/proc/'' @ show_word pid @ ''/io''))
       (\<lambda>content. Ok (foldl io_line (0, 0) (lines content)))"

section \<open>Sampling\<close>

definition calculate_cpu_percent ::
  "build \<Rightarrow> f64 \<Rightarrow> cpu_measurement option \<Rightarrow> proc_stat \<Rightarrow> instant \<Rightarrow> f64 observed" where
  "calculate_cpu_percent bld clk_tck prev_cpu stat now =
     (case prev_cpu of
        None \<Rightarrow> Ok (Fin 0)
      | Some prev \<Rightarrow>
          (let secs = as_secs_f64 (elapsed now (cm_wall_time prev)) in
           if f_lt secs (f_lit (1 / 1000)) then Ok (Fin 0)
           else
             and_then (or_panic (uadd bld (ps_utime stat) (ps_stime stat))) (\<lambda>total_now.
             and_then (or_panic (uadd bld (cm_utime prev) (cm_stime prev))) (\<lambda>total_prev.
             if total_now < total_prev then Ok (Fin 0)
             else
               (let ticks_used = total_now - total_prev;
                    cpu_seconds = f_div (f_of_word ticks_used) clk_tck;
                    cpu_percent = f_mul (f_div cpu_seconds secs) (Fin 100)
                in Ok (f_max cpu_percent (Fin 0)))))))"

definition memory_percent :: "u64 \<Rightarrow> u64 \<Rightarrow> f64" where
  "memory_percent all_bytes bytes =
     (if 0 < all_bytes then f_mul (f_div (f_of_word bytes) (f_of_word all_bytes)) (Fin 100) else Fin 0)"

definition collect_linux ::
  "build \<Rightarrow> f64 \<Rightarrow> reader \<Rightarrow> instant \<Rightarrow> u32 \<Rightarrow> monitor \<Rightarrow> daemon_snapshot observed \<times> monitor" where
  "collect_linux bld clk_tck read now pid m =
     (case parse_proc_stat read pid of
        Ok stat \<Rightarrow>
          (case calculate_cpu_percent bld clk_tck (mon_prev_cpu m) stat now of
             Ok cpu \<Rightarrow>
               (let m = m\<lparr>mon_prev_cpu := Some \<lparr>cm_utime = ps_utime stat, cm_stime = ps_stime stat,
                                             cm_wall_time = now\<rparr>\<rparr> in
                case parse_proc_statm bld read (mon_page_size m) pid of
                  Ok bytes \<Rightarrow>
                    (let (r, w) = (case parse_proc_io read pid of Ok rw \<Rightarrow> rw | _ \<Rightarrow> (0, 0)) in
                     (Ok \<lparr>sn_timestamp = now, sn_pid = pid, sn_cpu_percent = cpu,
                          sn_memory_bytes = bytes,
                          sn_memory_percent = memory_percent (mon_total_memory m) bytes,
                          sn_threads = ps_num_threads stat, sn_state = ps_state stat,
                          sn_io_read_bytes = r, sn_io_write_bytes = w\<rparr>, m))
                | Err e \<Rightarrow> (Err e, m)
                | Panic \<Rightarrow> (Panic, m))
           | Err e \<Rightarrow> (Err e, m)
           | Panic \<Rightarrow> (Panic, m))
      | Err e \<Rightarrow> (Err e, m)
      | Panic \<Rightarrow> (Panic, m))"

definition push_history :: "daemon_snapshot \<Rightarrow> monitor \<Rightarrow> monitor" where
  "push_history s m =
     m\<lparr>mon_history := (if mon_capacity m \<le> length (mon_history m) then drop 1 (mon_history m)
                      else mon_history m) @ [s]\<rparr>"

text \<open>Elsewhere than on Linux a collection knows nothing.\<close>

definition collect_fallback :: "instant \<Rightarrow> u32 \<Rightarrow> daemon_snapshot" where
  "collect_fallback now pid =
     \<lparr>sn_timestamp = now, sn_pid = pid, sn_cpu_percent = Fin 0, sn_memory_bytes = 0, sn_memory_percent = Fin 0,
      sn_threads = 0, sn_state = PsUnknown, sn_io_read_bytes = 0, sn_io_write_bytes = 0\<rparr>"

definition collect ::
  "build \<Rightarrow> f64 \<Rightarrow> reader \<Rightarrow> instant \<Rightarrow> u32 \<Rightarrow> monitor \<Rightarrow> daemon_snapshot observed \<times> monitor" where
  "collect bld clk_tck read now pid m =
     (case collect_linux bld clk_tck read now pid m of
        (Ok s, m') \<Rightarrow> (Ok s, push_history s m')
      | (Err e, m') \<Rightarrow> (Err e, m')
      | (Panic, m') \<Rightarrow> (Panic, m'))"

text \<open>\<open>Instant::checked_sub\<close> fails before the clock's origin.\<close>

definition history :: "duration \<Rightarrow> instant \<Rightarrow> monitor \<Rightarrow> daemon_snapshot list" where
  "history d now m =
     (if now < d then mon_history m
      else filter (\<lambda>s. now - d \<le> sn_timestamp s) (mon_history m))"

definition clear_history :: "monitor \<Rightarrow> monitor" where
  "clear_history m = m\<lparr>mon_history := [], mon_prev_cpu := None\<rparr>"

section \<open>Parsing a stat line\<close>

lemma slice_after:
  "slice_from (length u + 2) (u @ '') '' @ v) = Some v \<or> slice_from (length u + 2) (u @ '') '' @ v) = None"
  by (simp add: slice_from_def)

definition ascii_head :: "string \<Rightarrow> bool" where
  "ascii_head s \<longleftrightarrow> s = [] \<or> (of_char (hd s) :: nat) < 128"

lemma slice_after_ascii: "ascii_head v \<Longrightarrow> slice_from (length u + 2) (u @ '') '' @ v) = Some v"
  by (cases v) (simp_all add: slice_from_def ascii_head_def nth_append)

lemma word_text_join_head: "list_all word_text ws \<Longrightarrow> ws \<noteq> [] \<Longrightarrow> ascii_head (join '' '' ws @ t)"
  by (cases ws rule: remdups_adj.cases; cases "hd ws")
    (auto simp: word_text_def ascii_head_def graphic_def)

lemma set_join: "set (join sep ws) \<subseteq> set sep \<union> (\<Union>w\<in>set ws. set w)"
  by (induction sep ws rule: join.induct) auto

text \<open>C33: Whatever the name of the process, spaces and parentheses included, the stat line is parsed
  right: state, times and thread count are those of the fields after the last parenthesis.\<close>

theorem stat_line_parsed:
  assumes "list_all word_text fs" "20 \<le> length fs"
    and "list_all (\<lambda>f. CHR '')'' \<notin> set f) fs" "list_all blank tail"
    and "fs ! 11 = show_word (ut :: u64)" "fs ! 12 = show_word (st :: u64)"
      "fs ! 17 = show_word (n :: u32)"
  shows "parse_stat_content (pid_and_name @ '') '' @ join '' '' fs @ tail) =
    Ok \<lparr>ps_state = state_of_field (fs ! 0), ps_utime = ut, ps_stime = st, ps_num_threads = n\<rparr>"
proof -
  let ?rest = "join '' '' fs @ tail"
  have "CHR '')'' \<notin> set tail" using assms(4) by (auto simp: list_all_iff blank_def)
  moreover have "CHR '')'' \<notin> set (join '' '' fs)"
    using set_join [of "'' ''" fs] assms(3) by (auto simp: list_all_iff)
  ultimately have "CHR '')'' \<notin> set ('' '' @ ?rest)" by simp
  then have "rfind_char (CHR '')'') (pid_and_name @ CHR '')'' # '' '' @ ?rest) = Some (length pid_and_name)"
    by (rule rfind_char_append)
  moreover have "fs \<noteq> []" using assms(2) by auto
  then have "slice_from (length pid_and_name + 2) (pid_and_name @ '') '' @ ?rest) = Some ?rest"
    using word_text_join_head [OF assms(1)] by (intro slice_after_ascii) simp
  moreover have "split_whitespace ?rest = fs" using assms(1,4) by (rule split_whitespace_join)
  ultimately show ?thesis using assms(2,5,6,7)
    by (simp add: parse_stat_content_def or_panic_def Let_def)
qed

theorem stat_line_parsed_witness:
  "parse_stat_content (''4242 (tmux: a) (b)'' @ '') '' @ join '' ''
      [''S'', ''0'', ''0'', ''0'', ''0'', ''0'', ''0'', ''0'', ''0'', ''0'', ''0'',
       show_word (17 :: u64), show_word (5 :: u64), ''0'', ''0'', ''0'', ''0'', show_word (3 :: u32), ''0'', ''0''] @ [char_of (10 :: nat)]) =
    Ok \<lparr>ps_state = PsSleeping, ps_utime = 17, ps_stime = 5, ps_num_threads = 3\<rparr>"
  (is "parse_stat_content (_ @ _ @ join _ ?fs @ _) = _")
proof -
  have texts: "show_nat 17 = ''17''" "show_nat 5 = ''5''" "show_nat 3 = ''3''"
    by (simp_all add: show_nat_eval)
  have state: "state_of_field (?fs ! 0) = PsSleeping" by (simp add: state_of_field_def)
  show ?thesis
    unfolding state [symmetric]
    by (rule stat_line_parsed)
      (simp_all add: word_text_def graphic_def texts blank_def)
qed

text \<open>C34: Parsing a stat line panics on exactly those texts that end, or go on inside a multi-byte
  character, right where the blank after the last parenthesis is expected; a line cut off after
  the parenthesis is one of them. Every other malformed text is an error.\<close>

theorem stat_line_panics_exactly:
  "(parse_stat_content content = Panic \<longleftrightarrow>
      (\<exists>u v. content = u @ CHR '')'' # v \<and> CHR '')'' \<notin> set v \<and> slice_from (length u + 2) content = None))
   \<and> parse_stat_content (u @ '')'') = Panic"
proof -
  have iff: "parse_stat_content content = Panic \<longleftrightarrow>
      (\<exists>i. rfind_char (CHR '')'') content = Some i \<and> slice_from (i + 2) content = None)" for content
    by (auto simp: parse_stat_content_def or_panic_def Let_def and_then_eq_Panic split: option.splits)
  have pos: "(\<exists>i. rfind_char (CHR '')'') content = Some i \<and> P i) \<longleftrightarrow>
      (\<exists>u v. content = u @ CHR '')'' # v \<and> CHR '')'' \<notin> set v \<and> P (length u))" for P
  proof
    assume "\<exists>i. rfind_char (CHR '')'') content = Some i \<and> P i"
    then obtain i where i: "i < length content" "content ! i = CHR '')''"
      "CHR '')'' \<notin> set (drop (Suc i) content)" "P i"
      by (auto simp: rfind_char_Some)
    then have "content = take i content @ CHR '')'' # drop (Suc i) content"
      by (metis id_take_nth_drop)
    with i show "\<exists>u v. content = u @ CHR '')'' # v \<and> CHR '')'' \<notin> set v \<and> P (length u)"
      by (metis length_take min.absorb4)
  qed (auto simp: rfind_char_append)
  have "rfind_char (CHR '')'') (u @ '')'') = Some (length u)" by (rule rfind_char_append) simp
  then have "parse_stat_content (u @ '')'') = Panic" by (simp add: iff slice_from_def)
  then show ?thesis by (simp add: iff pos)
qed

section \<open>The ring buffer\<close>

text \<open>A run of collections: the snapshots that succeeded, and the monitor.\<close>

fun collect_all ::
  "build \<Rightarrow> f64 \<Rightarrow> (reader \<times> instant \<times> u32) list \<Rightarrow> monitor \<Rightarrow> daemon_snapshot list \<times> monitor" where
  "collect_all bld clk_tck [] m = ([], m)"
| "collect_all bld clk_tck ((read, now, pid) # es) m =
     (case collect bld clk_tck read now pid m of
        (Ok s, m') \<Rightarrow> (case collect_all bld clk_tck es m' of (ss, m'') \<Rightarrow> (s # ss, m''))
      | (_, m') \<Rightarrow> collect_all bld clk_tck es m')"

lemma collect_linux_history [frame]:
  "mon_history (snd (collect_linux bld clk read now pid m)) = mon_history m"
  "mon_capacity (snd (collect_linux bld clk read now pid m)) = mon_capacity m"
  by (auto simp: collect_linux_def Let_def split: outcome.splits prod.splits)

lemma collect_history:
  "mon_history (snd (collect bld clk read now pid m)) =
     (case fst (collect bld clk read now pid m) of
        Ok s \<Rightarrow> (if mon_capacity m \<le> length (mon_history m) then drop 1 (mon_history m)
               else mon_history m) @ [s]
      | _ \<Rightarrow> mon_history m)"
  "mon_capacity (snd (collect bld clk read now pid m)) = mon_capacity m"
  using collect_linux_history [of bld clk read now pid m]
  by (auto simp: collect_def push_history_def split: prod.split outcome.split)

lemma drop_push:
  assumes "h = drop (length ss - n) ss" "0 < n"
  shows "(if n \<le> length h then drop 1 h else h) @ [s] = drop (length (ss @ [s]) - n) (ss @ [s])"
  using assms by (auto simp: Suc_diff_le not_le)

lemma history_run:
  assumes "mon_history m = []" "collect_all bld clk es m = (ss, m')"
  shows "mon_history m' = drop (length ss - max 1 (mon_capacity m)) ss"
proof -
  have "mon_history m = drop (length qs - max 1 (mon_capacity m)) qs \<Longrightarrow>
      collect_all bld clk es m = (ss, m') \<Longrightarrow>
      mon_history m' = drop (length (qs @ ss) - max 1 (mon_capacity m)) (qs @ ss)" for qs
  proof (induction bld clk es m arbitrary: qs ss rule: collect_all.induct)
    case (2 bld clk read now pid es m)
    let ?c = "collect bld clk read now pid m"
    obtain r u where c: "?c = (r, u)" by (cases ?c)
    note hist = collect_history [of bld clk read now pid m, unfolded c]
    show ?case
    proof (cases r)
      case (Ok s)
      obtain ss' where ss: "collect_all bld clk es u = (ss', m')" "ss = s # ss'"
        using 2 c Ok by (auto split: prod.splits)
      let ?n = "max 1 (mon_capacity m)"
      have "mon_history u = (if ?n \<le> length (mon_history m) then drop 1 (mon_history m)
          else mon_history m) @ [s]"
        using hist Ok by (cases "mon_history m") (auto simp: max_def)
      also have "\<dots> = drop (length (qs @ [s]) - ?n) (qs @ [s])"
        by (rule drop_push [OF 2(4)]) simp
      finally show ?thesis using 2(1) [OF c [symmetric] Ok, of "qs @ [s]" ss'] ss hist by simp
    next
      case (Err e)
      with 2 c hist show ?thesis by simp
    next
      case Panic
      with 2 c hist show ?thesis by simp
    qed
  qed simp
  from this [of "[]"] assms show ?thesis by simp
qed

text \<open>C35: Since the history was cleared, it is the latest successful snapshots in order, as many as the
  capacity (one, when the capacity is zero); failed collections leave it alone. A query for a period longer than
  the clock has run returns all of it.\<close>

theorem history_is_latest:
  "mon_history (snd (collect_all bld clk es (clear_history m)))
     = (let ss = fst (collect_all bld clk es (clear_history m)) in drop (length ss - max 1 (mon_capacity m)) ss)
   \<and> history (now + Suc d) now (snd (collect_all bld clk es (clear_history m)))
     = mon_history (snd (collect_all bld clk es (clear_history m)))"
proof -
  obtain ss m' where run: "collect_all bld clk es (clear_history m) = (ss, m')" by fastforce
  have "mon_history m' = drop (length ss - max 1 (mon_capacity (clear_history m))) ss"
    by (rule history_run [OF _ run]) (simp add: clear_history_def)
  then show ?thesis by (simp add: run history_def) (simp add: clear_history_def)
qed

section \<open>CPU percentage\<close>

text \<open>The CPU percentage is never negative and never NaN, even when the clock-tick rate is not
  known, and zero without an earlier sample or when the counters went back.\<close>

theorem cpu_percent_nonneg:
  assumes "calculate_cpu_percent bld clk prev stat now = Ok p"
  shows "f_nonneg p"
proof -
  have "f_nonneg (f_max x (Fin 0))" for x by (cases x) (auto simp: f_max_def)
  with assms show ?thesis
    by (auto simp: calculate_cpu_percent_def Let_def or_panic_def and_then_eq_Ok
        split: option.splits if_splits)
qed

lemma one_second: "\<not> f_lt (as_secs_f64 (from_secs 1)) (f_lit (1 / 1000))"
proof -
  have "rndq (1 / 1000) \<le> rndq (of_nat 1)" by (rule rndq_mono) simp
  then have "rndq (1 / 1000) \<le> 1" using rndq_small_nat [of 1] by simp
  moreover have "f_lit (1 / 1000) = Fin (rndq (1 / 1000))" by (rule f_round_small) simp_all
  ultimately show ?thesis using as_secs_f64_whole [of 1] by simp
qed

theorem cpu_percent_nonneg_witness:
  "\<exists>p. calculate_cpu_percent Debug (Fin (- 1)) (Some \<lparr>cm_utime = 0, cm_stime = 0, cm_wall_time = 0\<rparr>)
     \<lparr>ps_state = PsRunning, ps_utime = 3, ps_stime = 2, ps_num_threads = 1\<rparr> (from_secs 1) = Ok p
   \<and> f_nonneg p"
  (is "\<exists>p. ?calc = Ok p \<and> _")
proof -
  obtain p where p: "?calc = Ok p"
    using one_second by (simp add: calculate_cpu_percent_def Let_def uadd_in_range or_panic_def)
  then have "f_nonneg p" by (rule cpu_percent_nonneg)
  with p show ?thesis by blast
qed

end
