(* ===== verification/Obs_Tracer.thy ===== *)
theory Obs_Tracer
  imports Obs_Monitor "HOL-Library.Multiset"
begin

text \<open>
  The daemon tracer, \<open>crates/duende-observe/src/tracer.rs\<close> (the Linux code): attaching, sampling the
  current system call from \<open>/proc\<close>, and the analyses of the frequencies. The counts are a map from
  names; \<open>iter\<close> is the order in which the hash map lists its entries, which the floating-point sum
  and the order of equal counts in the critical path depend on.
\<close>

section \<open>State\<close>

datatype anomaly_kind = LatencySpike | ErrorBurst | ResourceExhaustion

record anomaly =
  an_kind :: anomaly_kind
  an_z_score :: f64
  an_description :: string

record anti_pattern =
  ap_name :: string
  ap_severity :: u8
  ap_description :: string

record trace_event =
  ev_syscall :: string
  ev_duration_us :: u64
  ev_source_location :: "string option"

record trace_report =
  tr_pid :: u32
  tr_events :: "trace_event list"
  tr_anomalies :: "anomaly list"
  tr_critical_path :: "string list"
  tr_anti_patterns :: "anti_pattern list"

type_synonym counts = "string \<rightharpoonup> u64"
type_synonym count_order = "counts \<Rightarrow> (string \<times> u64) list"

record tracer =
  attached_pid :: "u32 option"
  syscall_counts :: counts
  sample_count :: u64
  trace_start :: "instant option"
  anomaly_threshold :: f64

definition with_anomaly_threshold :: "f64 \<Rightarrow> tracer" where
  "with_anomaly_threshold threshold =
     \<lparr>attached_pid = None, syscall_counts = (\<lambda>_. None), sample_count = 0, trace_start = None,
      anomaly_threshold = threshold\<rparr>"

definition tracer_new :: tracer where
  "tracer_new = with_anomaly_threshold (Fin 2)"

definition attach :: "(string \<Rightarrow> bool) \<Rightarrow> instant \<Rightarrow> u32 \<Rightarrow> tracer \<Rightarrow> unit observed \<times> tracer" where
  "attach exists_path now pid t =
     (if \<not> exists_path (''/proc/'' @ show_word pid @ ''/stat'')
      then (Err (OTracer (''process '' @ show_word pid @ '' not found'')), t)
      else (Ok (), t\<lparr>attached_pid := Some pid, syscall_counts := (\<lambda>_. None), sample_count := 0,
                    trace_start := Some now\<rparr>))"

definition detach :: "tracer \<Rightarrow> tracer" where
  "detach t = t\<lparr>attached_pid := None, syscall_counts := (\<lambda>_. None), sample_count := 0, trace_start := None\<rparr>"

section \<open>Reading the current system call\<close>

definition syscall_table :: "(int \<times> string) list" where
  "syscall_table =
     [(- 1, ''none''), (0, ''read''), (1, ''write''), (2, ''open''), (3, ''close''), (4, ''stat''),
      (5, ''fstat''), (6, ''lstat''), (7, ''poll''), (8, ''lseek''), (9, ''mmap''), (10, ''mprotect''),
      (11, ''munmap''), (12, ''brk''), (13, ''rt_sigaction''), (14, ''rt_sigprocmask''),
      (15, ''rt_sigreturn''), (16, ''ioctl''), (17, ''pread64''), (18, ''pwrite64''), (19, ''readv''),
      (20, ''writev''), (21, ''access''), (22, ''pipe''), (23, ''select''), (24, ''sched_yield''),
      (35, ''nanosleep''), (56, ''clone''), (57, ''fork''), (59, ''execve''), (60, ''exit''),
      (61, ''wait4''), (62, ''kill''), (202, ''futex''), (228, ''clock_gettime''),
      (230, ''clock_nanosleep''), (231, ''exit_group''), (232, ''epoll_wait''), (257, ''openat''),
      (262, ''newfstatat''), (270, ''pselect6''), (281, ''epoll_pwait'')]"

definition syscall_name :: "int \<Rightarrow> string" where
  "syscall_name nr =
     (case map_of syscall_table nr of Some name \<Rightarrow> name | None \<Rightarrow> ''syscall_'' @ show_int nr)"

definition read_current_syscall :: "reader \<Rightarrow> u32 \<Rightarrow> (string \<times> int) observed" where
  "read_current_syscall read pid =
     and_then (read_io read (''/proc/'' @ show_word pid @ ''/syscall'')) (\<lambda>content.
     (let content = trim content in
      if content = ''running'' then Ok (''running'', - 1)
      else
        (let parts = split_whitespace content in
         if parts = [] then Err (OTracer ''empty /proc/syscall'')
         else and_then (ok_or (parse_signed 64 (parts ! 0)) (OTracer ''failed to parse syscall number''))
                (\<lambda>nr. Ok (syscall_name nr, nr)))))"

definition read_wchan :: "reader \<Rightarrow> u32 \<Rightarrow> string observed" where
  "read_wchan read pid =
     and_then (read_io read (''/proc/'' @ show_word pid @ ''/wchan'')) (\<lambda>content. Ok (trim content))"

section \<open>Analyses\<close>

definition count_of :: "counts \<Rightarrow> string \<Rightarrow> u64" where
  "count_of m s = (case m s of Some n \<Rightarrow> n | None \<Rightarrow> 0)"

text \<open>\<open>Iterator::sum\<close> on integers: overflow panics in a debug build.\<close>

fun sum_words :: "build \<Rightarrow> u64 list \<Rightarrow> u64 \<Rightarrow> u64 observed" where
  "sum_words bld [] acc = Ok acc"
| "sum_words bld (n # ns) acc = and_then (or_panic (uadd bld acc n)) (sum_words bld ns)"

definition count_sum :: "build \<Rightarrow> u64 list \<Rightarrow> u64 observed" where
  "count_sum bld ns = sum_words bld ns 0"

definition z_score_of :: "count_order \<Rightarrow> counts \<Rightarrow> string \<Rightarrow> u64 \<Rightarrow> f64 option" where
  "z_score_of iter m syscall total_syscalls =
     (let current_count = count_of m syscall;
          num_syscalls = f_of_nat (length (iter m));
          expected_freq = f_div (f_of_word total_syscalls) num_syscalls;
          actual_freq = f_of_word current_count;
          variance = f_div (foldl (\<lambda>acc (_, count).
             let diff = f_sub (f_of_word count) expected_freq in f_add acc (f_mul diff diff))
             (Fin 0) (iter m)) num_syscalls;
          std_dev = f_sqrt variance
      in if f_lt std_dev (f_lit (1 / 1000)) then None
         else Some (f_div (f_sub actual_freq expected_freq) std_dev))"

definition detect_frequency_anomaly ::
  "build \<Rightarrow> count_order \<Rightarrow> tracer \<Rightarrow> string \<Rightarrow> anomaly option observed" where
  "detect_frequency_anomaly bld iter t syscall =
     (if sample_count t < 10 then Ok None
      else
        and_then (count_sum bld (map snd (iter (syscall_counts t)))) (\<lambda>total_syscalls.
        if total_syscalls = 0 then Ok None
        else (case z_score_of iter (syscall_counts t) syscall total_syscalls of
            None \<Rightarrow> Ok None
          | Some z_score \<Rightarrow>
              if f_gt (f_abs z_score) (anomaly_threshold t) then
                Ok (Some \<lparr>an_kind = (if f_gt z_score (Fin 0) then LatencySpike else ResourceExhaustion),
                          an_z_score = z_score,
                          an_description = syscall @ '' called '' @ show_word (count_of (syscall_counts t) syscall)
                            @ '' times (z-score: '' @ show_fixed2 z_score @ '')''\<rparr>)
              else Ok None)))"

definition ratio_pattern ::
  "string \<Rightarrow> u8 \<Rightarrow> string \<Rightarrow> string \<Rightarrow> rat \<Rightarrow> u64 \<Rightarrow> u64 \<Rightarrow> u64 \<Rightarrow> anti_pattern list" where
  "ratio_pattern name severity what advice limit at_least part total_count =
     (let ratio = f_div (f_of_word part) (f_of_word total_count) in
      if f_gt ratio (f_lit limit) \<and> at_least < part then
        [\<lparr>ap_name = name, ap_severity = severity,
          ap_description = show_word (f_to_u32 (f_mul ratio (Fin 100))) @ ''% of syscalls are '' @ what
            @ '' ('' @ show_word part @ '' calls) - '' @ advice\<rparr>]
      else [])"

definition detect_anti_patterns :: "build \<Rightarrow> count_order \<Rightarrow> counts \<Rightarrow> anti_pattern list observed" where
  "detect_anti_patterns bld iter m =
     and_then (count_sum bld (map snd (iter m))) (\<lambda>total_count.
     if total_count = 0 then Ok []
     else
       and_then (sum_words bld (map (count_of m) [''select'', ''epoll_wait'', ''epoll_pwait'', ''pselect6''])
                   (count_of m ''poll'')) (\<lambda>poll_count.
       and_then (sum_words bld (map (count_of m) [''mmap'', ''munmap'']) (count_of m ''brk'')) (\<lambda>mem_count.
       Ok (ratio_pattern ''BusyPolling'' 3 ''poll/select'' ''consider longer timeouts'' (1 / 2) 100
             poll_count total_count
           @ ratio_pattern ''LockContention'' 4 ''futex'' ''possible lock contention'' (3 / 10) 100
               (count_of m ''futex'') total_count
           @ ratio_pattern ''MemoryChurn'' 3 ''memory allocation'' ''consider object pooling'' (1 / 5) 50
               mem_count total_count))))"

text \<open>\<open>sort_by\<close> is stable, as \<open>sort_key\<close> is; the key makes the order descending.\<close>

definition by_count :: "(string \<times> u64) list \<Rightarrow> (string \<times> u64) list" where
  "by_count = sort_key (\<lambda>e. - int (unat (snd e)))"

definition build_critical_path :: "count_order \<Rightarrow> counts \<Rightarrow> string list" where
  "build_critical_path iter m =
     map (\<lambda>(name, count). name @ '' ('' @ show_word count @ '')'') (take 5 (by_count (iter m)))"

section \<open>Collecting\<close>

definition event :: "string \<Rightarrow> trace_event" where
  "event s = \<lparr>ev_syscall = s, ev_duration_us = 0, ev_source_location = None\<rparr>"

text \<open>The counters after one more call of \<open>name\<close>; \<open>None\<close> is the overflow panic.\<close>

definition count_syscall :: "build \<Rightarrow> string \<Rightarrow> tracer \<Rightarrow> tracer option" where
  "count_syscall bld name t =
     (case (uadd bld (count_of (syscall_counts t) name) 1, uadd bld (sample_count t) 1) of
        (Some c, Some n) \<Rightarrow> Some (t\<lparr>syscall_counts := (syscall_counts t)(name \<mapsto> c), sample_count := n\<rparr>)
      | _ \<Rightarrow> None)"

definition trace_collect_linux ::
  "build \<Rightarrow> count_order \<Rightarrow> reader \<Rightarrow> u32 \<Rightarrow> tracer \<Rightarrow> trace_report observed \<times> tracer" where
  "trace_collect_linux bld iter read pid t =
     (let sampled =
        (case read_current_syscall read pid of
           Ok (name, _) \<Rightarrow>
             (case count_syscall bld name t of
                Some t' \<Rightarrow>
                  (and_then (detect_frequency_anomaly bld iter t' name)
                     (\<lambda>a. Ok ([event name], case a of Some x \<Rightarrow> [x] | None \<Rightarrow> [])), t')
              | None \<Rightarrow> (Panic, t))
         | _ \<Rightarrow> (Ok ([], []), t));
        t' = snd sampled in
      (and_then (fst sampled) (\<lambda>(events, anomalies).
       (let wchan_events =
          (case read_wchan read pid of
             Ok wchan \<Rightarrow> if wchan \<noteq> [] \<and> wchan \<noteq> ''0'' then [event (''wchan:'' @ wchan)] else []
           | _ \<Rightarrow> [])
        in and_then (detect_anti_patterns bld iter (syscall_counts t')) (\<lambda>patterns.
           Ok \<lparr>tr_pid = pid, tr_events = events @ wchan_events, tr_anomalies = anomalies,
               tr_critical_path = build_critical_path iter (syscall_counts t'),
               tr_anti_patterns = patterns\<rparr>))), t'))"

definition trace_collect_fallback :: "u32 \<Rightarrow> trace_report" where
  "trace_collect_fallback pid =
     \<lparr>tr_pid = pid, tr_events = [], tr_anomalies = [], tr_critical_path = [], tr_anti_patterns = []\<rparr>"

definition trace_collect ::
  "build \<Rightarrow> count_order \<Rightarrow> reader \<Rightarrow> tracer \<Rightarrow> trace_report observed \<times> tracer" where
  "trace_collect bld iter read t =
     (case attached_pid t of
        None \<Rightarrow> (Err (OTracer ''no daemon attached''), t)
      | Some pid \<Rightarrow> trace_collect_linux bld iter read pid t)"

section \<open>System call names\<close>

lemma syscall_table_distinct: "distinct (map fst syscall_table)" "distinct (map snd syscall_table)"
  by (simp_all add: syscall_table_def)

lemma syscall_table_no_number:
  "list_all (\<lambda>e. \<not> prefix ''syscall_'' (snd e)) syscall_table"
  by (simp add: syscall_table_def)

lemma show_int_inject: "show_int a = show_int b \<longleftrightarrow> a = b"
proof
  assume eq: "show_int a = show_int b"
  have minus: "CHR ''-'' \<notin> set (show_nat n)" for n
    using show_nat_digits [of n] by (auto simp: list_all_iff is_digit_def)
  have head: "show_nat n \<noteq> CHR ''-'' # s" "CHR ''-'' # s \<noteq> show_nat n" for n s
    using minus [of n] by (metis list.set_intros(1))+
  show "a = b"
    using eq head
    by (cases "a < 0"; cases "b < 0") (auto simp: show_int_def)
qed simp

text \<open>Distinct numbers have distinct names, so the counts of two system calls are never merged.\<close>

lemma syscall_name_inject: "syscall_name a = syscall_name b \<longleftrightarrow> a = b"
proof
  have known: "(n, s) \<in> set syscall_table \<Longrightarrow> s \<noteq> ''syscall_'' @ t" for n s t
    using syscall_table_no_number by (fastforce simp: list_all_iff)
  assume eq: "syscall_name a = syscall_name b"
  show "a = b"
  proof (cases "map_of syscall_table a")
    case None
    with eq known show ?thesis
      by (auto simp: syscall_name_def show_int_inject split: option.splits dest!: map_of_SomeD)
  next
    case (Some s)
    then have a: "(a, s) \<in> set syscall_table" by (rule map_of_SomeD)
    with eq Some known have "map_of syscall_table b = Some s"
      by (auto simp: syscall_name_def split: option.splits)
    then have "(b, s) \<in> set syscall_table" by (rule map_of_SomeD)
    with a syscall_table_distinct(2) show ?thesis by (metis Pair_inject eq_snd_iff eq_key_imp_eq_value
        distinct_map inj_on_def)
  qed
qed simp

section \<open>The counts\<close>

definition counted :: "counts \<Rightarrow> u64" where
  "counted m = (\<Sum>k\<in>dom m. count_of m k)"

definition tracer_wf :: "tracer \<Rightarrow> bool" where
  "tracer_wf t \<longleftrightarrow>
     finite (dom (syscall_counts t)) \<and> sample_count t = counted (syscall_counts t)
     \<and> (attached_pid t = None \<longrightarrow> syscall_counts t = (\<lambda>_. None) \<and> trace_start t = None)"

lemma counted_upd:
  assumes "finite (dom m)"
  shows "counted (m(k \<mapsto> count_of m k + n)) = counted m + n"
proof -
  have rest: "(\<Sum>j\<in>dom m - {k}. count_of (m(k \<mapsto> c)) j) = (\<Sum>j\<in>dom m - {k}. count_of m j)" for c
    by (rule sum.cong) (auto simp: count_of_def)
  have old: "counted m = count_of m k + (\<Sum>j\<in>dom m - {k}. count_of m j)"
    using assms by (cases "k \<in> dom m") (auto simp: counted_def sum.remove count_of_def split: option.split)
  have "counted (m(k \<mapsto> count_of m k + n)) = count_of m k + n + (\<Sum>j\<in>dom m - {k}. count_of m j)"
    using assms rest by (simp add: counted_def sum.insert_remove) (simp add: count_of_def)
  with old show ?thesis by (simp add: ac_simps)
qed

lemma tracer_new_wf [inv_intro]: "tracer_wf (with_anomaly_threshold q)"
  by (simp add: tracer_wf_def with_anomaly_threshold_def counted_def)

lemma attach_wf [inv_intro]: "tracer_wf t \<Longrightarrow> tracer_wf (snd (attach ex now pid t))"
  by (simp add: attach_def tracer_wf_def counted_def)

lemma detach_wf [inv_intro]: "tracer_wf (detach t)"
  by (simp add: detach_def tracer_wf_def counted_def)

lemma count_syscall_wf:
  "tracer_wf t \<Longrightarrow> attached_pid t \<noteq> None \<Longrightarrow> count_syscall bld name t = Some t'
     \<Longrightarrow> tracer_wf t' \<and> attached_pid t' = attached_pid t"
  by (auto simp: count_syscall_def tracer_wf_def counted_upd dest!: uadd_Some_eq split: option.splits)

lemma trace_collect_wf [inv_intro]: "tracer_wf t \<Longrightarrow> tracer_wf (snd (trace_collect bld iter read t))"
proof (cases "attached_pid t")
  case (Some pid)
  assume "tracer_wf t"
  with Some count_syscall_wf [of t bld] show ?thesis
    by (auto simp: trace_collect_def trace_collect_linux_def Let_def split: outcome.split option.split)
qed (simp add: trace_collect_def)

lemma sum_words_no_err [simp]: "sum_words bld ns acc \<noteq> Err e"
  by (induction ns arbitrary: acc) (auto simp: and_then_eq_Err)

lemma count_sum_no_err [simp]: "count_sum bld ns \<noteq> Err e"
  by (simp add: count_sum_def)

lemma analyses_no_err [simp]:
  "detect_frequency_anomaly bld iter t s \<noteq> Err e" "detect_anti_patterns bld iter m \<noteq> Err e"
  by (auto simp: detect_frequency_anomaly_def detect_anti_patterns_def and_then_eq_Err
      simp del: sum_words.simps split: option.splits if_splits)

datatype tracer_call = Attach "string \<Rightarrow> bool" instant u32 | Detach | Collect reader

fun tracer_step :: "build \<Rightarrow> count_order \<Rightarrow> tracer \<Rightarrow> tracer_call \<Rightarrow> tracer" where
  "tracer_step bld iter t (Attach ex now pid) = snd (attach ex now pid t)"
| "tracer_step bld iter t Detach = detach t"
| "tracer_step bld iter t (Collect read) = snd (trace_collect bld iter read t)"

interpretation tracer: invariant_machine "tracer_step bld iter" tracer_wf
proof
  fix t e assume "tracer_wf t"
  then show "tracer_wf (tracer_step bld iter t e)" by (cases e) (auto intro: inv_intro)
qed

text \<open>C36: In every state a tracer can reach, the sample count is the sum of the counts per system call
  (modulo \<open>2 ^ 64\<close>), a detached tracer holds no counts, and collecting reports the missing
  attachment exactly when there is none.\<close>

theorem tracer_counts_add_up:
  "let t = run (tracer_step bld iter) (with_anomaly_threshold q) es in
     sample_count t = (\<Sum>k\<in>dom (syscall_counts t). count_of (syscall_counts t) k)
     \<and> (case attached_pid t of None \<Rightarrow> syscall_counts t = (\<lambda>_. None) | Some _ \<Rightarrow> True)
     \<and> (fst (trace_collect bld iter read t) = Err (OTracer ''no daemon attached'')
          \<longleftrightarrow> attached_pid t = None)"
proof -
  let ?t = "run (tracer_step bld iter) (with_anomaly_threshold q) es"
  have wf: "tracer_wf ?t" by (rule tracer.run_good) (rule tracer_new_wf)
  have "trace_collect_linux bld iter read pid ?t = (Err e, u) \<Longrightarrow> False" for pid e u
    by (auto simp: trace_collect_linux_def Let_def and_then_eq_Err
        split: outcome.splits option.splits prod.splits)
  then have "fst (trace_collect bld iter read ?t) = Err (OTracer ''no daemon attached'')
      \<longleftrightarrow> attached_pid ?t = None"
    by (auto simp: trace_collect_def split: option.split) (metis prod.collapse)
  with wf show ?thesis by (auto simp: tracer_wf_def counted_def Let_def)
qed

section \<open>Busy polling\<close>

lemma f_lit_half: "f_lit (1 / 2) = Fin (1 / 2)" "rndq (1 / 2) = 1 / 2"
proof -
  show r: "rndq (1 / 2) = 1 / 2" using rndq_pow2 [of "- 1"] by (simp add: pow2_def power_int_minus)
  show "f_lit (1 / 2) = Fin (1 / 2)" using f_round_small [of "1 / 2"] r by simp
qed

lemma rndq_above_half:
  assumes "0 < b" "b \<le> 2 ^ 50" "b < 2 * a"
  shows "1 / 2 < rndq (of_nat a / of_nat b)"
proof -
  let ?h = "of_int (2 ^ 50 + 1) * pow2 (- 51)"
  have h: "?h = 1 / 2 + 1 / 2 ^ 51" by (simp add: pow2_def power_int_minus)
  have "ilog2 ?h = - 1" by (rule ilog2_unique) (simp_all add: pow2_def power_int_minus)
  then have exact: "rndq ?h = ?h" by (intro rndq_exact) (simp add: fexp_def)
  have b: "0 < (of_nat b :: rat)" "of_nat b \<le> (of_nat (2 ^ 50) :: rat)"
    using assms(1,2) by (simp, simp only: of_nat_le_iff)
  have "of_nat (b + 1) \<le> (of_nat (2 * a) :: rat)" using assms(3) by (simp only: of_nat_le_iff)
  then have "(of_nat b + 1) / 2 \<le> (of_nat a :: rat)" by simp
  then have "(of_nat b + 1) / 2 / of_nat b \<le> of_nat a / (of_nat b :: rat)"
    using b(1) by (intro divide_right_mono) simp_all
  then have "(of_nat b + 1) / (2 * of_nat b) \<le> of_nat a / (of_nat b :: rat)"
    by (simp only: divide_divide_eq_left)
  moreover have "(of_nat b + 1) / (2 * of_nat b) = 1 / 2 + 1 / (2 * (of_nat b :: rat))"
    using b(1) by (simp add: field_simps)
  moreover have "1 / 2 ^ 51 \<le> 1 / (2 * (of_nat b :: rat))"
    using b by (intro divide_left_mono) simp_all
  ultimately have "?h \<le> of_nat a / of_nat b" unfolding h by linarith
  then have "?h \<le> rndq (of_nat a / of_nat b)" using rndq_mono exact by metis
  moreover have "1 / 2 < ?h" unfolding h by simp
  ultimately show ?thesis by (rule less_le_trans [rotated])
qed

lemma rndq_not_above_half:
  assumes "0 < b" "2 * a \<le> b"
  shows "rndq (of_nat a / of_nat b) \<le> 1 / 2"
proof -
  have "of_nat (2 * a) \<le> (of_nat b :: rat)" using assms(2) by (simp only: of_nat_le_iff)
  then have "of_nat a / of_nat b \<le> (1 / 2 :: rat)" using assms(1) by (simp add: field_simps)
  then show ?thesis using rndq_mono f_lit_half(2) by metis
qed

lemma ratio_gt_half:
  assumes "0 < unat b" "unat b \<le> 2 ^ 50" "unat a \<le> 2 ^ 50"
  shows "f_gt (f_div (f_of_word (a :: u64)) (f_of_word (b :: u64))) (f_lit (1 / 2)) \<longleftrightarrow> unat b < 2 * unat a"
proof -
  have words: "f_of_word a = Fin (of_nat (unat a))" "f_of_word b = Fin (of_nat (unat b))"
    using assms(2,3) by (simp_all add: f_of_nat_small)
  have "of_nat 1 \<le> (of_nat (unat b) :: rat)" using assms(1) by (simp only: of_nat_le_iff)
  then have b1: "1 \<le> (of_nat (unat b) :: rat)" by (simp only: of_nat_1)
  have "(of_nat (unat a) :: rat) \<le> of_nat (2 ^ 50)" using assms(3) by (simp only: of_nat_le_iff)
  moreover have "of_nat (unat a) / of_nat (unat b) \<le> (of_nat (unat a) / 1 :: rat)"
    using b1 by (intro divide_left_mono of_nat_0_le_iff) simp_all
  ultimately have "of_nat (unat a) / of_nat (unat b) \<le> (2 ^ 64 :: rat)" by simp
  then have "f_round (of_nat (unat a) / of_nat (unat b)) = Fin (rndq (of_nat (unat a) / of_nat (unat b)))"
    by (intro f_round_small divide_nonneg_nonneg of_nat_0_le_iff)
  then show ?thesis
    using rndq_above_half [of "unat b" "unat a"] rndq_not_above_half [of "unat b" "unat a"] assms(1,2) b1
    by (cases "unat b < 2 * unat a") (simp_all add: words f_lit_half(1) not_less)
qed

text \<open>Busy polling is reported exactly when more than 100 polling calls make up more than half of all
  calls: up to \<open>2 ^ 50\<close> calls the floating-point comparison decides the exact ratio.\<close>

theorem busy_polling_exact:
  assumes "count_sum bld (map snd (iter m)) = Ok n" "unat n \<le> 2 ^ 50" "0 < unat n"
    and "sum_words bld (map (count_of m) [''select'', ''epoll_wait'', ''epoll_pwait'', ''pselect6''])
           (count_of m ''poll'') = Ok polls" "unat polls \<le> 2 ^ 50"
    and "detect_anti_patterns bld iter m = Ok ps"
  shows "(\<exists>p\<in>set ps. ap_name p = ''BusyPolling'') \<longleftrightarrow> 100 < unat polls \<and> unat n < 2 * unat polls"
proof -
  let ?busy = "ratio_pattern ''BusyPolling'' 3 ''poll/select'' ''consider longer timeouts'' (1 / 2) 100 polls n"
  have name: "ap_name p = s" if "p \<in> set (ratio_pattern s v w a l k c d)" for p s v w a l k c d
    using that by (auto simp: ratio_pattern_def Let_def split: if_splits)
  have n: "n \<noteq> 0" using assms(3) by auto
  obtain mem where "ps = ?busy
      @ ratio_pattern ''LockContention'' 4 ''futex'' ''possible lock contention'' (3 / 10) 100 (count_of m ''futex'') n
      @ ratio_pattern ''MemoryChurn'' 3 ''memory allocation'' ''consider object pooling'' (1 / 5) 50 mem n"
    using assms(6) unfolding detect_anti_patterns_def assms(1) and_then.simps assms(4)
    by (simp only: n if_False and_then_eq_Ok outcome.inject) blast
  then have "p \<in> set ps \<and> ap_name p = ''BusyPolling'' \<longleftrightarrow> p \<in> set ?busy" for p
    by (auto dest: name)
  then have "(\<exists>p\<in>set ps. ap_name p = ''BusyPolling'') \<longleftrightarrow> ?busy \<noteq> []"
    by (metis ex_in_conv set_empty)
  also have "\<dots> \<longleftrightarrow> 100 < unat polls \<and> unat n < 2 * unat polls"
    using ratio_gt_half [OF assms(3,2,5)] by (auto simp: ratio_pattern_def Let_def word_less_nat_alt)
  finally show ?thesis .
qed

definition polling_counts :: counts where
  "polling_counts = [''poll'' \<mapsto> 150, ''read'' \<mapsto> 149]"

lemma polling_words: "unat (150 :: u64) = 150" "unat (149 :: u64) = 149" "unat (299 :: u64) = 299"
  by simp_all

theorem busy_polling_exact_witness:
  "\<exists>ps. detect_anti_patterns Debug (\<lambda>_. [(''poll'', 150), (''read'', 149)]) polling_counts = Ok ps
     \<and> (\<exists>p\<in>set ps. ap_name p = ''BusyPolling'')"
proof -
  let ?iter = "\<lambda>_ :: counts. [(''poll'', 150), (''read'', 149)] :: (string \<times> u64) list"
  have total: "count_sum Debug (map snd (?iter polling_counts)) = Ok 299"
    by (simp add: count_sum_def uadd_def or_panic_def)
  have polls: "sum_words Debug (map (count_of polling_counts) [''select'', ''epoll_wait'', ''epoll_pwait'', ''pselect6''])
      (count_of polling_counts ''poll'') = Ok 150"
    by (simp add: count_of_def polling_counts_def uadd_def or_panic_def)
  have mem: "sum_words Debug (map (count_of polling_counts) [''mmap'', ''munmap'']) (count_of polling_counts ''brk'') = Ok 0"
    by (simp add: count_of_def polling_counts_def uadd_def or_panic_def)
  obtain ps where ps: "detect_anti_patterns Debug ?iter polling_counts = Ok ps"
    unfolding detect_anti_patterns_def total polls mem and_then.simps by auto
  have "\<exists>p\<in>set ps. ap_name p = ''BusyPolling''"
    using busy_polling_exact [OF total _ _ polls _ ps] by simp
  with ps show ?thesis by blast
qed

section \<open>The critical path\<close>

lemma by_count_sorted: "sorted_wrt (\<lambda>a b. unat (snd b) \<le> unat (snd a)) (by_count xs)"
  using sorted_sort_key [of "\<lambda>e. - int (unat (snd e))" xs]
  by (simp add: by_count_def sorted_map flip: word_le_nat_alt word_le_def)

text \<open>The critical path is the five most frequent system calls (all, if there are fewer) in descending
  order of their counts: no call left out is more frequent than one listed.\<close>

theorem critical_path_is_top_five:
  "\<exists>top rest. build_critical_path iter m = map (\<lambda>(name, n). name @ '' ('' @ show_word n @ '')'') top
     \<and> mset (top @ rest) = mset (iter m) \<and> length top = min 5 (length (iter m))
     \<and> sorted_wrt (\<lambda>a b. unat (snd b) \<le> unat (snd a)) (top @ rest)"
proof (intro exI conjI)
  show "build_critical_path iter m =
      map (\<lambda>(name, n). name @ '' ('' @ show_word n @ '')'') (take 5 (by_count (iter m)))"
    by (simp add: build_critical_path_def)
  show "mset (take 5 (by_count (iter m)) @ drop 5 (by_count (iter m))) = mset (iter m)"
    by (simp add: by_count_def)
  show "length (take 5 (by_count (iter m))) = min 5 (length (iter m))"
    by (simp add: by_count_def)
  show "sorted_wrt (\<lambda>a b. unat (snd b) \<le> unat (snd a)) (take 5 (by_count (iter m)) @ drop 5 (by_count (iter m)))"
    using by_count_sorted by simp
qed

end
