(* ===== verification/Obs_Health.thy ===== *)
theory Obs_Health
  imports Core_Types F64
begin

text \<open>
  Health monitoring, \<open>crates/duende-observe/src/health.rs\<close>: the health of every registered daemon with
  thresholds for failing and recovering. The file is in no module tree of the crate (its error constructor
  \<open>NotFound\<close> does not exist there), so it is modelled as written. The broadcast channel is the list of the
  events sent; locks make every method one step.
\<close>

datatype health_error = HNotFound string

datatype health_event =
    HEHealthy daemon_id health_status
  | HEUnhealthy daemon_id health_status u32
  | HETimeout daemon_id duration
  | HERecovered daemon_id u32

record health_config =
  hcf_check_interval :: duration
  hcf_check_timeout :: duration
  hcf_failure_threshold :: u32
  hcf_recovery_threshold :: u32

definition health_config_default :: health_config where
  "health_config_default =
     \<lparr>hcf_check_interval = from_secs 30, hcf_check_timeout = from_secs 5, hcf_failure_threshold = 3,
      hcf_recovery_threshold = 2\<rparr>"

definition with_check_interval :: "duration \<Rightarrow> health_config \<Rightarrow> health_config" where
  "with_check_interval interval c = c\<lparr>hcf_check_interval := interval\<rparr>"

definition with_check_timeout :: "duration \<Rightarrow> health_config \<Rightarrow> health_config" where
  "with_check_timeout timeout c = c\<lparr>hcf_check_timeout := timeout\<rparr>"

definition with_failure_threshold :: "u32 \<Rightarrow> health_config \<Rightarrow> health_config" where
  "with_failure_threshold threshold c = c\<lparr>hcf_failure_threshold := threshold\<rparr>"

definition with_recovery_threshold :: "u32 \<Rightarrow> health_config \<Rightarrow> health_config" where
  "with_recovery_threshold threshold c = c\<lparr>hcf_recovery_threshold := threshold\<rparr>"

record daemon_health =
  dhs_id :: daemon_id
  dhs_last_status :: "health_status option"
  dhs_last_check :: "instant option"
  dhs_consecutive_failures :: u32
  dhs_consecutive_successes :: u32
  dhs_is_healthy :: bool
  dhs_total_checks :: u64
  dhs_total_failures :: u64

definition daemon_health_new :: "daemon_id \<Rightarrow> daemon_health" where
  "daemon_health_new i =
     \<lparr>dhs_id = i, dhs_last_status = None, dhs_last_check = None, dhs_consecutive_failures = 0,
      dhs_consecutive_successes = 0, dhs_is_healthy = True, dhs_total_checks = 0, dhs_total_failures = 0\<rparr>"

text \<open>The two records answer whether they returned (\<open>False\<close> is an overflow panic) and the state they left.\<close>

definition health_record_success :: "build \<Rightarrow> instant \<Rightarrow> health_status \<Rightarrow> daemon_health \<Rightarrow> bool \<times> daemon_health" where
  "health_record_success bld now status s =
     (let s1 = s\<lparr>dhs_last_status := Some status, dhs_last_check := Some now, dhs_consecutive_failures := 0\<rparr> in
      case uadd bld (dhs_consecutive_successes s1) 1 of
        None \<Rightarrow> (False, s1)
      | Some n \<Rightarrow>
          (let s2 = s1\<lparr>dhs_consecutive_successes := n\<rparr> in
           case uadd bld (dhs_total_checks s2) 1 of
             None \<Rightarrow> (False, s2)
           | Some t \<Rightarrow> (True, s2\<lparr>dhs_total_checks := t\<rparr>)))"

definition health_record_failure ::
  "build \<Rightarrow> instant \<Rightarrow> health_status option \<Rightarrow> daemon_health \<Rightarrow> bool \<times> daemon_health" where
  "health_record_failure bld now status s =
     (let s1 = s\<lparr>dhs_last_status := status, dhs_last_check := Some now\<rparr> in
      case uadd bld (dhs_consecutive_failures s1) 1 of
        None \<Rightarrow> (False, s1)
      | Some n \<Rightarrow>
          (let s2 = s1\<lparr>dhs_consecutive_failures := n, dhs_consecutive_successes := 0\<rparr> in
           case uadd bld (dhs_total_checks s2) 1 of
             None \<Rightarrow> (False, s2)
           | Some t \<Rightarrow>
               (let s3 = s2\<lparr>dhs_total_checks := t\<rparr> in
                case uadd bld (dhs_total_failures s3) 1 of
                  None \<Rightarrow> (False, s3)
                | Some f \<Rightarrow> (True, s3\<lparr>dhs_total_failures := f\<rparr>))))"

definition failure_rate :: "daemon_health \<Rightarrow> f64" where
  "failure_rate s =
     (if dhs_total_checks s = 0 then Fin 0
      else f_mul (f_div (f_of_word (dhs_total_failures s)) (f_of_word (dhs_total_checks s))) (Fin 100))"

definition time_since_last_check :: "instant \<Rightarrow> daemon_health \<Rightarrow> duration option" where
  "time_since_last_check now s = map_option (\<lambda>t. elapsed now t) (dhs_last_check s)"

section \<open>The monitor\<close>

record health_monitor =
  hm_config :: health_config
  hm_states :: "daemon_id \<rightharpoonup> daemon_health"

definition health_monitor_new :: "health_config \<Rightarrow> health_monitor" where
  "health_monitor_new c = \<lparr>hm_config = c, hm_states = (\<lambda>_. None)\<rparr>"

definition health_register :: "daemon_id \<Rightarrow> health_monitor \<Rightarrow> health_monitor" where
  "health_register i m = m\<lparr>hm_states := (hm_states m)(i \<mapsto> daemon_health_new i)\<rparr>"

definition health_unregister :: "daemon_id \<Rightarrow> health_monitor \<Rightarrow> health_monitor" where
  "health_unregister i m = m\<lparr>hm_states := (hm_states m)(i := None)\<rparr>"

definition health_get_state :: "daemon_id \<Rightarrow> health_monitor \<Rightarrow> daemon_health option" where
  "health_get_state i m = hm_states m i"

text \<open>\<open>iter\<close> lists the values of the map in the order in which the hash map walks them.\<close>

type_synonym health_values = "(daemon_id \<rightharpoonup> daemon_health) \<Rightarrow> daemon_health list"

definition health_get_all_states :: "health_values \<Rightarrow> health_monitor \<Rightarrow> daemon_health list" where
  "health_get_all_states iter m = iter (hm_states m)"

definition health_count :: "health_values \<Rightarrow> health_monitor \<Rightarrow> nat" where
  "health_count iter m = length (iter (hm_states m))"

definition healthy_count :: "health_values \<Rightarrow> health_monitor \<Rightarrow> nat" where
  "healthy_count iter m = length (filter dhs_is_healthy (iter (hm_states m)))"

definition unhealthy_count :: "health_values \<Rightarrow> health_monitor \<Rightarrow> nat" where
  "unhealthy_count iter m = length (filter (\<lambda>s. \<not> dhs_is_healthy s) (iter (hm_states m)))"

definition store :: "daemon_id \<Rightarrow> daemon_health \<Rightarrow> health_monitor \<Rightarrow> health_monitor" where
  "store i s m = m\<lparr>hm_states := (hm_states m)(i \<mapsto> s)\<rparr>"

definition not_registered :: "id_printer \<Rightarrow> daemon_id \<Rightarrow> health_error" where
  "not_registered show_id i = HNotFound (''daemon '' @ show_id i @ '' not registered'')"

definition record_check ::
  "build \<Rightarrow> id_printer \<Rightarrow> instant \<Rightarrow> daemon_id \<Rightarrow> health_status \<Rightarrow> health_monitor
   \<Rightarrow> (health_error, unit) outcome \<times> health_monitor \<times> health_event list" where
  "record_check bld show_id now i status m =
     (case hm_states m i of
        None \<Rightarrow> (Err (not_registered show_id i), m, [])
      | Some s \<Rightarrow>
          (let was_healthy = dhs_is_healthy s in
           if is_healthy status then
             (case health_record_success bld now status s of
                (False, s') \<Rightarrow> (Panic, store i s' m, [])
              | (True, s') \<Rightarrow>
                  if \<not> was_healthy \<and> hcf_recovery_threshold (hm_config m) \<le> dhs_consecutive_successes s' then
                    (case usub bld (dhs_total_failures s') (ucast (dhs_consecutive_successes s')) of
                       None \<Rightarrow> (Panic, store i s' m, [])
                     | Some failures_before \<Rightarrow>
                         (Ok (), store i (s'\<lparr>dhs_is_healthy := True\<rparr>) m,
                          [HERecovered i (ucast failures_before), HEHealthy i status]))
                  else (Ok (), store i s' m, if dhs_is_healthy s' then [HEHealthy i status] else []))
           else
             (case health_record_failure bld now (Some status) s of
                (False, s') \<Rightarrow> (Panic, store i s' m, [])
              | (True, s') \<Rightarrow>
                  (Ok (),
                   store i (if was_healthy \<and> hcf_failure_threshold (hm_config m) \<le> dhs_consecutive_failures s'
                            then s'\<lparr>dhs_is_healthy := False\<rparr> else s') m,
                   [HEUnhealthy i status (dhs_consecutive_failures s')]))))"

definition record_timeout ::
  "build \<Rightarrow> id_printer \<Rightarrow> instant \<Rightarrow> daemon_id \<Rightarrow> health_monitor
   \<Rightarrow> (health_error, unit) outcome \<times> health_monitor \<times> health_event list" where
  "record_timeout bld show_id now i m =
     (case hm_states m i of
        None \<Rightarrow> (Err (not_registered show_id i), m, [])
      | Some s \<Rightarrow>
          (case health_record_failure bld now None s of
             (False, s') \<Rightarrow> (Panic, store i s' m, [])
           | (True, s') \<Rightarrow>
               (Ok (),
                store i (if dhs_is_healthy s' \<and> hcf_failure_threshold (hm_config m) \<le> dhs_consecutive_failures s'
                         then s'\<lparr>dhs_is_healthy := False\<rparr> else s') m,
                [HETimeout i (hcf_check_timeout (hm_config m))])))"

record health_statistics =
  hst_total_daemons :: nat
  hst_healthy_daemons :: nat
  hst_unhealthy_daemons :: nat
  hst_total_checks :: u64
  hst_total_failures :: u64
  hst_average_failure_rate :: f64

fun sum_u64 :: "build \<Rightarrow> u64 list \<Rightarrow> u64 \<Rightarrow> u64 option" where
  "sum_u64 bld [] acc = Some acc"
| "sum_u64 bld (n # ns) acc = (case uadd bld acc n of Some a \<Rightarrow> sum_u64 bld ns a | None \<Rightarrow> None)"

definition statistics :: "build \<Rightarrow> health_values \<Rightarrow> health_monitor \<Rightarrow> health_statistics option" where
  "statistics bld iter m =
     (let vs = iter (hm_states m); n = length vs; healthy = length (filter dhs_is_healthy vs) in
      case (sum_u64 bld (map dhs_total_checks vs) 0, sum_u64 bld (map dhs_total_failures vs) 0) of
        (Some checks, Some failures) \<Rightarrow>
          Some \<lparr>hst_total_daemons = n, hst_healthy_daemons = healthy, hst_unhealthy_daemons = n - healthy,
                hst_total_checks = checks, hst_total_failures = failures,
                hst_average_failure_rate =
                  (if vs \<noteq> [] then f_div (foldl f_add (Fin 0) (map failure_rate vs)) (f_of_nat n) else Fin 0)\<rparr>
      | _ \<Rightarrow> None)"

definition health_ratio :: "health_statistics \<Rightarrow> f64" where
  "health_ratio t =
     (if hst_total_daemons t = 0 then Fin 1
      else f_div (f_of_nat (hst_healthy_daemons t)) (f_of_nat (hst_total_daemons t)))"

definition all_healthy :: "health_statistics \<Rightarrow> bool" where
  "all_healthy t \<longleftrightarrow> hst_unhealthy_daemons t = 0"

section \<open>Specification: hysteresis over the results\<close>

text \<open>The results of a daemon, the newest first: the length of the latest streak, and the verdict. A healthy daemon
  becomes unhealthy at a failure that makes the streak of failures reach the failure threshold, an unhealthy one
  healthy at a success that makes the streak of successes reach the recovery threshold.\<close>

definition streak :: "bool \<Rightarrow> bool list \<Rightarrow> nat" where
  "streak b h = length (takeWhile (\<lambda>r. r = b) h)"

fun verdict :: "nat \<Rightarrow> nat \<Rightarrow> bool list \<Rightarrow> bool" where
  "verdict fails recovers [] = True"
| "verdict fails recovers (r # h) =
     (if r then verdict fails recovers h \<or> recovers \<le> streak True (r # h)
      else verdict fails recovers h \<and> \<not> fails \<le> streak False (r # h))"

lemma streak_Cons: "streak b (r # h) = (if r = b then Suc (streak b h) else 0)"
  by (simp add: streak_def)

lemma streak_le: "streak b h \<le> length h"
  by (simp add: streak_def length_takeWhile_le)

datatype health_call = HCheck instant daemon_id health_status | HTimedOut instant daemon_id

fun health_step :: "id_printer \<Rightarrow> health_monitor \<Rightarrow> health_call \<Rightarrow> health_monitor" where
  "health_step show_id m (HCheck now i status) = fst (snd (record_check Release show_id now i status m))"
| "health_step show_id m (HTimedOut now i) = fst (snd (record_timeout Release show_id now i m))"

fun result_of :: "daemon_id \<Rightarrow> health_call \<Rightarrow> bool option" where
  "result_of i (HCheck _ j status) = (if j = i then Some (is_healthy status) else None)"
| "result_of i (HTimedOut _ j) = (if j = i then Some False else None)"

definition agrees :: "health_config \<Rightarrow> bool list \<Rightarrow> daemon_health \<Rightarrow> bool" where
  "agrees c h s \<longleftrightarrow>
     dhs_is_healthy s = verdict (unat (hcf_failure_threshold c)) (unat (hcf_recovery_threshold c)) h
     \<and> unat (dhs_consecutive_failures s) = streak False h \<and> unat (dhs_consecutive_successes s) = streak True h
     \<and> dhs_total_checks s = of_nat (length h) \<and> dhs_total_failures s = of_nat (length (filter Not h))"

lemma agrees_new: "agrees c [] (daemon_health_new i)"
  by (simp add: agrees_def daemon_health_new_def streak_def)

lemma unat_streak_Suc:
  assumes "unat x = streak b h" "Suc (length h) < 2 ^ 32"
  shows "unat (x + 1 :: u32) = Suc (streak b h)"
proof -
  have "Suc (unat x) < 2 ^ LENGTH(32)" using assms streak_le [of b h] by simp
  then show ?thesis using assms(1) unat_suc_in_range [of x] by simp
qed

lemma config_kept [frame]:
  "hm_config (health_step show_id m call) = hm_config m"
  by (cases call)
    (auto simp: record_check_def record_timeout_def store_def Let_def split: option.split prod.split bool.split)

lemma step_other:
  "result_of i call = None \<Longrightarrow> hm_states (health_step show_id m call) i = hm_states m i"
  by (cases call)
    (auto simp: record_check_def record_timeout_def store_def Let_def split: option.split prod.split bool.split if_splits)

lemma success_step:
  assumes "agrees (hm_config m) h s" "hm_states m i = Some s" "Suc (length h) < 2 ^ 32" "is_healthy status"
  shows "\<exists>s'. hm_states (health_step show_id m (HCheck now i status)) i = Some s' \<and> agrees (hm_config m) (True # h) s'"
  using assms unat_streak_Suc [of "dhs_consecutive_successes s" True h]
  by (auto simp: record_check_def health_record_success_def store_def Let_def agrees_def streak_Cons word_le_nat_alt usub_def)

lemma failure_agrees:
  assumes "agrees c h s" "Suc (length h) < 2 ^ 32" "health_record_failure Release now status s = (b, s')"
  shows "b" and "agrees c (False # h)
    (if dhs_is_healthy s \<and> hcf_failure_threshold c \<le> dhs_consecutive_failures s' then s'\<lparr>dhs_is_healthy := False\<rparr> else s')"
    and "dhs_is_healthy s' = dhs_is_healthy s"
  using assms unat_streak_Suc [of "dhs_consecutive_failures s" False h]
  by (auto simp: health_record_failure_def Let_def agrees_def streak_Cons word_le_nat_alt)

lemma failure_step:
  assumes "agrees (hm_config m) h s" "hm_states m i = Some s" "Suc (length h) < 2 ^ 32" "result_of i call = Some False"
  shows "\<exists>s'. hm_states (health_step show_id m call) i = Some s' \<and> agrees (hm_config m) (False # h) s'"
proof (cases call)
  case (HCheck now j status)
  obtain b s' where r: "health_record_failure Release now (Some status) s = (b, s')" by fastforce
  from assms HCheck failure_agrees [OF assms(1,3) r] r show ?thesis
    by (auto simp: record_check_def store_def Let_def split: if_splits)
next
  case (HTimedOut now j)
  obtain b s' where r: "health_record_failure Release now None s = (b, s')" by fastforce
  from assms HTimedOut failure_agrees [OF assms(1,3) r] r show ?thesis
    by (auto simp: record_timeout_def store_def Let_def split: if_splits)
qed

lemma run_agrees:
  assumes "agrees (hm_config m) h s" "hm_states m i = Some s"
    and "length h + length (List.map_filter (result_of i) calls) < 2 ^ 32"
  shows "\<exists>s'. hm_states (run (health_step show_id) m calls) i = Some s'
      \<and> agrees (hm_config m) (rev (List.map_filter (result_of i) calls) @ h) s'"
  using assms
proof (induction calls arbitrary: m h s)
  case (Cons call calls)
  let ?m = "health_step show_id m call"
  show ?case
  proof (cases "result_of i call")
    case None
    with Cons.prems Cons.IH [of ?m h s] show ?thesis
      by (simp add: step_other config_kept map_filter_simps)
  next
    case (Some r)
    have "\<exists>s'. hm_states ?m i = Some s' \<and> agrees (hm_config m) (r # h) s'"
    proof (cases r)
      case True
      with Some obtain now status where call: "call = HCheck now i status" "is_healthy status"
        by (cases call) (auto split: if_splits)
      with Cons.prems Some success_step [of m h s i status show_id now] True show ?thesis
        by (simp add: map_filter_simps)
    next
      case False
      with Cons.prems Some failure_step [of m h s i call show_id] show ?thesis by (simp add: map_filter_simps)
    qed
    then obtain s' where s': "hm_states ?m i = Some s'" "agrees (hm_config ?m) (r # h) s'"
      by (auto simp: config_kept)
    have "length (r # h) + length (List.map_filter (result_of i) calls) < 2 ^ 32"
      using Cons.prems(3) Some by (simp add: map_filter_simps)
    from Cons.IH [OF s'(2,1) this] Some show ?thesis by (simp add: map_filter_simps config_kept)
  qed
qed (simp add: map_filter_simps)

section \<open>Properties\<close>

text \<open>Health monitoring refines the hysteresis specification. After any calls on any daemons, a registered
  daemon's health is the verdict on its own results alone, its counters are the lengths of its latest streaks and its
  totals the numbers of its results and failures (below \<open>2 ^ 32\<close> results, where the streak counters wrap).\<close>

theorem health_refines_verdict:
  assumes "length (List.map_filter (result_of i) calls) < 2 ^ 32"
  shows "let results = rev (List.map_filter (result_of i) calls); c = hm_config m in
     \<exists>s. health_get_state i (run (health_step show_id) (health_register i m) calls) = Some s
       \<and> dhs_is_healthy s = verdict (unat (hcf_failure_threshold c)) (unat (hcf_recovery_threshold c)) results
       \<and> unat (dhs_consecutive_failures s) = streak False results
       \<and> unat (dhs_consecutive_successes s) = streak True results
       \<and> dhs_total_checks s = of_nat (length results) \<and> dhs_total_failures s = of_nat (length (filter Not results))"
proof -
  obtain s where "hm_states (run (health_step show_id) (health_register i m) calls) i = Some s"
    "agrees (hm_config m) (rev (List.map_filter (result_of i) calls) @ []) s"
    using run_agrees [of "health_register i m" "[]" "daemon_health_new i" i calls show_id] assms
    by (auto simp: agrees_new health_register_def)
  then show ?thesis
    unfolding Let_def health_get_state_def agrees_def by (intro exI [of _ s]) simp
qed

definition bad_result :: health_status where
  "bad_result = \<lparr>hs_healthy = False, hs_checks = [], hs_latency_ms = 0, hs_last_check_epoch_ms = 0\<rparr>"

definition good_result :: health_status where
  "good_result = bad_result\<lparr>hs_healthy := True\<rparr>"

theorem health_refines_verdict_witness:
  "\<exists>s. health_get_state 7 (run (health_step (\<lambda>_. ''id'')) (health_register 7 (health_monitor_new health_config_default))
       [HCheck 1 7 bad_result, HTimedOut 2 7, HCheck 2 8 good_result, HTimedOut 3 7]) = Some s \<and> \<not> dhs_is_healthy s"
  using health_refines_verdict [of 7 "[HCheck 1 7 bad_result, HTimedOut 2 7, HCheck 2 8 good_result, HTimedOut 3 7]"
      "health_monitor_new health_config_default" "\<lambda>_. ''id''"]
  by (auto simp: map_filter_simps bad_result_def is_healthy_def health_monitor_new_def health_config_default_def
      streak_def)

text \<open>A daemon after \<open>n\<close> timeouts that made it unhealthy, and after one success more.\<close>

definition fallen :: "daemon_id \<Rightarrow> u32 \<Rightarrow> daemon_health" where
  "fallen i n = \<lparr>dhs_id = i, dhs_last_status = None, dhs_last_check = Some (unat n), dhs_consecutive_failures = n,
     dhs_consecutive_successes = 0, dhs_is_healthy = False, dhs_total_checks = ucast n, dhs_total_failures = ucast n\<rparr>"

definition rising :: "daemon_id \<Rightarrow> u32 \<Rightarrow> daemon_health" where
  "rising i n = (fallen i n)\<lparr>dhs_last_status := Some good_result, dhs_last_check := Some (Suc (unat n)), dhs_consecutive_failures := 0,
     dhs_consecutive_successes := 1, dhs_total_checks := ucast n + 1\<rparr>"

lemma default_fallen: "hm_states (run (health_step p) (health_register i (health_monitor_new health_config_default))
              [HTimedOut 1 i, HTimedOut 2 i, HTimedOut 3 i]) i = Some (fallen i 3)"
  by (simp add: health_monitor_new_def health_config_default_def health_register_def record_timeout_def
   health_record_failure_def daemon_health_new_def store_def Let_def fallen_def)

lemma strict_fallen: "hm_states (run (health_step p) (health_register i (health_monitor_new (health_config_default\<lparr>hcf_failure_threshold := 1\<rparr>)))
              [HTimedOut 1 i]) i = Some (fallen i 1)"
  by (simp add: health_monitor_new_def health_config_default_def health_register_def record_timeout_def
   health_record_failure_def daemon_health_new_def store_def Let_def fallen_def)

lemma first_success: "hm_states m i = Some (fallen i n) \<Longrightarrow> hcf_recovery_threshold (hm_config m) = 2 \<Longrightarrow>
  hm_states (health_step p m (HCheck (Suc (unat n)) i good_result)) i = Some (rising i n)"
  by (simp add: record_check_def health_record_success_def Let_def fallen_def rising_def good_result_def bad_result_def is_healthy_def store_def word_le_nat_alt)

lemma recovery_after_three: "hm_states m i = Some (rising i 3) \<Longrightarrow> hcf_recovery_threshold (hm_config m) = 2 \<Longrightarrow>
  snd (snd (record_check bld p t i good_result m)) = [HERecovered i 1, HEHealthy i good_result]"
  by (simp add: record_check_def health_record_success_def Let_def rising_def fallen_def uadd_in_range good_result_def is_healthy_def
     usub_in_range word_le_nat_alt)
lemma ucast_minus_one: "(ucast (- 1 :: u64) :: u32) = - 1"
  by (rule bit_word_eqI) (simp add: bit_simps)

lemma recovery_after_one: "hm_states m i = Some (rising i 1) \<Longrightarrow> hcf_recovery_threshold (hm_config m) = 2 \<Longrightarrow>
  fst (record_check Debug p t i good_result m) = Panic \<and> snd (snd (record_check Release p t i good_result m)) = [HERecovered i (- 1), HEHealthy i good_result]"
  by (simp add: record_check_def health_record_success_def Let_def rising_def fallen_def uadd_in_range good_result_def is_healthy_def
     usub_def word_le_nat_alt ucast_minus_one)

text \<open>A recovery reports \<open>total_failures - consecutive_successes\<close>, which is not the number of failures before
  it. With the default thresholds three failures and two successes report one; with a failure threshold of one and
  a recovery threshold of two, one failure and two successes make a debug build panic and a release build report
  \<open>2 ^ 32 - 1\<close>.\<close>

theorem recovery_miscounts_failures:
  "(let m = run (health_step p) (health_register i (health_monitor_new health_config_default))
              [HTimedOut 1 i, HTimedOut 2 i, HTimedOut 3 i, HCheck 4 i good_result]
    in snd (snd (record_check bld p 5 i good_result m)) = [HERecovered i 1, HEHealthy i good_result])
   \<and> (let c = health_config_default\<lparr>hcf_failure_threshold := 1\<rparr>;
          m = run (health_step p) (health_register i (health_monitor_new c)) [HTimedOut 1 i, HCheck 2 i good_result]
      in fst (record_check Debug p 3 i good_result m) = Panic
       \<and> snd (snd (record_check Release p 3 i good_result m)) = [HERecovered i (- 1), HEHealthy i good_result])"
proof -
  let ?default = "health_register i (health_monitor_new health_config_default)"
  let ?strict = "health_register i (health_monitor_new (health_config_default\<lparr>hcf_failure_threshold := 1\<rparr>))"
  have config: "hm_config (run (health_step p) m calls) = hm_config m" for m calls
    by (induction calls arbitrary: m) (simp_all add: config_kept)
  have two: "hcf_recovery_threshold (hm_config ?default) = 2" "hcf_recovery_threshold (hm_config ?strict) = 2"
    by (simp_all add: health_register_def health_monitor_new_def health_config_default_def)
  let ?m = "run (health_step p) ?default [HTimedOut 1 i, HTimedOut 2 i, HTimedOut 3 i]"
  let ?n = "run (health_step p) ?strict [HTimedOut 1 i]"
  have m: "hcf_recovery_threshold (hm_config ?m) = 2" and n: "hcf_recovery_threshold (hm_config ?n) = 2"
    by (simp_all only: config two)
  have "Suc (unat (3 :: u32)) = 4" "Suc (unat (1 :: u32)) = 2" by simp_all
  then have "hm_states (health_step p ?m (HCheck 4 i good_result)) i = Some (rising i 3)"
    "hm_states (health_step p ?n (HCheck 2 i good_result)) i = Some (rising i 1)"
    using first_success [OF default_fallen m, of p] first_success [OF strict_fallen n, of p] by metis+
  then show ?thesis
    using recovery_after_three [of "health_step p ?m (HCheck 4 i good_result)" i bld p 5]
      recovery_after_one [of "health_step p ?n (HCheck 2 i good_result)" i p 3] two
    by (simp add: Let_def config_kept del: health_step.simps)
qed

end
