(* ===== verification/Mlock.thy ===== *)
theory Mlock
  imports Rust_Text
begin

unbundle bit_operations_syntax

text \<open>
  Memory locking, \<open>crates/duende-mlock/src\<close>: configuration and flags (\<open>config.rs\<close>), errors
  (\<open>error.rs\<close>), the status (\<open>status.rs\<close>), the Unix and the fallback implementation (\<open>unix.rs\<close>,
  \<open>unsupported.rs\<close>). \<open>usize\<close> has 64 bits. The kernel is an argument: \<open>mlockall\<close> and \<open>munlockall\<close>
  act on a state \<open>'w\<close> and give an errno when they fail; \<open>proc_status\<close> is the text of
  \<open>/proc/self/status\<close>, if it can be read. The constants are those of Linux.
\<close>

section \<open>Configuration\<close>

record mlock_config =
  ml_current :: bool
  ml_future :: bool
  ml_required :: bool
  ml_onfault :: bool

definition mlock_default :: mlock_config where
  "mlock_default = \<lparr>ml_current = True, ml_future = True, ml_required = True, ml_onfault = False\<rparr>"

definition ml_set_current :: "bool \<Rightarrow> mlock_config \<Rightarrow> mlock_config" where
  "ml_set_current v c = c\<lparr>ml_current := v\<rparr>"

definition ml_set_future :: "bool \<Rightarrow> mlock_config \<Rightarrow> mlock_config" where
  "ml_set_future v c = c\<lparr>ml_future := v\<rparr>"

definition ml_set_required :: "bool \<Rightarrow> mlock_config \<Rightarrow> mlock_config" where
  "ml_set_required v c = c\<lparr>ml_required := v\<rparr>"

definition ml_set_onfault :: "bool \<Rightarrow> mlock_config \<Rightarrow> mlock_config" where
  "ml_set_onfault v c = c\<lparr>ml_onfault := v\<rparr>"

definition as_flags :: "mlock_config \<Rightarrow> i32" where
  "as_flags c =
     (let flags = 0;
          flags = (if ml_current c then flags OR 1 else flags);
          flags = (if ml_future c then flags OR 2 else flags)
      in if ml_onfault c then flags OR 4 else flags)"

lemma as_flags_bits:
  "bit (as_flags c) 0 = ml_current c" "bit (as_flags c) 1 = ml_future c" "bit (as_flags c) 2 = ml_onfault c"
  "as_flags c = 0 \<longleftrightarrow> \<not> ml_current c \<and> \<not> ml_future c \<and> \<not> ml_onfault c"
  by (cases "ml_current c"; cases "ml_future c"; cases "ml_onfault c"; simp add: as_flags_def bit_simps)+

section \<open>Errors\<close>

datatype mlock_error =
    MPermissionDenied
  | MResourceLimit
  | MInvalidArgument
  | MWouldBlock
  | MUnknown i32

definition from_errno :: "i32 \<Rightarrow> mlock_error" where
  "from_errno e =
     (if e = 1 then MPermissionDenied
      else if e = 12 then MResourceLimit
      else if e = 22 then MInvalidArgument
      else if e = 11 then MWouldBlock
      else MUnknown e)"

definition mlock_errno :: "mlock_error \<Rightarrow> i32 option" where
  "mlock_errno e =
     (case e of MPermissionDenied \<Rightarrow> Some 1 | MResourceLimit \<Rightarrow> Some 12 | MInvalidArgument \<Rightarrow> Some 22
      | MWouldBlock \<Rightarrow> Some 11 | MUnknown n \<Rightarrow> Some n)"

definition is_permission_error :: "mlock_error \<Rightarrow> bool" where
  "is_permission_error e \<longleftrightarrow> e = MPermissionDenied"

definition is_resource_limit :: "mlock_error \<Rightarrow> bool" where
  "is_resource_limit e \<longleftrightarrow> e = MResourceLimit"

definition show_mlock_error :: "mlock_error \<Rightarrow> string" where
  "show_mlock_error e =
     (case e of
        MPermissionDenied \<Rightarrow>
          ''permission denied: need CAP_IPC_LOCK capability or root (docker: --cap-add=IPC_LOCK)''
      | MResourceLimit \<Rightarrow>
          ''resource limit: RLIMIT_MEMLOCK too low or insufficient memory (docker: --ulimit memlock=-1:-1)''
      | MInvalidArgument \<Rightarrow> ''invalid argument: unsupported flags for this kernel''
      | MWouldBlock \<Rightarrow> ''would block: some pages could not be locked''
      | MUnknown n \<Rightarrow> ''mlock failed with errno='' @ show_i32 n)"

text \<open>Every errno comes back; so the classification loses nothing.\<close>

interpretation errno_class: codec from_errno mlock_errno
  by unfold_locales (simp add: from_errno_def mlock_errno_def)

section \<open>Status\<close>

datatype mlock_status = Locked u64 | FailedLock i32 | Unsupported

fun ms_is_locked :: "mlock_status \<Rightarrow> bool" where
  "ms_is_locked (Locked _) = True"
| "ms_is_locked _ = False"

fun ms_is_failed :: "mlock_status \<Rightarrow> bool" where
  "ms_is_failed (FailedLock _) = True"
| "ms_is_failed _ = False"

fun ms_is_unsupported :: "mlock_status \<Rightarrow> bool" where
  "ms_is_unsupported Unsupported = True"
| "ms_is_unsupported _ = False"

fun ms_bytes_locked :: "mlock_status \<Rightarrow> u64" where
  "ms_bytes_locked (Locked n) = n"
| "ms_bytes_locked _ = 0"

fun ms_failure_errno :: "mlock_status \<Rightarrow> i32 option" where
  "ms_failure_errno (FailedLock e) = Some e"
| "ms_failure_errno _ = None"

definition show_mlock_status :: "mlock_status \<Rightarrow> string" where
  "show_mlock_status s =
     (case s of
        Locked n \<Rightarrow>
          if 1024 * 1024 \<le> n then ''locked ('' @ show_word (n div (1024 * 1024)) @ '' MB)''
          else if 1024 \<le> n then ''locked ('' @ show_word (n div 1024) @ '' KB)''
          else ''locked ('' @ show_word n @ '' bytes)''
      | FailedLock e \<Rightarrow> ''failed (errno='' @ show_i32 e @ '')''
      | Unsupported \<Rightarrow> ''unsupported platform'')"

section \<open>Locking\<close>

text \<open>\<open>None\<close> is success, otherwise the errno.\<close>

type_synonym 'w lock_call = "'w \<Rightarrow> i32 option \<times> 'w"

text \<open>The panic is the overflow of \<open>kb * 1024\<close> in a debug build.\<close>

fun vm_lck :: "build \<Rightarrow> string list \<Rightarrow> (unit, u64) outcome" where
  "vm_lck bld [] = Ok 0"
| "vm_lck bld (line # rest) =
     (case strip_prefix ''VmLck:'' line of
        Some text \<Rightarrow>
          (case strip_suffix '' kB'' (trim text) of
             Some kb_str \<Rightarrow>
               (case parse_u64 (trim kb_str) of
                  Some kb \<Rightarrow> (case umul bld kb 1024 of Some n \<Rightarrow> Ok n | None \<Rightarrow> Panic)
                | None \<Rightarrow> vm_lck bld rest)
           | None \<Rightarrow> vm_lck bld rest)
      | None \<Rightarrow> vm_lck bld rest)"

definition locked_bytes :: "build \<Rightarrow> string option \<Rightarrow> (unit, u64) outcome" where
  "locked_bytes bld proc_status =
     (case proc_status of Some text \<Rightarrow> vm_lck bld (lines text) | None \<Rightarrow> Ok 0)"

definition is_locked :: "build \<Rightarrow> string option \<Rightarrow> (unit, bool) outcome" where
  "is_locked bld proc_status = and_then (locked_bytes bld proc_status) (\<lambda>n. Ok (0 < n))"

definition lock_with_config ::
  "build \<Rightarrow> (i32 \<Rightarrow> 'w lock_call) \<Rightarrow> ('w \<Rightarrow> string option) \<Rightarrow> mlock_config \<Rightarrow> 'w
   \<Rightarrow> (mlock_error, mlock_status) outcome \<times> 'w" where
  "lock_with_config bld mlockall proc_status c w =
     (let flags = as_flags c in
      if flags = 0 then (Ok (Locked 0), w)
      else
        (case mlockall flags w of
           (None, w') \<Rightarrow>
             (case locked_bytes bld (proc_status w') of
                Ok n \<Rightarrow> (Ok (Locked n), w')
              | _ \<Rightarrow> (Panic, w'))
         | (Some errno, w') \<Rightarrow>
             (if ml_required c then Err (from_errno errno) else Ok (FailedLock errno), w')))"

definition lock_all ::
  "build \<Rightarrow> (i32 \<Rightarrow> 'w lock_call) \<Rightarrow> ('w \<Rightarrow> string option) \<Rightarrow> 'w
   \<Rightarrow> (mlock_error, mlock_status) outcome \<times> 'w" where
  "lock_all bld mlockall proc_status w = lock_with_config bld mlockall proc_status mlock_default w"

definition unlock_all :: "'w lock_call \<Rightarrow> 'w \<Rightarrow> (mlock_error, unit) outcome \<times> 'w" where
  "unlock_all munlockall w =
     (case munlockall w of
        (None, w') \<Rightarrow> (Ok (), w')
      | (Some errno, w') \<Rightarrow> (Err (from_errno errno), w'))"

definition unsupported_lock_with_config :: "mlock_config \<Rightarrow> (mlock_error, mlock_status) outcome" where
  "unsupported_lock_with_config c =
     (if ml_required c then Err MInvalidArgument else Ok Unsupported)"

section \<open>What a lock request promises\<close>

text \<open>A lock request asks the kernel for exactly the flags that are set and not at all when none is;
  it fails only when the kernel refused and locking is required, with an error that keeps the
  errno, and reports the errno in the status when it is not required.\<close>

theorem lock_request_outcomes:
  "(as_flags c = 0 \<longleftrightarrow> \<not> ml_current c \<and> \<not> ml_future c \<and> \<not> ml_onfault c)
   \<and> (bit (as_flags c) 0 = ml_current c \<and> bit (as_flags c) 1 = ml_future c
      \<and> bit (as_flags c) 2 = ml_onfault c)
   \<and> (fst (lock_with_config bld mlockall st c w) = Err e \<longleftrightarrow>
        as_flags c \<noteq> 0 \<and> ml_required c
        \<and> (\<exists>n. fst (mlockall (as_flags c) w) = Some n \<and> e = from_errno n \<and> mlock_errno e = Some n))
   \<and> (fst (lock_with_config bld mlockall st c w) = Ok (FailedLock n) \<longleftrightarrow>
        as_flags c \<noteq> 0 \<and> \<not> ml_required c \<and> fst (mlockall (as_flags c) w) = Some n)
   \<and> snd (lock_with_config bld mlockall st c w) =
        (if as_flags c = 0 then w else snd (mlockall (as_flags c) w))"
proof (intro conjI)
  show "as_flags c = 0 \<longleftrightarrow> \<not> ml_current c \<and> \<not> ml_future c \<and> \<not> ml_onfault c"
    by (rule as_flags_bits)
  show "bit (as_flags c) 0 = ml_current c" "bit (as_flags c) 1 = ml_future c" "bit (as_flags c) 2 = ml_onfault c"
    by (rule as_flags_bits)+
qed (auto simp: lock_with_config_def Let_def errno_class.dec_enc
      split: prod.splits option.splits outcome.splits)

text \<open>The locked bytes are those of the first \<open>VmLck\<close> line of \<open>/proc/self/status\<close>, whatever blanks stand
  before the number and whatever other lines there are, in kilobytes of 1024.\<close>

theorem locked_bytes_parsed:
  assumes "list_all line_text (before @ after)" "list_all blank bs" "list_all (\<lambda>c. c \<noteq> byte 10 \<and> c \<noteq> byte 13) bs"
    and "list_all (\<lambda>l. \<not> prefix ''VmLck:'' l) before" "unat kb * 1024 < 2 ^ 64"
  shows "locked_bytes bld (Some (unlines (before @ [''VmLck:'' @ bs @ show_word kb @ '' kB''] @ after)))
    = Ok (kb * 1024)"
proof -
  let ?line = "''VmLck:'' @ bs @ show_word kb @ '' kB''"
  have "line_text (show_word kb)"
    using show_nat_digits [of "unat kb"] by (auto simp: line_text_def list_all_iff is_digit_def)
  then have "line_text ?line"
    using assms(3) by (auto simp: line_text_def list_all_iff) (metis char_of_char)+
  with assms(1) have "list_all line_text (before @ [?line] @ after)" by simp
  then have "lines (unlines (before @ [?line] @ after)) = before @ [?line] @ after" by (rule lines_unlines)
  moreover have "vm_lck bld (before @ ls) = vm_lck bld ls" for ls
    using assms(4) by (induction before) (simp_all add: strip_prefix_def)
  moreover have "trim (bs @ show_word kb @ '' kB'') = show_word kb @ '' kB''"
    using assms(2) show_nat_graphic [of "unat kb"] by (intro trim_eq) (simp_all add: graphic_def)
  moreover have "trim (show_word kb) = show_word kb"
    using trim_eq [of "[]" "show_word kb"] show_nat_graphic [of "unat kb"] by simp
  moreover have "strip_suffix '' kB'' (show_word kb @ '' kB'') = Some (show_word kb)"
    by (simp add: strip_suffix_Some_iff)
  ultimately show ?thesis using assms(5)
    by (simp add: locked_bytes_def strip_prefix_def umul_def)
qed

theorem locked_bytes_parsed_witness:
  "locked_bytes Debug (Some (unlines ([''Name: daemon''] @ [''VmLck:'' @ [byte 9, CHR '' ''] @ show_word (64 :: u64) @ '' kB'']
     @ [''VmPin: 0 kB'']))) = Ok 65536"
proof -
  have tab: "byte 9 \<noteq> byte 10" "byte 9 \<noteq> byte 13" "CHR '' '' \<noteq> byte 10" "CHR '' '' \<noteq> byte 13"
    by code_simp+
  show ?thesis
    using locked_bytes_parsed [of "[''Name: daemon'']" "[''VmPin: 0 kB'']" "[byte 9, CHR '' '']" "64 :: u64" Debug] tab
    by (simp add: line_text_def blank_def)
qed

end
