(* ===== verification/Ublk.thy ===== *)
theory Ublk
  imports Rust_Text
begin

unbundle bit_operations_syntax

text \<open>
  Control of ublk devices, \<open>crates/duende-ublk/src\<close>: ioctl numbers and the command layout (\<open>sys.rs\<close>),
  errors (\<open>error.rs\<close>), and the commands, orphan detection and cleanup (\<open>control.rs\<close>).

  The ring belongs to the \<open>io_uring\<close> crate and the kernel: \<open>uring\<close> is what they do on a state \<open>'k\<close>. Every
  call takes some time, which the clock of \<open>ctrl\<close> counts. A completion is its result code; all
  entries carry the same user data, which the code does not look at. \<open>repr(C)\<close> structs are laid out for a
  little-endian machine, on which they have no holes.
\<close>

section \<open>Errors\<close>

datatype 'io ublk_error =
    ControlDeviceNotFound
  | OpenControl 'io
  | DeviceNotFound u32
  | DeviceBusy u32
  | IoUringCreate 'io
  | IoUringSubmit 'io
  | IoUringCommand i32 string
  | ScanDevDir 'io
  | UTimeout u64

definition ublk_from_errno :: "i32 \<Rightarrow> 'io ublk_error" where
  "ublk_from_errno errno = IoUringCommand errno
     (if errno = - 2 then ''device not found''
      else if errno = - 17 then ''device already exists''
      else if errno = - 16 then ''device is busy''
      else if errno = - 1 then ''permission denied''
      else if errno = - 22 then ''invalid argument''
      else ''unknown error ('' @ show_i32 errno @ '')'')"

fun is_not_found :: "'io ublk_error \<Rightarrow> bool" where
  "is_not_found (DeviceNotFound _) = True"
| "is_not_found (IoUringCommand errno _) = (errno = - 2)"
| "is_not_found _ = False"

fun is_permission_denied :: "'io ublk_error \<Rightarrow> bool" where
  "is_permission_denied (IoUringCommand errno _) = (errno = - 1)"
| "is_permission_denied _ = False"

section \<open>Opcodes and command layout\<close>

definition ior :: "u32 \<Rightarrow> u32 \<Rightarrow> u64 \<Rightarrow> u32" where
  "ior ty nr sz = push_bit 30 2 OR push_bit 16 (ucast sz) OR push_bit 8 ty OR nr"

definition iowr :: "u32 \<Rightarrow> u32 \<Rightarrow> u64 \<Rightarrow> u32" where
  "iowr ty nr sz = push_bit 30 3 OR push_bit 16 (ucast sz) OR push_bit 8 ty OR nr"

definition ublk_u_cmd_get_dev_info :: u32 where
  "ublk_u_cmd_get_dev_info = ior 117 2 32"

definition ublk_u_cmd_del_dev :: u32 where
  "ublk_u_cmd_del_dev = iowr 117 5 32"

definition ublk_u_cmd_stop_dev :: u32 where
  "ublk_u_cmd_stop_dev = iowr 117 7 32"

record ublk_ctrl_cmd =
  uc_dev_id :: u32
  uc_queue_id :: u16
  uc_len :: u16
  uc_addr :: u64
  uc_data :: u64
  uc_dev_path_len :: u16
  uc_pad :: u16
  uc_reserved :: u32

definition ctrl_cmd_default :: ublk_ctrl_cmd where
  "ctrl_cmd_default =
     \<lparr>uc_dev_id = - 1, uc_queue_id = - 1, uc_len = 0, uc_addr = 0, uc_data = 0, uc_dev_path_len = 0,
      uc_pad = 0, uc_reserved = 0\<rparr>"

record ublk_ctrl_cmd_ext =
  ue_cmd :: ublk_ctrl_cmd
  ue_padding :: "u8 list"

definition cmd_for_device :: "u32 \<Rightarrow> ublk_ctrl_cmd_ext" where
  "cmd_for_device dev_id =
     \<lparr>ue_cmd = ctrl_cmd_default\<lparr>uc_dev_id := dev_id, uc_queue_id := - 1\<rparr>, ue_padding = replicate 48 0\<rparr>"

definition build_get_info_command :: "u32 \<Rightarrow> u64 \<Rightarrow> ublk_ctrl_cmd_ext" where
  "build_get_info_command dev_id info_ptr =
     \<lparr>ue_cmd = ctrl_cmd_default\<lparr>uc_dev_id := dev_id, uc_queue_id := - 1, uc_len := 64, uc_addr := info_ptr\<rparr>,
      ue_padding = replicate 48 0\<rparr>"

text \<open>\<open>n\<close> bytes of a word, least significant first.\<close>

fun le_bytes :: "nat \<Rightarrow> 'w::len word \<Rightarrow> u8 list" where
  "le_bytes 0 w = []"
| "le_bytes (Suc n) w = ucast w # le_bytes n (drop_bit 8 w)"

definition cmd_bytes :: "ublk_ctrl_cmd \<Rightarrow> u8 list" where
  "cmd_bytes c =
     le_bytes 4 (uc_dev_id c) @ le_bytes 2 (uc_queue_id c) @ le_bytes 2 (uc_len c)
     @ le_bytes 8 (uc_addr c) @ le_bytes 8 (uc_data c) @ le_bytes 2 (uc_dev_path_len c)
     @ le_bytes 2 (uc_pad c) @ le_bytes 4 (uc_reserved c)"

definition to_bytes :: "ublk_ctrl_cmd_ext \<Rightarrow> u8 list" where
  "to_bytes e = cmd_bytes (ue_cmd e) @ ue_padding e"

record ublk_ctrl_dev_info =
  di_nr_hw_queues :: u16
  di_queue_depth :: u16
  di_state :: u16
  di_pad0 :: u16
  di_max_io_buf_bytes :: u32
  di_dev_id :: u32
  di_ublksrv_pid :: i32
  di_pad1 :: u32
  di_flags :: u64
  di_ublksrv_flags :: u64
  di_owner_uid :: u32
  di_owner_gid :: u32
  di_reserved1 :: u64
  di_reserved2 :: u64

section \<open>Commands\<close>

text \<open>The ring's operations, on the state of the kernel. Only \<open>u_submit_and_wait\<close> waits for a completion, without a limit;
  \<open>None\<close> is waiting for ever.\<close>

record ('io, 'k) uring =
  u_push :: "u32 \<Rightarrow> u8 list \<Rightarrow> 'k \<Rightarrow> bool \<times> duration \<times> 'k"
  u_submit :: "'k \<Rightarrow> 'io option \<times> duration \<times> 'k"
  u_submit_and_wait :: "'k \<Rightarrow> ('io option \<times> duration \<times> 'k) option"
  u_next :: "'k \<Rightarrow> i32 option \<times> duration \<times> 'k"
  u_sleep :: "duration \<Rightarrow> 'k \<Rightarrow> duration \<times> 'k"
  u_enospc :: 'io

record 'k ctrl =
  c_clock :: instant
  c_kernel :: 'k

definition timed :: "('k \<Rightarrow> 'a \<times> duration \<times> 'k) \<Rightarrow> 'k ctrl \<Rightarrow> 'a \<times> 'k ctrl" where
  "timed f c = (case f (c_kernel c) of (a, took, k) \<Rightarrow> (a, \<lparr>c_clock = c_clock c + took, c_kernel = k\<rparr>))"

definition nap :: "('io, 'k) uring \<Rightarrow> duration \<Rightarrow> 'k ctrl \<Rightarrow> 'k ctrl" where
  "nap u d c = (case u_sleep u d (c_kernel c) of
     (extra, k) \<Rightarrow> \<lparr>c_clock = c_clock c + d + extra, c_kernel = k\<rparr>)"

definition interpret_command_result :: "i32 \<Rightarrow> u32 \<Rightarrow> ('io ublk_error, bool) outcome" where
  "interpret_command_result res dev_id =
     (if 0 \<le>s res then Ok True
      else if res = - 2 then Ok False
      else if res = - 16 then Err (DeviceBusy dev_id)
      else Err (ublk_from_errno res))"

text \<open>The body of the polling loop reads the result code itself.\<close>

definition completion_result :: "i32 \<Rightarrow> u32 \<Rightarrow> ('io ublk_error, bool) outcome" where
  "completion_result res dev_id =
     (if res <s 0 then
        if res = - 2 then Ok False
        else if res = - 16 then Err (DeviceBusy dev_id)
        else Err (ublk_from_errno res)
      else Ok True)"

fun poll_completion ::
  "nat \<Rightarrow> ('io, 'k) uring \<Rightarrow> u32 \<Rightarrow> instant \<Rightarrow> duration \<Rightarrow> 'k ctrl
   \<Rightarrow> (('io ublk_error, bool) outcome \<times> 'k ctrl) option" where
  "poll_completion 0 u dev_id start timeout c = None"
| "poll_completion (Suc n) u dev_id start timeout c =
     (case timed (u_next u) c of
        (Some res, c') \<Rightarrow> Some (completion_result res dev_id, c')
      | (None, c') \<Rightarrow>
          if timeout < elapsed (c_clock c') start
          then Some (Err (UTimeout (of_nat (as_millis timeout))), c')
          else poll_completion n u dev_id start timeout (nap u (from_millis 10) c'))"

definition poll_fuel :: "duration \<Rightarrow> nat" where
  "poll_fuel timeout = timeout div from_millis 10 + 2"

definition send_command_timeout ::
  "('io, 'k) uring \<Rightarrow> u32 \<Rightarrow> u32 \<Rightarrow> duration \<Rightarrow> 'k ctrl \<Rightarrow> (('io ublk_error, bool) outcome \<times> 'k ctrl) option" where
  "send_command_timeout u dev_id opcode timeout c =
     (case timed (u_push u opcode (to_bytes (cmd_for_device dev_id))) c of
        (False, c') \<Rightarrow> Some (Err (IoUringSubmit (u_enospc u)), c')
      | (True, c') \<Rightarrow>
          (case timed (u_submit u) c' of
             (Some e, c'') \<Rightarrow> Some (Err (IoUringSubmit e), c'')
           | (None, c'') \<Rightarrow> poll_completion (poll_fuel timeout) u dev_id (c_clock c'') timeout c''))"

definition send_command ::
  "('io, 'k) uring \<Rightarrow> u32 \<Rightarrow> u32 \<Rightarrow> 'k ctrl \<Rightarrow> (('io ublk_error, bool) outcome \<times> 'k ctrl) option" where
  "send_command u dev_id opcode c = send_command_timeout u dev_id opcode (from_secs 5) c"

definition delete_device ::
  "('io, 'k) uring \<Rightarrow> u32 \<Rightarrow> 'k ctrl \<Rightarrow> (('io ublk_error, bool) outcome \<times> 'k ctrl) option" where
  "delete_device u dev_id c = send_command u dev_id ublk_u_cmd_del_dev c"

definition stop_device ::
  "('io, 'k) uring \<Rightarrow> u32 \<Rightarrow> 'k ctrl \<Rightarrow> (('io ublk_error, bool) outcome \<times> 'k ctrl) option" where
  "stop_device u dev_id c = send_command u dev_id ublk_u_cmd_stop_dev c"

definition force_delete ::
  "('io, 'k) uring \<Rightarrow> u32 \<Rightarrow> 'k ctrl \<Rightarrow> (('io ublk_error, bool) outcome \<times> 'k ctrl) option" where
  "force_delete u dev_id c =
     (case stop_device u dev_id c of
        Some (_, c') \<Rightarrow> delete_device u dev_id c'
      | None \<Rightarrow> None)"

text \<open>The kernel writes the answer through the pointer; \<open>info_at\<close> reads it back from the state.\<close>

definition get_device_info ::
  "('io, 'k) uring \<Rightarrow> ('k \<Rightarrow> u64 \<Rightarrow> ublk_ctrl_dev_info) \<Rightarrow> u64 \<Rightarrow> u32 \<Rightarrow> 'k ctrl
   \<Rightarrow> (('io ublk_error, ublk_ctrl_dev_info) outcome \<times> 'k ctrl) option" where
  "get_device_info u info_at info_ptr dev_id c =
     (case timed (u_push u ublk_u_cmd_get_dev_info (to_bytes (build_get_info_command dev_id info_ptr))) c of
        (False, c') \<Rightarrow> Some (Err (IoUringSubmit (u_enospc u)), c')
      | (True, c') \<Rightarrow>
          (case u_submit_and_wait u (c_kernel c') of
             None \<Rightarrow> None
           | Some waited \<Rightarrow>
               (case timed (\<lambda>_. waited) c' of
                  (Some e, c'') \<Rightarrow> Some (Err (IoUringSubmit e), c'')
                | (None, c'') \<Rightarrow>
                    (case timed (u_next u) c'' of
                       (Some res, d) \<Rightarrow>
                         if res <s 0 then
                           Some (Err (if res = - 2 then DeviceNotFound dev_id else ublk_from_errno res), d)
                         else Some (Ok (info_at (c_kernel d) info_ptr), d)
                     | (None, d) \<Rightarrow> Some (Ok (info_at (c_kernel d) info_ptr), d)))))"

section \<open>Orphans\<close>

text \<open>A directory entry or the error of reading it; \<open>dir_exists\<close> and \<open>path_exists\<close> look at the file system,
  the directory read as a whole may fail.\<close>

record 'io dev_fs =
  path_there :: "string \<Rightarrow> bool"
  read_dir :: "string \<Rightarrow> ('io, ('io, string) outcome list) outcome"

definition parse_char_device_id :: "string \<Rightarrow> u32 option" where
  "parse_char_device_id name =
     (case strip_prefix ''ublkc'' name of Some id_str \<Rightarrow> parse_u32 id_str | None \<Rightarrow> None)"

definition block_device_path :: "u32 \<Rightarrow> string" where
  "block_device_path dev_id = ''/dev/ublkb'' @ show_word dev_id"

definition char_device_path :: "u32 \<Rightarrow> string" where
  "char_device_path dev_id = ''/dev/ublkc'' @ show_word dev_id"

definition block_device_exists :: "'io dev_fs \<Rightarrow> u32 \<Rightarrow> bool" where
  "block_device_exists fs dev_id = path_there fs (block_device_path dev_id)"

fun scan_dev :: "'io dev_fs \<Rightarrow> ('io, string) outcome list \<Rightarrow> u32 list \<Rightarrow> ('io ublk_error, u32 list) outcome" where
  "scan_dev fs [] orphans = Ok orphans"
| "scan_dev fs (Ok name # rest) orphans =
     (case strip_prefix ''ublkc'' name of
        Some id_str \<Rightarrow>
          (case parse_u32 id_str of
             Some dev_id \<Rightarrow>
               scan_dev fs rest (if \<not> path_there fs (''/dev/ublkb'' @ show_word dev_id) then orphans @ [dev_id] else orphans)
           | None \<Rightarrow> scan_dev fs rest orphans)
      | None \<Rightarrow> scan_dev fs rest orphans)"
| "scan_dev fs (Err e # rest) orphans = Err (ScanDevDir e)"
| "scan_dev fs (Panic # rest) orphans = Panic"

definition detect_orphaned_devices :: "'io dev_fs \<Rightarrow> ('io ublk_error, u32 list) outcome" where
  "detect_orphaned_devices fs =
     (if \<not> path_there fs ''/dev'' then Ok []
      else (case read_dir fs ''/dev'' of
          Ok entries \<Rightarrow> scan_dev fs entries []
        | Err e \<Rightarrow> Err (ScanDevDir e)
        | Panic \<Rightarrow> Panic))"

fun scan_dir ::
  "'io dev_fs \<Rightarrow> string \<Rightarrow> ('io, string) outcome list \<Rightarrow> u32 list \<Rightarrow> ('io ublk_error, u32 list) outcome" where
  "scan_dir fs dir [] orphans = Ok orphans"
| "scan_dir fs dir (Ok name # rest) orphans =
     (case parse_char_device_id name of
        Some dev_id \<Rightarrow>
          scan_dir fs dir rest
            (if \<not> path_there fs (path_join dir (''ublkb'' @ show_word dev_id)) then orphans @ [dev_id] else orphans)
      | None \<Rightarrow> scan_dir fs dir rest orphans)"
| "scan_dir fs dir (Err e # rest) orphans = Err (ScanDevDir e)"
| "scan_dir fs dir (Panic # rest) orphans = Panic"

definition detect_orphans_in_dir :: "'io dev_fs \<Rightarrow> string \<Rightarrow> ('io ublk_error, u32 list) outcome" where
  "detect_orphans_in_dir fs dir =
     (if \<not> path_there fs dir then Ok []
      else (case read_dir fs dir of
          Ok entries \<Rightarrow> scan_dir fs dir entries []
        | Err e \<Rightarrow> Err (ScanDevDir e)
        | Panic \<Rightarrow> Panic))"

text \<open>Deleting a list of devices: the successes are counted, errors passed over. \<open>None\<close> cannot happen: each
  deletion returns.\<close>

fun delete_all :: "('io, 'k) uring \<Rightarrow> u32 list \<Rightarrow> nat \<Rightarrow> 'k ctrl \<Rightarrow> (nat \<times> 'k ctrl) option" where
  "delete_all u [] cleaned c = Some (cleaned, c)"
| "delete_all u (d # ds) cleaned c =
     (case force_delete u d c of
        Some (Ok True, c') \<Rightarrow> delete_all u ds (cleaned + 1) c'
      | Some (_, c') \<Rightarrow> delete_all u ds cleaned c'
      | None \<Rightarrow> None)"

text \<open>\<open>open_ctrl\<close> is \<open>UblkControl::open\<close>, past its check that the device node exists.\<close>

definition open_control ::
  "'io dev_fs \<Rightarrow> ('io ublk_error, 'k ctrl) outcome \<Rightarrow> ('io ublk_error, 'k ctrl) outcome" where
  "open_control fs open_ctrl =
     (if \<not> path_there fs ''/dev/ublk-control'' then Err ControlDeviceNotFound else open_ctrl)"

text \<open>The same over a range of ids, passing over those that have a block device when their turn comes: \<open>look\<close> is what exists
  in the file system at that moment.\<close>

fun delete_range ::
  "('io, 'k) uring \<Rightarrow> ('k ctrl \<Rightarrow> string \<Rightarrow> bool) \<Rightarrow> u32 list \<Rightarrow> nat \<Rightarrow> 'k ctrl \<Rightarrow> (nat \<times> 'k ctrl) option" where
  "delete_range u look [] cleaned c = Some (cleaned, c)"
| "delete_range u look (d # ds) cleaned c =
     (if look c (''/dev/ublkb'' @ show_word d) then delete_range u look ds cleaned c
      else
        (case force_delete u d c of
           Some (Ok True, c') \<Rightarrow> delete_range u look ds (cleaned + 1) c'
         | Some (_, c') \<Rightarrow> delete_range u look ds cleaned c'
         | None \<Rightarrow> None))"

definition cleanup_device_range ::
  "('io, 'k) uring \<Rightarrow> 'io dev_fs \<Rightarrow> ('k ctrl \<Rightarrow> string \<Rightarrow> bool) \<Rightarrow> ('io ublk_error, 'k ctrl) outcome \<Rightarrow> nat \<Rightarrow> nat
   \<Rightarrow> ('io ublk_error, nat) outcome option" where
  "cleanup_device_range u fs look open_ctrl lo hi =
     (case open_control fs open_ctrl of
        Ok c \<Rightarrow> map_option (\<lambda>(n, _). Ok n) (delete_range u look (map of_nat [lo..<hi]) 0 c)
      | Err ControlDeviceNotFound \<Rightarrow> Some (Ok 0)
      | Err e \<Rightarrow> Some (Err e)
      | Panic \<Rightarrow> Some Panic)"

definition cleanup_orphaned_devices ::
  "('io, 'k) uring \<Rightarrow> 'io dev_fs \<Rightarrow> ('k ctrl \<Rightarrow> string \<Rightarrow> bool) \<Rightarrow> ('io ublk_error, 'k ctrl) outcome
   \<Rightarrow> ('io ublk_error, nat) outcome option" where
  "cleanup_orphaned_devices u fs look open_ctrl =
     (let orphans = (case detect_orphaned_devices fs of Ok ids \<Rightarrow> ids | _ \<Rightarrow> []) in
      if orphans = [] then cleanup_device_range u fs look open_ctrl 0 8
      else
        (case open_control fs open_ctrl of
           Ok c \<Rightarrow> map_option (\<lambda>(n, _). Ok n) (delete_all u orphans 0 c)
         | Err ControlDeviceNotFound \<Rightarrow> Some (Ok 0)
         | Err e \<Rightarrow> Some (Err e)
         | Panic \<Rightarrow> Some Panic))"

definition control_device_available :: "'io dev_fs \<Rightarrow> bool" where
  "control_device_available fs = path_there fs ''/dev/ublk-control''"

section \<open>Commands end, and what they answer\<close>

lemma poll_completion_enough:
  "start \<le> c_clock c \<Longrightarrow> timeout < elapsed (c_clock c) start + n * from_millis 10
   \<Longrightarrow> \<exists>r c'. poll_completion (Suc n) u d start timeout c = Some (r, c')"
proof (induction n arbitrary: c)
  case 0
  obtain x took k where "u_next u (c_kernel c) = (x, took, k)" by (cases "u_next u (c_kernel c)")
  with 0 show ?case by (auto simp: timed_def split: option.splits)
next
  case (Suc n)
  obtain x took k where eq: "u_next u (c_kernel c) = (x, took, k)" by (cases "u_next u (c_kernel c)")
  let ?c' = "\<lparr>c_clock = c_clock c + took, c_kernel = k\<rparr>"
  have later: "c_clock ?c' + from_millis 10 \<le> c_clock (nap u (from_millis 10) ?c')"
    by (simp add: nap_def split: prod.splits)
  have "timeout < elapsed (c_clock (nap u (from_millis 10) ?c')) start + n * from_millis 10"
    if "\<not> timeout < elapsed (c_clock ?c') start"
    using later Suc.prems that by simp
  moreover have "start \<le> c_clock (nap u (from_millis 10) ?c')"
    using later Suc.prems(1) by simp
  ultimately have "\<exists>r c''. poll_completion (Suc n) u d start timeout (nap u (from_millis 10) ?c') = Some (r, c'')"
    if "\<not> timeout < elapsed (c_clock ?c') start"
    using Suc.IH that by blast
  then show ?case
    using eq by (cases x) (auto simp: timed_def simp del: poll_completion.simps(2)
        simp: poll_completion.simps(2) [of "Suc n"])
qed

lemma poll_completion_returns:
  "\<exists>r c'. poll_completion (poll_fuel timeout) u d (c_clock c) timeout c = Some (r, c')"
proof -
  have "timeout < elapsed (c_clock c) (c_clock c) + (timeout div from_millis 10 + 1) * from_millis 10"
    using dividend_less_times_div [of "from_millis 10" timeout] by (simp add: algebra_simps)
  from poll_completion_enough [OF order_refl this] show ?thesis by (simp add: poll_fuel_def)
qed

lemma completion_result_eq: "completion_result res d = interpret_command_result res d"
  by (cases "0 \<le>s res") (simp_all add: completion_result_def interpret_command_result_def signed.not_le [symmetric])

lemma poll_completion_no_panic: "poll_completion n u d start timeout c = Some (r, c') \<Longrightarrow> r \<noteq> Panic"
  by (induction n arbitrary: c)
    (auto simp: completion_result_def split: prod.splits option.splits if_splits)

lemma send_command_timeout_returns:
  "\<exists>r c'. send_command_timeout u d op timeout c = Some (r, c') \<and> r \<noteq> Panic"
proof -
  obtain b c1 where p: "timed (u_push u op (to_bytes (cmd_for_device d))) c = (b, c1)" by fastforce
  obtain e c2 where q: "timed (u_submit u) c1 = (e, c2)" by fastforce
  obtain r c3 where r: "poll_completion (poll_fuel timeout) u d (c_clock c2) timeout c2 = Some (r, c3)"
    using poll_completion_returns by blast
  show ?thesis
    using p q r poll_completion_no_panic [OF r]
    by (cases b; cases e) (auto simp: send_command_timeout_def)
qed

lemma force_delete_returns: "\<exists>r c'. force_delete u d c = Some (r, c') \<and> r \<noteq> Panic"
proof -
  obtain r c1 where "stop_device u d c = Some (r, c1)"
    using send_command_timeout_returns unfolding stop_device_def send_command_def by blast
  moreover obtain r' c2 where "delete_device u d c1 = Some (r', c2)" "r' \<noteq> Panic"
    using send_command_timeout_returns unfolding delete_device_def send_command_def by blast
  ultimately show ?thesis by (simp add: force_delete_def)
qed

lemma delete_all_counts:
  "\<exists>m c'. delete_all u ds n c = Some (m, c') \<and> n \<le> m \<and> m \<le> n + length ds"
proof (induction ds arbitrary: n c)
  case (Cons d ds)
  obtain r c1 where r: "force_delete u d c = Some (r, c1)" using force_delete_returns by blast
  from Cons.IH [of "n + 1" c1] Cons.IH [of n c1] show ?case
    using r by (auto split: outcome.splits bool.splits)
qed simp

lemma delete_range_counts:
  "\<exists>m c'. delete_range u look ds n c = Some (m, c') \<and> n \<le> m
     \<and> m \<le> n + length (filter (\<lambda>d. \<exists>x. \<not> look x (block_device_path d)) ds)"
proof (induction ds arbitrary: n c)
  case (Cons d ds)
  obtain r c1 where r: "force_delete u d c = Some (r, c1)" using force_delete_returns by blast
  from Cons.IH [of "n + 1" c1] Cons.IH [of n c1] Cons.IH [of n c] show ?case
    using r by (cases "look c (block_device_path d)") (auto simp: block_device_path_def split: outcome.splits bool.splits)
qed simp

lemma get_device_info_waits:
  "get_device_info u info_at a d c = None \<longleftrightarrow>
     (\<exists>took k. u_push u ublk_u_cmd_get_dev_info (to_bytes (build_get_info_command d a)) (c_kernel c) = (True, took, k)
        \<and> u_submit_and_wait u k = None)"
  by (auto simp: get_device_info_def timed_def split: prod.splits bool.splits option.splits)

section \<open>Answers that come late\<close>

lemma nap_kernel: "u_sleep u t (c_kernel c) = (extra, k) \<Longrightarrow> c_kernel (nap u t c) = k"
  by (simp add: nap_def)

lemma poll_without_completion:
  assumes idle: "u_next u k = (None, took, k)" "u_sleep u (from_millis 10) k = (extra, k)"
    and "poll_completion n u d start timeout c = Some (r, c')" "c_kernel c = k"
  shows "r = Err (UTimeout (of_nat (as_millis timeout))) \<and> c_kernel c' = k"
  using assms(3,4)
proof (induction n arbitrary: c)
  case (Suc n)
  let ?c1 = "\<lparr>c_clock = c_clock c + took, c_kernel = k\<rparr>"
  have "c_kernel (nap u (from_millis 10) ?c1) = k" using idle(2) by (simp add: nap_def)
  then show ?case
    using Suc.prems Suc.IH [of "nap u (from_millis 10) ?c1"] idle(1)
    by (auto simp: timed_def split: if_splits)
qed simp

lemma send_command_without_completion:
  assumes push: "u_push u op (to_bytes (cmd_for_device d)) (c_kernel c) = (True, t1, k1)"
    and submit: "u_submit u k1 = (None, t2, k2)"
    and idle: "u_next u k2 = (None, t3, k2)" "u_sleep u (from_millis 10) k2 = (t4, k2)"
  shows "\<exists>now. send_command_timeout u d op timeout c
           = Some (Err (UTimeout (of_nat (as_millis timeout))), \<lparr>c_clock = now, c_kernel = k2\<rparr>)"
proof -
  let ?c2 = "\<lparr>c_clock = c_clock c + t1 + t2, c_kernel = k2\<rparr>"
  obtain r c' where poll: "poll_completion (poll_fuel timeout) u d (c_clock ?c2) timeout ?c2 = Some (r, c')"
    using poll_completion_returns by blast
  from poll_without_completion [OF idle poll] have "r = Err (UTimeout (of_nat (as_millis timeout)))" "c_kernel c' = k2"
    by simp_all
  moreover have "send_command_timeout u d op timeout c = Some (r, c')"
    using push submit poll by (simp add: send_command_timeout_def timed_def)
  ultimately show ?thesis by (cases c') auto
qed

lemma send_command_first_completion:
  assumes push: "u_push u op (to_bytes (cmd_for_device d)) (c_kernel c) = (True, t1, k1)"
    and submit: "u_submit u k1 = (None, t2, k2)"
    and ready: "u_next u k2 = (Some res, t3, k3)"
  shows "send_command_timeout u d op timeout c
     = Some (interpret_command_result res d, \<lparr>c_clock = c_clock c + t1 + t2 + t3, c_kernel = k3\<rparr>)"
proof -
  have "poll_fuel timeout = Suc (timeout div from_millis 10 + 1)" by (simp add: poll_fuel_def)
  then show ?thesis
    using assms by (simp add: send_command_timeout_def timed_def completion_result_eq)
qed

text \<open>
  A kernel whose device hangs until it is told to go: the stop command gets no completion until the delete
  command is submitted; then both complete in order. The state is the list of the completions not yet read.
\<close>

definition hanging_ring :: "i32 \<Rightarrow> i32 \<Rightarrow> (unit, i32 list) uring" where
  "hanging_ring stop_res delete_res =
     \<lparr>u_push = (\<lambda>op bytes k. (True, 0, if op = ublk_u_cmd_del_dev then k @ [stop_res, delete_res] else k)),
      u_submit = (\<lambda>k. (None, 0, k)),
      u_submit_and_wait = (\<lambda>k. Some (None, 0, k)),
      u_next = (\<lambda>k. case k of [] \<Rightarrow> (None, 0, []) | r # rest \<Rightarrow> (Some r, 0, rest)),
      u_sleep = (\<lambda>d k. (0, k)),
      u_enospc = ()\<rparr>"

lemma opcodes:
  "ublk_u_cmd_get_dev_info = 0x80207502" "ublk_u_cmd_del_dev = 0xC0207505" "ublk_u_cmd_stop_dev = 0xC0207507"
  by (simp_all add: ublk_u_cmd_get_dev_info_def ublk_u_cmd_del_dev_def ublk_u_cmd_stop_dev_def ior_def iowr_def)

lemma hanging_stop:
  "\<exists>now. stop_device (hanging_ring a b) d \<lparr>c_clock = t, c_kernel = []\<rparr>
     = Some (Err (UTimeout 5000), \<lparr>c_clock = now, c_kernel = []\<rparr>)"
  using send_command_without_completion
    [of "hanging_ring a b" ublk_u_cmd_stop_dev d "\<lparr>c_clock = t, c_kernel = []\<rparr>" 0 "[]" 0 "[]" 0 0 "from_secs 5"]
  by (simp add: stop_device_def send_command_def hanging_ring_def opcodes)

lemma hanging_delete:
  "delete_device (hanging_ring a b) d \<lparr>c_clock = t, c_kernel = []\<rparr>
     = Some (interpret_command_result a d, \<lparr>c_clock = t, c_kernel = [b]\<rparr>)"
  using send_command_first_completion
    [of "hanging_ring a b" ublk_u_cmd_del_dev d "\<lparr>c_clock = t, c_kernel = []\<rparr>" 0 "[a, b]" 0 "[a, b]" a 0 "[b]" "from_secs 5"]
  by (simp add: delete_device_def send_command_def hanging_ring_def)

section \<open>The bytes of a command\<close>

fun le_word :: "u8 list \<Rightarrow> 'w::len word" where
  "le_word [] = 0"
| "le_word (b # bs) = ucast b OR push_bit 8 (le_word bs)"

lemma length_le_bytes [simp]: "length (le_bytes n w) = n"
  by (induction n w rule: le_bytes.induct) auto

lemma le_word_bytes: "le_word (le_bytes n w) = (take_bit (8 * n) w :: 'w::len word)"
proof (induction n w rule: le_bytes.induct)
  case (2 n w)
  have "ucast (ucast w :: u8) OR push_bit 8 (take_bit (8 * n) (drop_bit 8 w)) = take_bit (8 + 8 * n) w"
    by (rule bit_word_eqI) (auto simp: bit_simps not_le)
  with 2 show ?case by (simp add: algebra_simps)
qed simp

lemma le_bytes_codec:
  "le_word (le_bytes 2 x) = (x :: u16)" "le_word (le_bytes 4 y) = (y :: u32)" "le_word (le_bytes 8 z) = (z :: u64)"
  by (simp_all add: le_word_bytes take_bit_word_eq_self)

text \<open>How the kernel reads \<open>struct ublksrv_ctrl_cmd\<close>: fields at fixed offsets.\<close>

definition read_cmd :: "u8 list \<Rightarrow> ublk_ctrl_cmd option" where
  "read_cmd bs =
     (if length bs \<noteq> 80 then None
      else Some \<lparr>uc_dev_id = le_word (take 4 bs), uc_queue_id = le_word (take 2 (drop 4 bs)),
             uc_len = le_word (take 2 (drop 6 bs)), uc_addr = le_word (take 8 (drop 8 bs)),
             uc_data = le_word (take 8 (drop 16 bs)), uc_dev_path_len = le_word (take 2 (drop 24 bs)),
             uc_pad = le_word (take 2 (drop 26 bs)), uc_reserved = le_word (take 4 (drop 28 bs))\<rparr>)"

lemma length_cmd_bytes: "length (cmd_bytes c) = 32"
  by (simp add: cmd_bytes_def)

interpretation command: codec "\<lambda>c. to_bytes \<lparr>ue_cmd = c, ue_padding = replicate 48 0\<rparr>" read_cmd
proof
  fix c
  show "read_cmd (to_bytes \<lparr>ue_cmd = c, ue_padding = replicate 48 0\<rparr>) = Some c"
    by (simp add: read_cmd_def to_bytes_def length_cmd_bytes)
      (simp add: cmd_bytes_def le_bytes_codec)
qed

section \<open>Orphan detection\<close>

lemma dev_block_path: "path_join ''/dev'' (CHR ''u'' # n) = ''/dev/u'' @ n"
  by (simp add: path_join_def)

lemma scan_dev_dir: "scan_dev fs entries orphans = scan_dir fs ''/dev'' entries orphans"
proof (induction entries arbitrary: orphans)
  case (Cons e rest)
  then show ?case
    by (cases e) (auto simp: parse_char_device_id_def dev_block_path split: option.splits)
qed simp

definition orphans_of :: "'io dev_fs \<Rightarrow> string \<Rightarrow> string list \<Rightarrow> u32 list" where
  "orphans_of fs dir names =
     filter (\<lambda>d. \<not> path_there fs (path_join dir (''ublkb'' @ show_word d)))
       (List.map_filter parse_char_device_id names)"

lemma scan_dir_names: "scan_dir fs dir (map Ok names) acc = Ok (acc @ orphans_of fs dir names)"
  by (induction names arbitrary: acc)
    (auto simp: orphans_of_def map_filter_simps split: option.splits)

lemma scan_dir_error: "scan_dir fs dir (map Ok names @ Err e # rest) acc = Err (ScanDevDir e)"
  by (induction names arbitrary: acc) (auto split: option.splits)

section \<open>Properties\<close>

text \<open>C37: Every command with a time limit ends: whatever the kernel does, sending one returns and does
  not panic, and so do stopping and deleting; cleaning up a list of devices or a range of ids ends, counting at
  most one device for each id it tried (in a range, those that lacked a block device at some moment). The query for the data of a
  device has no limit: it goes on for ever exactly when the command is accepted and its wait for a completion does not end.\<close>

theorem commands_end:
  "(\<exists>r c'. send_command_timeout u d op timeout c = Some (r, c') \<and> r \<noteq> Panic)
   \<and> (\<exists>r c'. force_delete u d c = Some (r, c') \<and> r \<noteq> Panic)
   \<and> (\<exists>m c'. delete_all u ds 0 c = Some (m, c') \<and> m \<le> length ds)
   \<and> (\<exists>m c'. delete_range u look ds 0 c = Some (m, c')
        \<and> m \<le> length (filter (\<lambda>d. \<exists>x. \<not> look x (block_device_path d)) ds))
   \<and> (get_device_info u info_at a d c = None \<longleftrightarrow>
        (\<exists>took k. u_push u ublk_u_cmd_get_dev_info (to_bytes (build_get_info_command d a)) (c_kernel c) = (True, took, k)
           \<and> u_submit_and_wait u k = None))"
  using send_command_timeout_returns [of u d op timeout c] force_delete_returns [of u d c]
    delete_all_counts [of u ds 0 c] delete_range_counts [of u look ds 0 c] get_device_info_waits [of u info_at a d c]
  by (intro conjI) (auto simp only: add_0)

text \<open>C38: A completion that comes late is taken for the answer to another command. On a kernel that completes the
  stop of a hanging device only when the delete is submitted, the stop times out and the forced deletion reports
  the result of the stop: a deletion that the kernel refused because the device is busy (or for any other reason)
  is reported as done, and its completion is left for the next command to read.\<close>

theorem late_stop_taken_for_delete:
  "\<exists>now. force_delete (hanging_ring 0 delete_res) d \<lparr>c_clock = t, c_kernel = []\<rparr>
     = Some (Ok True, \<lparr>c_clock = now, c_kernel = [delete_res]\<rparr>)"
proof -
  obtain now where "stop_device (hanging_ring 0 delete_res) d \<lparr>c_clock = t, c_kernel = []\<rparr>
      = Some (Err (UTimeout 5000), \<lparr>c_clock = now, c_kernel = []\<rparr>)"
    using hanging_stop by blast
  then show ?thesis
    using hanging_delete [of 0 delete_res d now] by (simp add: force_delete_def interpret_command_result_def)
qed

text \<open>C39: A command is the 80 bytes that the kernel reads back as the command meant: the device id in the first
  four, the queue id all ones, and for a query the buffer's address and length; two devices never get the same
  bytes. The opcodes are those of the kernel's header.\<close>

theorem command_layout:
  "length (to_bytes (cmd_for_device d)) = 80
   \<and> read_cmd (to_bytes (cmd_for_device d)) = Some (ctrl_cmd_default\<lparr>uc_dev_id := d\<rparr>)
   \<and> read_cmd (to_bytes (build_get_info_command d a)) = Some (ctrl_cmd_default\<lparr>uc_dev_id := d, uc_len := 64, uc_addr := a\<rparr>)
   \<and> (to_bytes (cmd_for_device d) = to_bytes (cmd_for_device d')) = (d = d')
   \<and> ublk_u_cmd_get_dev_info = 0x80207502 \<and> ublk_u_cmd_del_dev = 0xC0207505 \<and> ublk_u_cmd_stop_dev = 0xC0207507"
proof -
  have simple: "cmd_for_device d = \<lparr>ue_cmd = ctrl_cmd_default\<lparr>uc_dev_id := d\<rparr>, ue_padding = replicate 48 0\<rparr>" for d
    by (simp add: cmd_for_device_def ctrl_cmd_default_def)
  have query: "build_get_info_command d a
     = \<lparr>ue_cmd = ctrl_cmd_default\<lparr>uc_dev_id := d, uc_len := 64, uc_addr := a\<rparr>, ue_padding = replicate 48 0\<rparr>"
    by (simp add: build_get_info_command_def ctrl_cmd_default_def)
  have "(to_bytes (cmd_for_device d) = to_bytes (cmd_for_device d')) = (d = d')"
    unfolding simple command.enc_inject by (simp add: ctrl_cmd_default_def)
  moreover have "length (to_bytes (cmd_for_device d)) = 80"
    by (simp add: to_bytes_def length_cmd_bytes cmd_for_device_def)
  moreover have "read_cmd (to_bytes (cmd_for_device d)) = Some (ctrl_cmd_default\<lparr>uc_dev_id := d\<rparr>)"
    unfolding simple by (rule command.dec_enc)
  ultimately show ?thesis
    by (simp add: opcodes query command.dec_enc)
qed

text \<open>C40: Scanning the device directory finds exactly the orphans: of the names that are a character device's, in
  order, the ids without a block device beside them. The scan of \<open>/dev\<close> is the testable scan at \<open>/dev\<close>, and a
  directory that is not there has no orphans.\<close>

theorem orphans_exactly:
  assumes "path_there fs dir" and "read_dir fs dir = Ok (map Ok names)"
  shows "detect_orphans_in_dir fs dir
       = Ok (filter (\<lambda>d. \<not> path_there fs (path_join dir (''ublkb'' @ show_word d)))
               (List.map_filter parse_char_device_id names))
     \<and> detect_orphaned_devices fs' = detect_orphans_in_dir fs' ''/dev''"
  using assms
  by (simp add: detect_orphans_in_dir_def detect_orphaned_devices_def scan_dir_names scan_dev_dir orphans_of_def
      split: outcome.splits)

theorem orphans_exactly_witness:
  "detect_orphans_in_dir
     \<lparr>path_there = (\<lambda>p. p = ''/d'' \<or> p = ''/d/ublkb1''), read_dir = (\<lambda>_. (Ok (map Ok [''ublkc0'', ''ublkc1'', ''sda'']) :: (unit, _) outcome))\<rparr>
     ''/d'' = Ok [0]"
proof -
  let ?fs = "\<lparr>path_there = (\<lambda>p. p = ''/d'' \<or> p = ''/d/ublkb1''), read_dir = (\<lambda>_. (Ok (map Ok [''ublkc0'', ''ublkc1'', ''sda'']) :: (unit, _) outcome))\<rparr>"
  have "detect_orphans_in_dir ?fs ''/d''
     = Ok (filter (\<lambda>d. \<not> path_there ?fs (path_join ''/d'' (''ublkb'' @ show_word d)))
               (List.map_filter parse_char_device_id [''ublkc0'', ''ublkc1'', ''sda'']))"
    using orphans_exactly [of ?fs "''/d''" "[''ublkc0'', ''ublkc1'', ''sda'']" ?fs] by simp
  moreover have "List.map_filter parse_char_device_id [''ublkc0'', ''ublkc1'', ''sda''] = [0, 1]"
    by (simp add: map_filter_simps parse_char_device_id_def strip_prefix_def parse_unsigned_def parse_digits_def
        digits_val_def is_digit_def digit_val_def)
  ultimately show ?thesis
    by (simp add: path_join_def show_nat_eval)
qed

end
