(* ===== verification/Platform_Adapter.thy ===== *)
theory Platform_Adapter
  imports Core_Adapter Adapter_Native
begin

text \<open>
  The second family of adapters, crate \<open>duende-platform\<close>: its errors (\<open>error.rs\<close>), its handles and tracer
  handles (\<open>adapter.rs\<close>) and its native adapter (\<open>native.rs\<close>), which keeps no state and asks the kernel about a
  process id. Names that the core crate has too start with \<open>p_\<close>; the world, the commands and the process
  calls are those of the core adapters. The \<open>io\<close> and daemon errors of other crates are kept as texts.
\<close>

section \<open>Errors and handles\<close>

datatype p_error =
    NotSupportedP string
  | NotImplementedP string
  | SpawnP string
  | SignalP string
  | StatusP string
  | TracerP string
  | ResourceP string
  | IoP string
  | DaemonP string

fun show_p_error :: "p_error \<Rightarrow> string" where
  "show_p_error (NotSupportedP m) = ''platform not supported: '' @ m"
| "show_p_error (NotImplementedP m) = ''not implemented: '' @ m"
| "show_p_error (SpawnP m) = ''failed to spawn daemon: '' @ m"
| "show_p_error (SignalP m) = ''failed to send signal: '' @ m"
| "show_p_error (StatusP m) = ''failed to get status: '' @ m"
| "show_p_error (TracerP m) = ''failed to attach tracer: '' @ m"
| "show_p_error (ResourceP m) = ''resource error: '' @ m"
| "show_p_error (IoP m) = ''I/O error: '' @ m"
| "show_p_error (DaemonP m) = ''daemon error: '' @ m"

record p_handle =
  ph_platform :: platform
  ph_id :: string
  ph_pid :: "u32 option"

definition p_handle_native :: "u32 \<Rightarrow> p_handle" where
  "p_handle_native pid = \<lparr>ph_platform = Native, ph_id = show_word pid, ph_pid = Some pid\<rparr>"

definition p_handle_systemd :: "string \<Rightarrow> p_handle" where
  "p_handle_systemd unit_name = \<lparr>ph_platform = Linux, ph_id = unit_name, ph_pid = None\<rparr>"

definition p_handle_launchd :: "string \<Rightarrow> p_handle" where
  "p_handle_launchd label = \<lparr>ph_platform = MacOS, ph_id = label, ph_pid = None\<rparr>"

definition p_handle_container :: "string \<Rightarrow> p_handle" where
  "p_handle_container cid = \<lparr>ph_platform = Container, ph_id = cid, ph_pid = None\<rparr>"

definition p_handle_pepita :: "string \<Rightarrow> p_handle" where
  "p_handle_pepita vm_id = \<lparr>ph_platform = PepitaMicroVM, ph_id = vm_id, ph_pid = None\<rparr>"

definition p_handle_wos :: "u32 \<Rightarrow> p_handle" where
  "p_handle_wos pid = \<lparr>ph_platform = Wos, ph_id = show_word pid, ph_pid = Some pid\<rparr>"

record p_tracer_handle =
  pt_platform :: platform
  pt_id :: string

type_synonym ('a, 's, 'w) p_action = "(p_error, 'a, 's, 'w) eaction"

section \<open>The native adapter\<close>

text \<open>\<open>kill(2)\<close> with a signal, or without one to ask whether the process exists; errors are errno and text.
  A started child is only asked for its id.\<close>

record 'w kernel_api =
  ka_spawn :: "string list \<Rightarrow> 'w \<Rightarrow> (string, u32 option) outcome \<times> duration \<times> 'w"
  ka_kill :: "i32 \<Rightarrow> nix_signal option \<Rightarrow> 'w \<Rightarrow> (i32 \<times> string, unit) outcome \<times> duration \<times> 'w"

abbreviation (input) esrch :: i32 where
  "esrch \<equiv> 3"

definition p_native_spawn :: "'w kernel_api \<Rightarrow> (p_handle, 's, 'w) p_action" where
  "p_native_spawn api =
     act_bind (os_call (ka_spawn api [''/bin/sh'']) (\<lambda>e. SpawnP (''failed to spawn process: '' @ e))) (\<lambda>id_option.
     act_bind (require id_option (SpawnP ''process has no PID'')) (\<lambda>pid. act_return (p_handle_native pid)))"

definition p_native_signal :: "'w kernel_api \<Rightarrow> p_handle \<Rightarrow> signal \<Rightarrow> (unit, 's, 'w) p_action" where
  "p_native_signal api h sig =
     act_bind (require (ph_pid h) (SignalP ''no PID available'')) (\<lambda>pid.
     os_call (ka_kill api pid (Some (nix_signal_of sig)))
       (\<lambda>(_, e). SignalP (''kill('' @ show_word pid @ '', '' @ debug_signal sig @ '') failed: '' @ e)))"

definition p_native_status :: "'w kernel_api \<Rightarrow> p_handle \<Rightarrow> (daemon_status, 's, 'w) p_action" where
  "p_native_status api h w =
     (case ph_pid h of
        None \<Rightarrow> (Err (StatusP ''no PID available''), w)
      | Some pid \<Rightarrow>
          (case os_call (ka_kill api pid None) (\<lambda>e. e) w of
             (Ok _, w') \<Rightarrow> (Ok Running, w')
           | (Err (errno, e), w') \<Rightarrow>
               (if errno = esrch then Ok Stopped else Err (StatusP (''failed to check process: '' @ e)), w')
           | (Panic, w') \<Rightarrow> (Panic, w')))"

definition p_native_attach_tracer :: "'w kernel_api \<Rightarrow> p_handle \<Rightarrow> (p_tracer_handle, 's, 'w) p_action" where
  "p_native_attach_tracer api h =
     act_bind (require (ph_pid h) (TracerP ''no PID available'')) (\<lambda>pid.
     act_bind (os_call (ka_kill api pid None)
       (\<lambda>(errno, e).
          if errno = esrch then TracerP (''process '' @ show_word pid @ '' does not exist'')
          else TracerP (''cannot verify process '' @ show_word pid @ '': '' @ e))) (\<lambda>_.
     act_return \<lparr>pt_platform = Native, pt_id = ''renacer:'' @ show_word pid\<rparr>))"

lemma forward_p_native_signal: "forward (p_native_signal api h sig)"
  unfolding p_native_signal_def by (intro clock_intro)

lemma forward_p_native_status: "forward (p_native_status api h)"
  unfolding forward_def
proof
  fix w
  have kill: "clock w \<le> clock (snd (os_call (ka_kill api pid None) (\<lambda>e. e) w))" for pid
    by (rule forwardD, rule clock_intro)
  show "clock w \<le> clock (snd (p_native_status api h w))"
  proof (cases "ph_pid h")
    case None
    then show ?thesis by (simp add: p_native_status_def)
  next
    case (Some pid)
    show ?thesis using kill [of pid] Some
      by (cases "os_call (ka_kill api pid None) (\<lambda>e. e) w")
        (auto simp: p_native_status_def split: outcome.split)
  qed
qed

interpretation p_native: clocked "p_native_signal api" "p_native_status api"
  by unfold_locales (simp_all add: forwardD forward_p_native_signal forward_p_native_status)

end
