(* ===== verification/Platform_Linux.thy ===== *)
theory Platform_Linux
  imports Platform_Adapter Core_Config
begin

text \<open>
  The systemd adapter of the platform crate, \<open>crates/duende-platform/src/linux.rs\<close>: the unit file made of a
  configuration, and the methods that drive \<open>systemctl\<close>. Writing a file is the argument \<open>write_file\<close>.
\<close>

section \<open>Unit files\<close>

definition text_line :: "string \<Rightarrow> string" where
  "text_line s = s @ [byte 10]"

definition option_line :: "string \<Rightarrow> string option \<Rightarrow> string" where
  "option_line key v = (case v of Some s \<Rightarrow> text_line (key @ s) | None \<Rightarrow> [])"

text \<open>\<open>cpu_quota_percent > 0.0 && cpu_quota_percent < 100.0\<close>\<close>

definition partial_quota :: "f64 \<Rightarrow> bool" where
  "partial_quota q \<longleftrightarrow> f_gt q (Fin 0) \<and> f_lt q (Fin 100)"

definition quota_percent :: "f64 \<Rightarrow> u64" where
  "quota_percent q = f_to_u64 (f_mul q (Fin 10000)) div 10000"

fun restart_directive :: "restart_policy \<Rightarrow> string" where
  "restart_directive Never = ''no''"
| "restart_directive Always = ''always''"
| "restart_directive OnFailure = ''on-failure''"
| "restart_directive UnlessStopped = ''unless-stopped''"

definition generate_unit_file :: "daemon_config \<Rightarrow> string" where
  "generate_unit_file c =
     (let r = dc_resources c in
      text_line ''[Unit]''
      @ text_line (''Description='' @ dc_description c)
      @ text_line ''After=network.target''
      @ text_line []
      @ text_line ''[Service]''
      @ text_line ''Type=simple''
      @ text_line (''ExecStart='' @ dc_binary_path c @ concat (map (\<lambda>arg. '' '' @ arg) (dc_args c)))
      @ option_line ''WorkingDirectory='' (dc_working_dir c)
      @ option_line ''User='' (dc_user c)
      @ option_line ''Group='' (dc_group c)
      @ concat (map (\<lambda>(key, v). text_line (''Environment=\"'' @ key @ ''='' @ v @ ''\"'')) (dc_env c))
      @ (if 0 < rc_memory_bytes r then text_line (''MemoryMax='' @ show_word (rc_memory_bytes r)) else [])
      @ (if partial_quota (rc_cpu_quota_percent r)
         then text_line (''CPUQuota='' @ show_word (quota_percent (rc_cpu_quota_percent r)) @ ''%'') else [])
      @ (if 0 < rc_pids_max r then text_line (''TasksMax='' @ show_word (rc_pids_max r)) else [])
      @ text_line (''Restart='' @ restart_directive (dc_restart c))
      @ text_line (''TimeoutStopSec='' @ show_nat (dc_shutdown_timeout c div from_secs 1))
      @ text_line []
      @ text_line ''[Install]''
      @ text_line ''WantedBy=multi-user.target'')"

definition p_unit_name :: "string \<Rightarrow> string" where
  "p_unit_name daemon_name = ''duende-'' @ replace_char (CHR '' '') ''-'' daemon_name @ ''.service''"

definition active_state :: "string \<Rightarrow> daemon_status" where
  "active_state state =
     (if state \<in> {''active'', ''running''} then Running
      else if state \<in> {''inactive'', ''dead''} then Stopped
      else if state = ''failed'' then Failed (FExitCode 1)
      else if state \<in> {''activating'', ''reloading''} then Starting
      else if state = ''deactivating'' then Stopping
      else Created)"

definition p_linux_parse_status :: "string \<Rightarrow> daemon_status" where
  "p_linux_parse_status output =
     (case first_value ''ActiveState='' (lines output) of Some state \<Rightarrow> active_state (trim state) | None \<Rightarrow> Created)"

fun p_signal_name :: "signal \<Rightarrow> string" where
  "p_signal_name Term = ''SIGTERM''"
| "p_signal_name Kill = ''SIGKILL''"
| "p_signal_name Hup = ''SIGHUP''"
| "p_signal_name Int' = ''SIGINT''"
| "p_signal_name Quit = ''SIGQUIT''"
| "p_signal_name Usr1 = ''SIGUSR1''"
| "p_signal_name Usr2 = ''SIGUSR2''"
| "p_signal_name Stop = ''SIGSTOP''"
| "p_signal_name Cont = ''SIGCONT''"

section \<open>Methods\<close>

type_synonym 'w file_writer = "string \<Rightarrow> string \<Rightarrow> 'w \<Rightarrow> (string, unit) outcome \<times> duration \<times> 'w"

text \<open>The guard every method of an adapter starts with.\<close>

definition on_platform :: "platform \<Rightarrow> p_handle \<Rightarrow> 'e \<Rightarrow> ('e, unit, 's, 'w) eaction" where
  "on_platform p h e = (if ph_platform h \<noteq> p then act_fail e else act_return ())"

definition p_linux_spawn :: "string \<Rightarrow> 'w file_writer \<Rightarrow> 'w exec \<Rightarrow> string \<Rightarrow> (p_handle, 's, 'w) p_action" where
  "p_linux_spawn unit_dir write_file exec daemon_name =
     (let config = config_new daemon_name ''/bin/false''; unit_name = p_unit_name daemon_name in
      act_bind (os_call (write_file (path_join unit_dir unit_name) (generate_unit_file config))
        (\<lambda>e. SpawnP (''failed to write unit file: '' @ e))) (\<lambda>_.
      act_bind (checked_command exec [''systemctl'', ''daemon-reload'']
        (\<lambda>e. SpawnP (''daemon-reload failed: '' @ e)) (\<lambda>_. SpawnP ''daemon-reload failed'')) (\<lambda>_.
      act_bind (checked_command exec [''systemctl'', ''start'', unit_name]
        (\<lambda>e. SpawnP (''systemctl start failed: '' @ e))
        (\<lambda>stderr. SpawnP (''systemctl start failed: '' @ stderr))) (\<lambda>_.
      act_return (p_handle_systemd unit_name)))))"

definition p_linux_signal :: "'w exec \<Rightarrow> p_handle \<Rightarrow> signal \<Rightarrow> (unit, 's, 'w) p_action" where
  "p_linux_signal exec h sig =
     act_bind (on_platform Linux h (SignalP ''not a systemd handle'')) (\<lambda>_.
     act_bind (checked_command exec [''systemctl'', ''kill'', ''--signal'', p_signal_name sig, ph_id h]
       (\<lambda>e. SignalP (''systemctl kill failed: '' @ e))
       (\<lambda>stderr. SignalP (''systemctl kill failed: '' @ stderr))) (\<lambda>_. act_return ()))"

definition p_linux_status :: "'w exec \<Rightarrow> p_handle \<Rightarrow> (daemon_status, 's, 'w) p_action" where
  "p_linux_status exec h =
     act_bind (on_platform Linux h (StatusP ''not a systemd handle'')) (\<lambda>_.
     act_bind (command exec [''systemctl'', ''show'', ''--property=ActiveState'', ph_id h]
       (\<lambda>e. StatusP (''systemctl show failed: '' @ e))) (\<lambda>out.
     act_return (p_linux_parse_status (out_stdout out))))"

definition p_linux_attach_tracer :: "'w exec \<Rightarrow> p_handle \<Rightarrow> (p_tracer_handle, 's, 'w) p_action" where
  "p_linux_attach_tracer exec h =
     act_bind (on_platform Linux h (TracerP ''not a systemd handle'')) (\<lambda>_.
     act_bind (command exec [''systemctl'', ''show'', ''--property=MainPID'', ph_id h]
       (\<lambda>e. TracerP (''failed to get MainPID: '' @ e))) (\<lambda>out.
     act_bind (require
       (case first_value ''MainPID='' (lines (out_stdout out)) of Some s \<Rightarrow> parse_u32 (trim s) | None \<Rightarrow> None)
       (TracerP ''failed to parse MainPID'')) (\<lambda>pid.
     if pid = 0 then act_fail (TracerP ''service not running'')
     else act_return \<lparr>pt_platform = Linux, pt_id = ''ptrace:'' @ show_word pid\<rparr>)))"

lemma forward_on_platform [clock_intro]: "forward (on_platform p h e)"
  by (simp add: on_platform_def clock_intro)

lemma forward_p_linux: "forward (p_linux_signal exec h sig)" "forward (p_linux_status exec h)"
  unfolding p_linux_signal_def p_linux_status_def by (intro clock_intro)+

interpretation p_linux: clocked "p_linux_signal exec" "p_linux_status exec"
  by unfold_locales (simp_all add: forwardD forward_p_linux)

section \<open>What systemd reads\<close>

definition unit_lines :: "daemon_config \<Rightarrow> string list" where
  "unit_lines c =
     [''[Unit]'', ''Description='' @ dc_description c, ''After=network.target'', [], ''[Service]'', ''Type=simple'',
      ''ExecStart='' @ dc_binary_path c @ concat (map (\<lambda>arg. '' '' @ arg) (dc_args c))]
     @ (case dc_working_dir c of Some s \<Rightarrow> [''WorkingDirectory='' @ s] | None \<Rightarrow> [])
     @ (case dc_user c of Some s \<Rightarrow> [''User='' @ s] | None \<Rightarrow> [])
     @ (case dc_group c of Some s \<Rightarrow> [''Group='' @ s] | None \<Rightarrow> [])
     @ map (\<lambda>(key, v). ''Environment=\"'' @ key @ ''='' @ v @ ''\"'') (dc_env c)
     @ (if 0 < rc_memory_bytes (dc_resources c) then [''MemoryMax='' @ show_word (rc_memory_bytes (dc_resources c))] else [])
     @ (if partial_quota (rc_cpu_quota_percent (dc_resources c))
        then [''CPUQuota='' @ show_word (quota_percent (rc_cpu_quota_percent (dc_resources c))) @ ''%''] else [])
     @ (if 0 < rc_pids_max (dc_resources c) then [''TasksMax='' @ show_word (rc_pids_max (dc_resources c))] else [])
     @ [''Restart='' @ restart_directive (dc_restart c),
        ''TimeoutStopSec='' @ show_nat (dc_shutdown_timeout c div from_secs 1), [], ''[Install]'',
        ''WantedBy=multi-user.target'']"

definition one_line_texts :: "daemon_config \<Rightarrow> bool" where
  "one_line_texts c \<longleftrightarrow>
     line_text (dc_description c) \<and> line_text (dc_binary_path c) \<and> list_all line_text (dc_args c)
     \<and> (case dc_working_dir c of Some s \<Rightarrow> line_text s | None \<Rightarrow> True)
     \<and> (case dc_user c of Some s \<Rightarrow> line_text s | None \<Rightarrow> True)
     \<and> (case dc_group c of Some s \<Rightarrow> line_text s | None \<Rightarrow> True)
     \<and> list_all (\<lambda>(key, v). line_text key \<and> line_text v) (dc_env c)"

lemma line_text_append [simp]: "line_text (s @ t) \<longleftrightarrow> line_text s \<and> line_text t"
  by (simp add: line_text_def)

lemma line_text_Cons: "line_text (c # s) \<longleftrightarrow> of_char c \<noteq> (10 :: nat) \<and> of_char c \<noteq> (13 :: nat) \<and> line_text s"
  by (auto simp: line_text_def)

lemma line_text_Nil [simp]: "line_text []"
  by (simp add: line_text_def)

lemma line_text_show_nat [simp]: "line_text (show_nat n)"
  using show_nat_digits [of n] by (auto simp: line_text_def list_all_iff is_digit_def)

lemma line_text_restart [simp]: "line_text (restart_directive p)"
  by (cases p) (simp_all add: line_text_def)

lemma line_text_concat: "list_all line_text ss \<Longrightarrow> line_text (concat (map (\<lambda>s. '' '' @ s) ss))"
  by (induction ss) (simp_all add: line_text_Cons)

lemma unlines_append: "unlines (xs @ ys) = unlines xs @ unlines ys"
  by (simp add: unlines_def)

lemma unlines_Cons: "unlines (x # xs) = text_line x @ unlines xs"
  by (simp add: unlines_def text_line_def)

lemma unlines_Nil: "unlines [] = []"
  by (simp add: unlines_def)

lemma unlines_env:
  "unlines (map (\<lambda>(key, v). f key v) env) = concat (map (\<lambda>(key, v). text_line (f key v)) env)"
  by (induction env) (auto simp: unlines_Cons unlines_Nil)

lemma unit_file_lines: "generate_unit_file c = unlines (unit_lines c)"
  unfolding generate_unit_file_def unit_lines_def Let_def unlines_append unlines_env
  by (simp add: unlines_Cons unlines_Nil option_line_def split: option.split)

lemma unit_lines_text: "one_line_texts c \<Longrightarrow> list_all line_text (unit_lines c)"
  unfolding unit_lines_def list_all_append one_line_texts_def
  by (auto simp: line_text_Cons line_text_concat list_all_iff split: option.splits)

lemma unit_file_read_back: "one_line_texts c \<Longrightarrow> lines (generate_unit_file c) = unit_lines c"
  by (simp add: unit_file_lines lines_unlines unit_lines_text)

text \<open>Lines with another first letter than the key are passed over.\<close>

lemma first_value_skips:
  "k \<noteq> c \<Longrightarrow> first_value (k # ks) (map (\<lambda>(x, y). c # f x y) env) = None"
  "k \<noteq> CHR ''W'' \<Longrightarrow> first_value (k # ks) (case x of Some s \<Rightarrow> [''WorkingDirectory='' @ s] | None \<Rightarrow> []) = None"
  "k \<noteq> CHR ''U'' \<Longrightarrow> first_value (k # ks) (case x of Some s \<Rightarrow> [''User='' @ s] | None \<Rightarrow> []) = None"
  "k \<noteq> CHR ''G'' \<Longrightarrow> first_value (k # ks) (case x of Some s \<Rightarrow> [''Group='' @ s] | None \<Rightarrow> []) = None"
proof -
  show "k \<noteq> c \<Longrightarrow> first_value (k # ks) (map (\<lambda>(x, y). c # f x y) env) = None"
    by (induction env) (auto simp: strip_prefix_def)
qed (simp_all add: strip_prefix_def split: option.split)

lemma first_value_if:
  "first_value key (if b then [l] else []) = (if b then strip_prefix key l else None)"
  by (simp split: option.split)

lemma first_value_line: "first_value key (l # ls) = (if prefix key l then Some (drop (length key) l) else first_value key ls)"
  by (simp add: strip_prefix_def)

text \<open>A quota between 0 and 100 is cut to whole percents; the binary product may be rounded up to the next one.\<close>

lemma quota_percent_floor:
  assumes "0 < x" "x < 100"
  shows "\<exists>n. unat (quota_percent (Fin x)) = n \<and> of_nat n \<le> x + 1 / 1000000000 \<and> x < of_nat n + 1"
proof -
  let ?z = "rndq (x * 10000)"
  have small: "rndq (of_nat m) = of_nat m" if "m \<le> 1000000" for m using that by (intro rndq_small_nat) simp
  have z: "0 \<le> ?z" "?z \<le> 1000000"
    using rndq_nonneg [of "x * 10000"] rndq_mono [of "x * 10000" "of_nat 1000000"] small [of 1000000] assms by simp_all
  have "f_round (x * 10000) = Fin ?z" using assms by (intro f_round_small) simp_all
  then have "quota_percent (Fin x) = f_to_u64 (Fin ?z) div 10000" by (simp add: quota_percent_def)
  moreover have "f_to_u64 (Fin ?z) = of_nat (nat \<lfloor>?z\<rfloor>)" using z by (cases "?z = 0") simp_all
  moreover have floor: "nat \<lfloor>?z\<rfloor> \<le> 1000000" using z by (simp add: floor_le_iff nat_le_iff)
  ultimately have n: "unat (quota_percent (Fin x)) = nat \<lfloor>?z\<rfloor> div 10000" by (simp add: unat_div unat_of_nat)
  define n where "n = nat \<lfloor>?z\<rfloor> div 10000"
  have "n \<le> 100" using floor by (simp add: n_def)
  have "10000 * n \<le> nat \<lfloor>?z\<rfloor>" by (simp add: n_def)
  then have "int (10000 * n) \<le> \<lfloor>?z\<rfloor>" using z(1) by linarith
  then have below: "of_nat (10000 * n) \<le> ?z" by (simp add: le_floor_iff)
  have "nat \<lfloor>?z\<rfloor> < 10000 * (n + 1)"
    using dividend_less_div_times [of 10000 "nat \<lfloor>?z\<rfloor>"] by (simp add: n_def)
  then have "\<lfloor>?z\<rfloor> < int (10000 * (n + 1))" using z(1) by linarith
  then have above: "?z < of_nat (10000 * (n + 1))" by (simp add: floor_less_iff)
  have "x < of_nat n + 1"
  proof (rule ccontr)
    assume "\<not> x < of_nat n + 1"
    then have "of_nat (10000 * (n + 1)) \<le> x * 10000" by simp
    then have "of_nat (10000 * (n + 1)) \<le> ?z"
      using rndq_mono [of "of_nat (10000 * (n + 1))" "x * 10000"] small [of "10000 * (n + 1)"] \<open>\<not> x < of_nat n + 1\<close> assms
      by simp
    with above show False by simp
  qed
  moreover have "of_nat n \<le> x + 1 / 1000000000"
  proof (cases "n = 0")
    case False
    then have "1 < ?z" using below by simp
    then have y: "1 \<le> x * 10000" using rndq_mono [of "x * 10000" 1] small [of 1] by (cases "1 \<le> x * 10000") simp_all
    have "pow2 (- 1022) \<le> x * 10000" using y pow2_mono [of "- 1022" 0] by (simp add: pow2_def)
    from rndq_error [OF this] have "?z - x * 10000 \<le> x * 10000 * pow2 (- 53)" by (simp add: abs_le_iff)
    moreover have "pow2 (- 53) \<le> 1 / 1000000000000" by (simp add: pow2_def power_int_minus)
    then have "x * 10000 * pow2 (- 53) \<le> 1000000 * (1 / 1000000000000)"
      using assms by (intro mult_mono) simp_all
    ultimately show ?thesis using below by simp
  qed (use assms in simp)
  ultimately show ?thesis using n by (intro exI [of _ n]) (simp add: n_def)
qed

text \<open>C25: What \<open>systemd\<close> reads in the unit file made of a configuration whose texts have no line breaks: the memory
  and task limits when they are not zero, the CPU quota in whole percents (below the configured one but for the
  rounding of the binary product, and by less than one) when it is between 0 and 100 and none otherwise, the restart policy and the stop
  timeout in whole seconds; no text of the configuration is taken for one of these directives.\<close>

theorem unit_file_limits_read_back:
  assumes "one_line_texts c"
  defines "ls \<equiv> lines (generate_unit_file c)" and "r \<equiv> dc_resources c"
  shows "first_value ''MemoryMax='' ls = (if 0 < rc_memory_bytes r then Some (show_word (rc_memory_bytes r)) else None)
    \<and> first_value ''TasksMax='' ls = (if 0 < rc_pids_max r then Some (show_word (rc_pids_max r)) else None)
    \<and> (if f_gt (rc_cpu_quota_percent r) (Fin 0) \<and> f_lt (rc_cpu_quota_percent r) (Fin 100)
       then (\<exists>x n. rc_cpu_quota_percent r = Fin x \<and> first_value ''CPUQuota='' ls = Some (show_nat n @ ''%'')
              \<and> of_nat n \<le> x + 1 / 1000000000 \<and> x < of_nat n + 1)
       else first_value ''CPUQuota='' ls = None)
    \<and> first_value ''Restart='' ls =
        Some (case dc_restart c of Never \<Rightarrow> ''no'' | Always \<Rightarrow> ''always'' | OnFailure \<Rightarrow> ''on-failure''
              | UnlessStopped \<Rightarrow> ''unless-stopped'')
    \<and> first_value ''TimeoutStopSec='' ls = Some (show_nat (dc_shutdown_timeout c div 1000000000))"
proof -
  note read = ls_def r_def unit_file_read_back [OF assms(1)] unit_lines_def find_map_append
  note keys = first_value_skips first_value_if first_value_line strip_prefix_def
  have quota: "first_value ''CPUQuota='' ls =
      (if partial_quota (rc_cpu_quota_percent r)
       then Some (show_word (quota_percent (rc_cpu_quota_percent r)) @ ''%'') else None)"
    unfolding read by (simp add: keys del: find_map.simps(2))
  have memory: "first_value ''MemoryMax='' ls = (if 0 < rc_memory_bytes r then Some (show_word (rc_memory_bytes r)) else None)"
    unfolding read by (simp add: keys del: find_map.simps(2))
  have tasks: "first_value ''TasksMax='' ls = (if 0 < rc_pids_max r then Some (show_word (rc_pids_max r)) else None)"
    unfolding read by (simp add: keys del: find_map.simps(2))
  have "first_value ''Restart='' ls = Some (restart_directive (dc_restart c))"
    unfolding read by (simp add: keys del: find_map.simps(2))
  then have restart: "first_value ''Restart='' ls =
        Some (case dc_restart c of Never \<Rightarrow> ''no'' | Always \<Rightarrow> ''always'' | OnFailure \<Rightarrow> ''on-failure''
              | UnlessStopped \<Rightarrow> ''unless-stopped'')"
    by (simp only:) (cases "dc_restart c"; simp only: restart_directive.simps restart_policy.case)
  have timeout: "first_value ''TimeoutStopSec='' ls = Some (show_nat (dc_shutdown_timeout c div 1000000000))"
    unfolding read by (simp add: keys del: find_map.simps(2))
  have percent: "if f_gt (rc_cpu_quota_percent r) (Fin 0) \<and> f_lt (rc_cpu_quota_percent r) (Fin 100)
       then (\<exists>x n. rc_cpu_quota_percent r = Fin x \<and> first_value ''CPUQuota='' ls = Some (show_nat n @ ''%'')
              \<and> of_nat n \<le> x + 1 / 1000000000 \<and> x < of_nat n + 1)
       else first_value ''CPUQuota='' ls = None"
  proof (cases "rc_cpu_quota_percent r")
    case (Fin x)
    with quota quota_percent_floor [of x] show ?thesis by (simp only: Fin partial_quota_def f_lt.simps if_True if_False split: if_split) blast
  qed (use quota in \<open>simp_all only: partial_quota_def f_lt.simps simp_thms if_False\<close>)
  show ?thesis by (intro conjI memory tasks percent restart timeout)
qed

definition sample_unit :: daemon_config where
  "sample_unit = config_new ''web'' ''/bin/web''
     \<lparr>dc_description := ''MemoryMax=1'', dc_user := Some ''www'', dc_env := [(''A'', ''TasksMax=1'')], dc_restart := Always,
      dc_resources := resource_default\<lparr>rc_cpu_quota_percent := Fin (51 / 2)\<rparr>\<rparr>"

theorem unit_file_limits_read_back_witness:
  "first_value ''MemoryMax='' (lines (generate_unit_file sample_unit)) = Some (show_word (512 * 1024 * 1024 :: u64))
   \<and> first_value ''CPUQuota='' (lines (generate_unit_file sample_unit)) = Some ''25%''
   \<and> first_value ''Restart='' (lines (generate_unit_file sample_unit)) = Some ''always''
   \<and> first_value ''TimeoutStopSec='' (lines (generate_unit_file sample_unit)) = Some ''30''"
proof -
  have "one_line_texts sample_unit"
    by (simp add: one_line_texts_def sample_unit_def config_new_def line_text_Cons)
  note read = unit_file_limits_read_back [OF this]
  have "rc_cpu_quota_percent (dc_resources sample_unit) = Fin (51 / 2)" by (simp add: sample_unit_def)
  with read obtain n :: nat
    where "first_value ''CPUQuota='' (lines (generate_unit_file sample_unit)) = Some (show_nat n @ ''%'')"
      and n: "(of_nat n :: rat) \<le> 51 / 2 + 1 / 1000000000" "51 / 2 < (of_nat n :: rat) + 1"
    by auto
  moreover have "(of_nat n :: rat) < of_nat 26" "(of_nat 24 :: rat) < of_nat n" using n by simp_all
  then have "n = 25" by (simp only: of_nat_less_iff)
  ultimately have "first_value ''CPUQuota='' (lines (generate_unit_file sample_unit)) = Some ''25%''"
    by (simp add: show_nat_eval)
  with read show ?thesis
    by (simp add: sample_unit_def config_new_def resource_default_def show_nat_eval del: unsigned_numeral)
qed

end
