(* ===== verification/Platform_Wos.thy ===== *)
theory Platform_Wos
  imports Platform_Linux
begin

text \<open>
  The WOS adapter of the platform crate, \<open>crates/duende-platform/src/wos.rs\<close>: priorities, process states, and an
  adapter that simulates processes in a table. The adapter's state is its settings, the table and the static
  \<open>NEXT_PID\<close>. The methods are given as a whole and, for tasks that call them at once, by the sections
  between which other tasks run: \<open>spawn\<close> draws its id before it takes the lock of the table, and \<open>signal\<close> takes that lock
  a second time to remove a process it has ended.
\<close>

section \<open>Priorities\<close>

datatype wos_priority = Idle | Low | BelowNormal | NormalPriority | AboveNormal | High | VeryHigh | RealTime

fun wos_as_u8 :: "wos_priority \<Rightarrow> u8" where
  "wos_as_u8 Idle = 0"
| "wos_as_u8 Low = 1"
| "wos_as_u8 BelowNormal = 2"
| "wos_as_u8 NormalPriority = 3"
| "wos_as_u8 AboveNormal = 4"
| "wos_as_u8 High = 5"
| "wos_as_u8 VeryHigh = 6"
| "wos_as_u8 RealTime = 7"

definition wos_from_u8 :: "u8 \<Rightarrow> wos_priority" where
  "wos_from_u8 n =
     (if n = 0 then Idle else if n = 1 then Low else if n = 2 then BelowNormal else if n = 3 then NormalPriority
      else if n = 4 then AboveNormal else if n = 5 then High else if n = 6 then VeryHigh else RealTime)"

text \<open>The derived order is that of the discriminants.\<close>

lemma wos_as_u8_inject: "wos_as_u8 p = wos_as_u8 q \<longleftrightarrow> p = q"
  by (cases p; cases q) simp_all

instantiation wos_priority :: linorder
begin

definition less_eq_wos_priority :: "wos_priority \<Rightarrow> wos_priority \<Rightarrow> bool" where
  "less_eq_wos_priority p q \<longleftrightarrow> wos_as_u8 p \<le> wos_as_u8 q"

definition less_wos_priority :: "wos_priority \<Rightarrow> wos_priority \<Rightarrow> bool" where
  "less_wos_priority p q \<longleftrightarrow> wos_as_u8 p < wos_as_u8 q"

instance
  by intro_classes (auto simp: less_eq_wos_priority_def less_wos_priority_def simp flip: wos_as_u8_inject)

end

definition wos_age :: "wos_priority \<Rightarrow> wos_priority" where
  "wos_age p = (if p < RealTime then wos_from_u8 (wos_as_u8 p + 1) else p)"

interpretation wos_level: codec wos_as_u8 "\<lambda>n. Some (wos_from_u8 n)"
proof unfold_locales
  fix p
  show "Some (wos_from_u8 (wos_as_u8 p)) = Some p" by (cases p) (simp_all add: wos_from_u8_def)
qed

lemma wos_age_level: "unat (wos_as_u8 (wos_age p)) = min 7 (Suc (unat (wos_as_u8 p)))"
  by (cases p) (simp_all add: wos_age_def less_wos_priority_def wos_from_u8_def)

text \<open>Ageing starves nobody: whatever the priority, the highest one is reached in seven steps, one level at a time.\<close>

lemma wos_age_steps: "unat (wos_as_u8 ((wos_age ^^ n) p)) = min 7 (n + unat (wos_as_u8 p))"
proof (induction n)
  case 0
  show ?case by (cases p) simp_all
qed (simp add: wos_age_level)

lemma wos_age_never_lowers: "p \<le> wos_age p"
  by (cases p) (simp_all add: wos_age_def less_eq_wos_priority_def less_wos_priority_def wos_from_u8_def)

section \<open>Processes\<close>

datatype p_process_state = PCreated | PReady | PRunning | PBlocked | PExited i32 | PKilled signal

record p_process_info =
  pi_pid :: u32
  pi_name :: string
  pi_state :: p_process_state
  pi_priority :: wos_priority
  pi_base_priority :: wos_priority
  pi_parent_pid :: u32
  pi_memory_limit :: u64

record p_wos_adapter =
  pw_default_priority :: wos_priority
  pw_aging_enabled :: bool
  pw_memory_limit :: u64
  pw_processes :: "u32 \<rightharpoonup> p_process_info"
  pw_next_pid :: u32

type_synonym ('a, 'w) p_wos_action = "('a, p_wos_adapter, 'w) p_action"

definition p_wos_new :: "u32 \<Rightarrow> p_wos_adapter" where
  "p_wos_new next_pid =
     \<lparr>pw_default_priority = NormalPriority, pw_aging_enabled = True, pw_memory_limit = 64 * 1024 * 1024,
      pw_processes = (\<lambda>_. None), pw_next_pid = next_pid\<rparr>"

definition p_wos_with_priority :: "wos_priority \<Rightarrow> p_wos_adapter \<Rightarrow> p_wos_adapter" where
  "p_wos_with_priority p a = a\<lparr>pw_default_priority := p\<rparr>"

definition p_wos_with_aging :: "bool \<Rightarrow> p_wos_adapter \<Rightarrow> p_wos_adapter" where
  "p_wos_with_aging enabled a = a\<lparr>pw_aging_enabled := enabled\<rparr>"

definition p_wos_with_memory_limit :: "u64 \<Rightarrow> p_wos_adapter \<Rightarrow> p_wos_adapter" where
  "p_wos_with_memory_limit limit a = a\<lparr>pw_memory_limit := limit\<rparr>"

definition p_wos_allocate_pid :: "(u32, 'w) p_wos_action" where
  "p_wos_allocate_pid w = (Ok (pw_next_pid (adapter w)),
     w\<lparr>adapter := (adapter w)\<lparr>pw_next_pid := pw_next_pid (adapter w) + 1\<rparr>\<rparr>)"

definition config_to_priority :: "daemon_config \<Rightarrow> wos_priority" where
  "config_to_priority c =
     (let quota = rc_cpu_quota_percent (dc_resources c) in
      if f_ge quota (Fin 90) then RealTime
      else if f_ge quota (Fin 75) then VeryHigh
      else if f_ge quota (Fin 60) then High
      else if f_ge quota (Fin 45) then AboveNormal
      else if f_ge quota (Fin 30) then NormalPriority
      else if f_ge quota (Fin 15) then BelowNormal
      else if f_gt quota (Fin 0) then Low
      else NormalPriority)"

fun kill_number :: "signal \<Rightarrow> i32" where
  "kill_number Term = 15"
| "kill_number Kill = 9"
| "kill_number Hup = 1"
| "kill_number Int' = 2"
| "kill_number Quit = 3"
| "kill_number Usr1 = 10"
| "kill_number Usr2 = 12"
| "kill_number Stop = 19"
| "kill_number Cont = 18"

fun state_to_status :: "p_process_state \<Rightarrow> daemon_status" where
  "state_to_status PCreated = Created"
| "state_to_status PReady = Running"
| "state_to_status PRunning = Running"
| "state_to_status PBlocked = Running"
| "state_to_status (PExited code) = (if code = 0 then Stopped else Failed (FExitCode code))"
| "state_to_status (PKilled sig) = Failed (FSignal (kill_number sig))"

definition p_apply_signal :: "p_process_state \<Rightarrow> signal \<Rightarrow> p_process_state" where
  "p_apply_signal st sig =
     (case sig of
        Kill \<Rightarrow> PKilled Kill
      | Term \<Rightarrow> PKilled Term
      | Stop \<Rightarrow> PBlocked
      | Cont \<Rightarrow> if st = PBlocked then PReady else st
      | _ \<Rightarrow> st)"

fun process_ended :: "p_process_state \<Rightarrow> bool" where
  "process_ended (PExited _) = True"
| "process_ended (PKilled _) = True"
| "process_ended _ = False"

section \<open>Methods\<close>

definition p_wos_process :: "p_wos_adapter \<Rightarrow> string \<Rightarrow> u32 \<Rightarrow> p_process_info" where
  "p_wos_process a daemon_name pid =
     (let config = config_new daemon_name ''/wasm/daemon.wasm''; r = dc_resources config;
          priority = (if f_gt (rc_cpu_quota_percent r) (Fin 0) then config_to_priority config
                      else pw_default_priority a);
          memory_limit = (if 0 < rc_memory_bytes r then rc_memory_bytes r else pw_memory_limit a)
      in \<lparr>pi_pid = pid, pi_name = daemon_name, pi_state = PRunning, pi_priority = priority,
          pi_base_priority = priority, pi_parent_pid = 1, pi_memory_limit = memory_limit\<rparr>)"

text \<open>The section of \<open>spawn\<close> under the lock, after the id has been allocated.\<close>

definition p_wos_insert :: "string \<Rightarrow> u32 \<Rightarrow> (p_handle, 'w) p_wos_action" where
  "p_wos_insert daemon_name pid =
     act_bind (modify_adapter (\<lambda>a. a\<lparr>pw_processes := (pw_processes a)(pid \<mapsto> p_wos_process a daemon_name pid)\<rparr>)) (\<lambda>_.
     act_return (p_handle_wos pid))"

definition p_wos_spawn :: "string \<Rightarrow> (p_handle, 'w) p_wos_action" where
  "p_wos_spawn daemon_name = act_bind p_wos_allocate_pid (p_wos_insert daemon_name)"

text \<open>\<open>signal\<close> takes the lock twice: the first section sets the state, and finds out whether the process has ended; then
  the lock is dropped, and taken again to remove an ended process.\<close>

definition p_wos_deliver :: "u32 \<Rightarrow> signal \<Rightarrow> p_process_info \<Rightarrow> p_wos_adapter \<Rightarrow> p_wos_adapter" where
  "p_wos_deliver pid sig p a =
     a\<lparr>pw_processes := (pw_processes a)(pid \<mapsto> p\<lparr>pi_state := p_apply_signal (pi_state p) sig\<rparr>)\<rparr>"

definition p_wos_signal_first :: "p_handle \<Rightarrow> signal \<Rightarrow> (u32 option, 'w) p_wos_action" where
  "p_wos_signal_first h sig =
     act_bind (on_platform Wos h (SignalP ''not a WOS handle'')) (\<lambda>_.
     act_bind (require (parse_u32 (ph_id h)) (SignalP ''invalid PID'')) (\<lambda>pid.
     act_bind (read_adapter pw_processes) (\<lambda>table.
     act_bind (require (table pid) (SignalP ''process not found'')) (\<lambda>p.
     act_bind (modify_adapter (p_wos_deliver pid sig p)) (\<lambda>_.
     act_return (if process_ended (p_apply_signal (pi_state p) sig) then Some pid else None))))))"

definition p_wos_remove :: "u32 \<Rightarrow> (unit, 'w) p_wos_action" where
  "p_wos_remove pid = modify_adapter (\<lambda>a. a\<lparr>pw_processes := (pw_processes a)(pid := None)\<rparr>)"

definition p_wos_signal :: "p_handle \<Rightarrow> signal \<Rightarrow> (unit, 'w) p_wos_action" where
  "p_wos_signal h sig =
     act_bind (p_wos_signal_first h sig) (\<lambda>ended. case ended of None \<Rightarrow> act_return () | Some pid \<Rightarrow> p_wos_remove pid)"

definition p_wos_status :: "p_handle \<Rightarrow> (daemon_status, 'w) p_wos_action" where
  "p_wos_status h =
     act_bind (on_platform Wos h (StatusP ''not a WOS handle'')) (\<lambda>_.
     act_bind (require (parse_u32 (ph_id h)) (StatusP ''invalid PID'')) (\<lambda>pid.
     act_bind (read_adapter pw_processes) (\<lambda>table.
     act_return (case table pid of Some p \<Rightarrow> state_to_status (pi_state p) | None \<Rightarrow> Stopped))))"

definition p_wos_attach_tracer :: "p_handle \<Rightarrow> (p_tracer_handle, 'w) p_wos_action" where
  "p_wos_attach_tracer h =
     act_bind (on_platform Wos h (TracerP ''not a WOS handle'')) (\<lambda>_.
     act_bind (require (parse_u32 (ph_id h)) (TracerP ''invalid PID'')) (\<lambda>pid.
     act_bind (read_adapter pw_processes) (\<lambda>table.
     if table pid = None then act_fail (TracerP ''process not running'')
     else act_return \<lparr>pt_platform = Wos, pt_id = ''wasm-trace:'' @ show_word pid\<rparr>)))"

lemma forward_p_wos: "forward (p_wos_signal h sig)" "forward (p_wos_status h)"
  unfolding p_wos_signal_def p_wos_signal_first_def p_wos_remove_def p_wos_status_def by (intro clock_intro)+

interpretation p_wos: clocked p_wos_signal p_wos_status
  by unfold_locales (simp_all add: forwardD forward_p_wos)

section \<open>Calls by their lock sections\<close>

datatype p_wos_call = WSpawn string | WSignal p_handle signal | WStatus p_handle | WTrace p_handle

datatype p_wos_answer = WHandle p_handle | WDone | WStatusIs daemon_status | WTracer p_tracer_handle

text \<open>Between two steps of a task the others run: a \<open>spawn\<close> has its id but is not in the table yet, a \<open>signal\<close> has ended a
  process and not removed it yet.\<close>

datatype p_wos_pc =
    WStart p_wos_call
  | WInsert string u32
  | WEnding u32
  | WReturned "(p_error, p_wos_answer) outcome"

fun wos_next :: "('a \<Rightarrow> p_wos_pc) \<Rightarrow> (p_error, 'a) outcome \<times> 'x \<Rightarrow> p_wos_pc \<times> 'x" where
  "wos_next f (Ok a, w) = (f a, w)"
| "wos_next f (Err e, w) = (WReturned (Err e), w)"
| "wos_next f (Panic, w) = (WReturned Panic, w)"

fun wos_move :: "p_wos_pc \<Rightarrow> (p_wos_adapter, 'w) world \<Rightarrow> p_wos_pc \<times> (p_wos_adapter, 'w) world" where
  "wos_move (WStart (WSpawn name)) w = wos_next (WInsert name) (p_wos_allocate_pid w)"
| "wos_move (WInsert name pid) w = wos_next (\<lambda>h. WReturned (Ok (WHandle h))) (p_wos_insert name pid w)"
| "wos_move (WStart (WSignal h sig)) w =
     wos_next (\<lambda>ended. case ended of None \<Rightarrow> WReturned (Ok WDone) | Some pid \<Rightarrow> WEnding pid) (p_wos_signal_first h sig w)"
| "wos_move (WEnding pid) w = wos_next (\<lambda>_. WReturned (Ok WDone)) (p_wos_remove pid w)"
| "wos_move (WStart (WStatus h)) w = wos_next (\<lambda>st. WReturned (Ok (WStatusIs st))) (p_wos_status h w)"
| "wos_move (WStart (WTrace h)) w = wos_next (\<lambda>t. WReturned (Ok (WTracer t))) (p_wos_attach_tracer h w)"
| "wos_move (WReturned r) w = (WReturned r, w)"

record 'w wos_tasks =
  wt_pc :: "nat \<Rightarrow> p_wos_pc"
  wt_world :: "(p_wos_adapter, 'w) world"

definition wos_task_step :: "'w wos_tasks \<Rightarrow> nat \<Rightarrow> 'w wos_tasks" where
  "wos_task_step s t =
     (case wos_move (wt_pc s t) (wt_world s) of (pc, w) \<Rightarrow> s\<lparr>wt_pc := (wt_pc s)(t := pc), wt_world := w\<rparr>)"

definition wos_tasks_start :: "(nat \<Rightarrow> p_wos_call) \<Rightarrow> (p_wos_adapter, 'w) world \<Rightarrow> 'w wos_tasks" where
  "wos_tasks_start calls w = \<lparr>wt_pc = (\<lambda>t. WStart (calls t)), wt_world = w\<rparr>"

text \<open>A call whose sections follow each other is the method.\<close>

lemma wos_call_alone:
  "(case wos_move (WStart (WSignal h sig)) w of (pc, w') \<Rightarrow> wos_move pc w')
    = wos_next (\<lambda>_. WReturned (Ok WDone)) (p_wos_signal h sig w)"
  "(case wos_move (WStart (WSpawn name)) w of (pc, w') \<Rightarrow> wos_move pc w')
    = wos_next (\<lambda>h. WReturned (Ok (WHandle h))) (p_wos_spawn name w)"
proof -
  show "(case wos_move (WStart (WSignal h sig)) w of (pc, w') \<Rightarrow> wos_move pc w')
      = wos_next (\<lambda>_. WReturned (Ok WDone)) (p_wos_signal h sig w)"
    by (cases "p_wos_signal_first h sig w"; cases "fst (p_wos_signal_first h sig w)")
      (auto simp: p_wos_signal_def act_bind_def act_return_def split: option.split)
qed (simp add: p_wos_allocate_pid_def p_wos_spawn_def act_bind_def)

section \<open>Who is in the table\<close>

text \<open>An entry is filed under its own id, a child of init, and alive; or a signal has killed it and the call that does so has
  not removed it yet.\<close>

definition alive :: "p_process_info \<Rightarrow> bool" where
  "alive p \<longleftrightarrow> pi_state p \<in> {PReady, PRunning, PBlocked}"

definition being_removed :: "'w wos_tasks \<Rightarrow> u32 \<Rightarrow> bool" where
  "being_removed s pid \<longleftrightarrow> (\<exists>t. wt_pc s t = WEnding pid)"

definition wos_table_ok :: "'w wos_tasks \<Rightarrow> bool" where
  "wos_table_ok s \<longleftrightarrow>
     (\<forall>pid p. pw_processes (adapter (wt_world s)) pid = Some p \<longrightarrow>
        pi_pid p = pid \<and> pi_parent_pid p = 1
        \<and> (alive p \<or> (being_removed s pid \<and> pi_state p \<in> {PKilled Term, PKilled Kill})))"

lemma apply_signal_cases:
  assumes "pi_state p \<in> {PReady, PRunning, PBlocked, PKilled Term, PKilled Kill}"
  shows "(process_ended (p_apply_signal (pi_state p) sig) \<and> p_apply_signal (pi_state p) sig \<in> {PKilled Term, PKilled Kill})
    \<or> (\<not> process_ended (p_apply_signal (pi_state p) sig) \<and> p_apply_signal (pi_state p) sig \<in> {PReady, PRunning, PBlocked})"
  using assms by (cases sig) (auto simp: p_apply_signal_def)

text \<open>What the first section of \<open>signal\<close> does.\<close>

lemma p_wos_signal_first_cases:
  obtains e where "p_wos_signal_first h sig w = (Err e, w)"
  | pid p where "pw_processes (adapter w) pid = Some p"
    "p_wos_signal_first h sig w =
       (Ok (if process_ended (p_apply_signal (pi_state p) sig) then Some pid else None),
        w\<lparr>adapter := p_wos_deliver pid sig p (adapter w)\<rparr>)"
proof (cases "ph_platform h = Wos")
  case False
  with that(1) show thesis by (simp add: p_wos_signal_first_def on_platform_def act_simps)
next
  case wos: True
  show thesis
  proof (cases "parse_u32 (ph_id h)")
    case None
    with wos that(1) show thesis by (simp add: p_wos_signal_first_def on_platform_def act_simps)
  next
    case (Some pid)
    with wos that show thesis
      by (cases "pw_processes (adapter w) pid")
        (simp_all add: p_wos_signal_first_def on_platform_def act_simps del: map_option_eq_Some)
  qed
qed

lemma wos_readonly:
  "snd (p_wos_status h w) = w" "snd (p_wos_attach_tracer h w) = w"
  by (cases "parse_u32 (ph_id h)"; auto simp: p_wos_status_def p_wos_attach_tracer_def on_platform_def act_simps)+

lemma wos_next_world: "snd (wos_next f x) = snd x"
  by (cases "(f, x)" rule: wos_next.cases) simp_all

text \<open>What a step does to the table. An ended process is announced by the task that removes it.\<close>

lemma wos_move_cases:
  obtains (same) "pw_processes (adapter (snd (wos_move pc w))) = pw_processes (adapter w)" "\<And>pid. pc \<noteq> WEnding pid"
  | (insert) name pid where "pw_processes (adapter (snd (wos_move pc w)))
      = (pw_processes (adapter w))(pid \<mapsto> p_wos_process (adapter w) name pid)" "pc = WInsert name pid"
  | (signal) pid p sig where "pw_processes (adapter w) pid = Some p" "\<And>i. pc \<noteq> WEnding i"
      "pw_processes (adapter (snd (wos_move pc w)))
        = (pw_processes (adapter w))(pid \<mapsto> p\<lparr>pi_state := p_apply_signal (pi_state p) sig\<rparr>)"
      "process_ended (p_apply_signal (pi_state p) sig) \<longrightarrow> fst (wos_move pc w) = WEnding pid"
  | (remove) pid where "pw_processes (adapter (snd (wos_move pc w))) = (pw_processes (adapter w))(pid := None)"
      "pc = WEnding pid"
proof (cases pc)
  case (WStart c)
  show thesis
  proof (cases c)
    case (WSignal h sig)
    show thesis
    proof (cases rule: p_wos_signal_first_cases [of h sig w])
      case (1 e)
      with WStart WSignal show thesis by (intro same) simp_all
    next
      case (2 pid p)
      with WStart WSignal show thesis by (intro signal) (auto simp: p_wos_deliver_def)
    qed
  qed (use WStart same in \<open>simp_all add: wos_next_world wos_readonly p_wos_allocate_pid_def\<close>)
next
  case (WInsert name pid)
  then show thesis by (intro insert) (simp_all add: p_wos_insert_def act_simps)
next
  case (WEnding pid)
  then show thesis by (intro remove) (simp_all add: p_wos_remove_def act_simps)
next
  case (WReturned r)
  then show thesis by (intro same) simp_all
qed

lemma wos_task_step_ok [inv_intro]:
  assumes "wos_table_ok s"
  shows "wos_table_ok (wos_task_step s t)"
proof -
  obtain pc w where move: "wos_move (wt_pc s t) (wt_world s) = (pc, w)" by fastforce
  let ?s = "s\<lparr>wt_pc := (wt_pc s)(t := pc), wt_world := w\<rparr>"
  have s: "wos_task_step s t = ?s" by (simp add: wos_task_step_def move)
  have others: "being_removed ?s i" if "being_removed s i" "wt_pc s t \<noteq> WEnding i" for i
    using that by (auto simp: being_removed_def)
  show ?thesis
    unfolding s
  proof (cases rule: wos_move_cases [of "wt_pc s t" "wt_world s", case_names same insert signal remove])
    case same
    with move assms others show "wos_table_ok ?s" by (auto simp: wos_table_ok_def)
  next
    case (insert name pid)
    with move assms others show "wos_table_ok ?s" by (auto simp: wos_table_ok_def p_wos_process_def Let_def alive_def)
  next
    case (signal pid p sig)
    have p: "pi_pid p = pid" "pi_parent_pid p = 1" "pi_state p \<in> {PReady, PRunning, PBlocked, PKilled Term, PKilled Kill}"
      using assms signal(1) by (auto simp: wos_table_ok_def alive_def)
    have "process_ended (p_apply_signal (pi_state p) sig) \<Longrightarrow> being_removed ?s pid"
      using move signal(4) by (auto simp: being_removed_def)
    with p apply_signal_cases [OF p(3), of sig] signal(1-3) move assms others show "wos_table_ok ?s"
      by (auto simp: wos_table_ok_def alive_def)
  next
    case (remove pid)
    with move assms others show "wos_table_ok ?s" by (auto simp: wos_table_ok_def)
  qed
qed

interpretation wos_table: invariant_machine wos_task_step wos_table_ok
  by unfold_locales (rule wos_task_step_ok)

lemma wos_tasks_start_ok: "pw_processes (adapter w) = (\<lambda>_. None) \<Longrightarrow> wos_table_ok (wos_tasks_start calls w)"
  by (simp add: wos_table_ok_def wos_tasks_start_def)

lemma wos_table_status:
  assumes "wos_table_ok s" "fst (p_wos_status h (wt_world s)) = Ok st" "st \<notin> {Running, Stopped}"
  shows "\<exists>pid. parse_u32 (ph_id h) = Some pid \<and> being_removed s pid \<and> st \<in> {Failed (FSignal 15), Failed (FSignal 9)}"
proof (cases "parse_u32 (ph_id h)")
  case None
  with assms(2) show ?thesis by (simp add: p_wos_status_def on_platform_def act_simps split: if_splits)
next
  case (Some pid)
  show ?thesis
  proof (cases "pw_processes (adapter (wt_world s)) pid")
    case None
    with Some assms(2,3) show ?thesis by (simp add: p_wos_status_def on_platform_def act_simps split: if_splits)
  next
    case entry: (Some p)
    then have st: "st = state_to_status (pi_state p)"
      using Some assms(2) by (simp add: p_wos_status_def on_platform_def act_simps split: if_splits)
    then have "\<not> alive p" using assms(3) by (auto simp: alive_def)
    with assms(1) entry have "being_removed s pid" "pi_state p \<in> {PKilled Term, PKilled Kill}"
      by (auto simp: wos_table_ok_def)
    with Some st show ?thesis by auto
  qed
qed

text \<open>C26: A killed process is a failure in passing only: whatever is spawned, signalled and asked for by any number of
  tasks, in whatever order their lock sections run, every process in the table is alive, or \<open>Term\<close> or \<open>Kill\<close> has ended it and
  the call that found that out is between its two sections. So a status is running or stopped, except that it tells of
  the killing signal for as long as such a call has not come to its second section; then the process
  leaves the table, and the status is stopped.\<close>

theorem wos_failure_in_passing:
  assumes "s = run wos_task_step (wos_tasks_start calls w) ts" "pw_processes (adapter w) = (\<lambda>_. None)"
  shows "(\<forall>pid p. pw_processes (adapter (wt_world s)) pid = Some p \<longrightarrow>
        pi_pid p = pid \<and> pi_parent_pid p = 1
        \<and> (alive p \<or> (being_removed s pid \<and> pi_state p \<in> {PKilled Term, PKilled Kill})))
    \<and> (\<forall>h st. fst (p_wos_status h (wt_world s)) = Ok st \<longrightarrow>
        st \<in> {Running, Stopped}
        \<or> (\<exists>pid. parse_u32 (ph_id h) = Some pid \<and> being_removed s pid \<and> st \<in> {Failed (FSignal 15), Failed (FSignal 9)}))
    \<and> (\<forall>t pid. wt_pc s t = WEnding pid \<longrightarrow>
        pw_processes (adapter (wt_world (wos_task_step s t))) pid = None
        \<and> wt_pc (wos_task_step s t) t = WReturned (Ok WDone))"
proof (intro conjI)
  have ok: "wos_table_ok s" unfolding assms(1) by (rule wos_table.run_good [OF wos_tasks_start_ok [OF assms(2)]])
  then show "\<forall>pid p. pw_processes (adapter (wt_world s)) pid = Some p \<longrightarrow>
        pi_pid p = pid \<and> pi_parent_pid p = 1
        \<and> (alive p \<or> (being_removed s pid \<and> pi_state p \<in> {PKilled Term, PKilled Kill}))"
    by (simp only: wos_table_ok_def)
  show "\<forall>h st. fst (p_wos_status h (wt_world s)) = Ok st \<longrightarrow>
        st \<in> {Running, Stopped}
        \<or> (\<exists>pid. parse_u32 (ph_id h) = Some pid \<and> being_removed s pid \<and> st \<in> {Failed (FSignal 15), Failed (FSignal 9)})"
    using wos_table_status [OF ok] by blast
qed (auto simp: wos_task_step_def p_wos_remove_def act_simps)

definition p_wos_start :: "(p_wos_adapter, unit) world" where
  "p_wos_start = \<lparr>clock = 0, adapter = p_wos_new 2, os = ()\<rparr>"

text \<open>Task 0 spawns a process, task 1 kills it, task 2 asks for its status between the two sections of the kill.\<close>

definition wos_calls :: "nat \<Rightarrow> p_wos_call" where
  "wos_calls t = (if t = 0 then WSpawn ''d'' else if t = 1 then WSignal (p_handle_wos 2) Kill else WStatus (p_handle_wos 2))"

lemmas wos_run_simps = p_wos_start_def p_wos_new_def wos_tasks_start_def wos_task_step_def wos_calls_def
  p_wos_allocate_pid_def p_wos_insert_def p_wos_signal_first_def p_wos_remove_def p_wos_status_def p_wos_deliver_def
  p_apply_signal_def p_wos_process_def on_platform_def act_simps p_handle_wos_def parse_unsigned_show Let_def

lemma wos_killed_in_passing:
  "fst (p_wos_status (p_handle_wos 2) (wt_world (run wos_task_step (wos_tasks_start wos_calls p_wos_start) [0, 0, 1])))
     = Ok (Failed (FSignal 9))"
  "fst (p_wos_status (p_handle_wos 2) (wt_world (run wos_task_step (wos_tasks_start wos_calls p_wos_start) [0, 0, 1, 1])))
     = Ok Stopped"
  by (simp_all add: wos_run_simps)

theorem wos_failure_in_passing_witness:
  "being_removed (run wos_task_step (wos_tasks_start wos_calls p_wos_start) [0, 0, 1]) 2"
proof -
  have "pw_processes (adapter p_wos_start) = (\<lambda>_. None)" by (simp add: p_wos_start_def p_wos_new_def)
  from wos_failure_in_passing [OF refl this] wos_killed_in_passing(1)
  obtain pid where "parse_u32 (ph_id (p_handle_wos 2)) = Some pid"
    "being_removed (run wos_task_step (wos_tasks_start wos_calls p_wos_start) [0, 0, 1]) pid"
    by blast
  then show ?thesis by (simp add: p_handle_wos_def parse_unsigned_show)
qed

text \<open>A spawned process never gets the priority and the memory limit the adapter was built with: the
  configuration it is made from is a default one, with a quota of a hundred percent and 512 MiB, so every
  process is real-time and has that limit.\<close>

theorem wos_spawn_ignores_settings:
  "let w' = snd (p_wos_spawn name w); pid = pw_next_pid (adapter w) in
   fst (p_wos_spawn name w) = Ok (p_handle_wos pid)
   \<and> pw_processes (adapter w') =
       (pw_processes (adapter w))
         (pid \<mapsto> \<lparr>pi_pid = pid, pi_name = name, pi_state = PRunning, pi_priority = RealTime,
                 pi_base_priority = RealTime, pi_parent_pid = 1, pi_memory_limit = 512 * 1024 * 1024\<rparr>)"
  by (simp add: Let_def p_wos_spawn_def p_wos_allocate_pid_def p_wos_insert_def act_simps p_wos_process_def config_to_priority_def
      config_new_def resource_default_def)

end
