(* ===== verification/Platform_Container.thy ===== *)
theory Platform_Container
  imports Platform_Linux
begin

text \<open>
  The container adapter of the platform crate, \<open>crates/duende-platform/src/container.rs\<close>: the arguments of \<open>run\<close> made
  of a configuration, the reading of \<open>inspect\<close>, and the methods that drive the runtime's command line.
\<close>

datatype p_container_runtime = PDocker | PPodman | PContainerd

fun cli_command :: "p_container_runtime \<Rightarrow> string" where
  "cli_command PDocker = ''docker''"
| "cli_command PPodman = ''podman''"
| "cli_command PContainerd = ''nerdctl''"

record p_container_adapter =
  pca_socket_path :: string
  pca_runtime :: p_container_runtime
  pca_image_prefix :: string

definition p_container_with_socket :: "string \<Rightarrow> p_container_adapter" where
  "p_container_with_socket path = \<lparr>pca_socket_path = path, pca_runtime = PDocker, pca_image_prefix = ''duende''\<rparr>"

definition p_container_new :: p_container_adapter where
  "p_container_new = \<lparr>pca_socket_path = ''/var/run/docker.sock'', pca_runtime = PDocker, pca_image_prefix = ''duende''\<rparr>"

definition p_container_with_runtime :: "p_container_runtime \<Rightarrow> p_container_adapter" where
  "p_container_with_runtime r =
     \<lparr>pca_socket_path =
        (case r of
           PDocker \<Rightarrow> ''/var/run/docker.sock''
         | PPodman \<Rightarrow> ''/var/run/podman/podman.sock''
         | PContainerd \<Rightarrow> ''/run/containerd/containerd.sock''),
      pca_runtime = r, pca_image_prefix = ''duende''\<rparr>"

definition p_container_with_image_prefix :: "string \<Rightarrow> p_container_adapter \<Rightarrow> p_container_adapter" where
  "p_container_with_image_prefix p a = a\<lparr>pca_image_prefix := p\<rparr>"

definition p_container_name :: "string \<Rightarrow> string" where
  "p_container_name daemon_name = ''duende-'' @ replace_char (CHR '' '') ''-'' daemon_name"

section \<open>Arguments and statuses\<close>

definition p_container_run_args :: "p_container_adapter \<Rightarrow> daemon_config \<Rightarrow> string list" where
  "p_container_run_args a c =
     (let r = dc_resources c;
          image = pca_image_prefix a @ ''/''
            @ (case file_name (dc_binary_path c) of None \<Rightarrow> dc_name c | Some n \<Rightarrow> n) @ '':latest''
      in [''run'', ''-d'', ''--name'', p_container_name (dc_name c)]
         @ (if 0 < rc_memory_bytes r then [''--memory'', show_word (rc_memory_bytes r) @ ''b''] else [])
         @ (if partial_quota (rc_cpu_quota_percent r)
            then [''--cpus'', show_fixed2 (f_div (rc_cpu_quota_percent r) (Fin 100))] else [])
         @ (if 0 < rc_pids_max r then [''--pids-limit'', show_word (rc_pids_max r)] else [])
         @ concat (map (\<lambda>(key, v). [''-e'', key @ ''='' @ v]) (dc_env c))
         @ (case dc_working_dir c of Some d \<Rightarrow> [''-w'', d] | None \<Rightarrow> [])
         @ (case dc_user c of
              Some user \<Rightarrow> [''--user'', (case dc_group c of Some g \<Rightarrow> user @ '':'' @ g | None \<Rightarrow> user)]
            | None \<Rightarrow> [])
         @ [''--restart'', restart_directive (dc_restart c),
            ''--stop-timeout'', show_nat (dc_shutdown_timeout c div from_secs 1), image]
         @ dc_args c)"

definition p_container_exit_status :: "string \<Rightarrow> daemon_status" where
  "p_container_exit_status output =
     (case find_sub ''\"ExitCode\":'' output of
        Some code_start \<Rightarrow>
          (case parse_i32 (takeWhile number_char (trim_start (drop (code_start + 11) output))) of
             Some code \<Rightarrow> if code = 0 then Stopped else Failed (FExitCode code)
           | None \<Rightarrow> Stopped)
      | None \<Rightarrow> Stopped)"

definition p_container_parse_status :: "string \<Rightarrow> daemon_status" where
  "p_container_parse_status output =
     (if contains ''\"running\"'' output then Running
      else if contains ''\"exited\"'' output then p_container_exit_status output
      else if contains ''\"created\"'' output then Created
      else if contains ''\"restarting\"'' output \<or> contains ''\"starting\"'' output then Starting
      else if contains ''\"paused\"'' output \<or> contains ''\"removing\"'' output then Stopping
      else if contains ''\"dead\"'' output then Failed (FExitCode 1)
      else Created)"

section \<open>Methods\<close>

definition p_container_spawn :: "p_container_adapter \<Rightarrow> 'w exec \<Rightarrow> string \<Rightarrow> (p_handle, 's, 'w) p_action" where
  "p_container_spawn a exec daemon_name =
     (let config = config_new daemon_name ''/bin/daemon''; cli = cli_command (pca_runtime a) in
      act_bind (try_command exec [cli, ''rm'', ''-f'', p_container_name daemon_name]) (\<lambda>_.
      act_bind (checked_command exec (cli # p_container_run_args a config)
        (\<lambda>e. SpawnP (cli @ '' run failed: '' @ e)) (\<lambda>stderr. SpawnP (cli @ '' run failed: '' @ stderr))) (\<lambda>out.
      act_return (p_handle_container (trim (out_stdout out))))))"

definition p_container_signal :: "p_container_adapter \<Rightarrow> 'w exec \<Rightarrow> p_handle \<Rightarrow> signal \<Rightarrow> (unit, 's, 'w) p_action" where
  "p_container_signal a exec h sig =
     (let cli = cli_command (pca_runtime a) in
      act_bind (on_platform Container h (SignalP ''not a container handle'')) (\<lambda>_.
      act_bind (checked_command exec [cli, ''kill'', ''--signal'', p_signal_name sig, ph_id h]
        (\<lambda>e. SignalP (cli @ '' kill failed: '' @ e)) (\<lambda>stderr. SignalP (cli @ '' kill failed: '' @ stderr)))
        (\<lambda>_. act_return ())))"

definition p_container_status :: "p_container_adapter \<Rightarrow> 'w exec \<Rightarrow> p_handle \<Rightarrow> (daemon_status, 's, 'w) p_action" where
  "p_container_status a exec h =
     (let cli = cli_command (pca_runtime a) in
      act_bind (on_platform Container h (StatusP ''not a container handle'')) (\<lambda>_.
      act_bind (command exec [cli, ''inspect'', ''--format'', ''{{json .State}}'', ph_id h]
        (\<lambda>e. StatusP (cli @ '' inspect failed: '' @ e))) (\<lambda>out.
      if \<not> out_success out then act_return Stopped
      else act_return (p_container_parse_status (out_stdout out)))))"

definition p_container_attach_tracer :: "p_container_adapter \<Rightarrow> 'w exec \<Rightarrow> p_handle \<Rightarrow> (p_tracer_handle, 's, 'w) p_action" where
  "p_container_attach_tracer a exec h =
     (let cli = cli_command (pca_runtime a) in
      act_bind (on_platform Container h (TracerP ''not a container handle'')) (\<lambda>_.
      act_bind (command exec [cli, ''inspect'', ''--format'', ''{{.State.Pid}}'', ph_id h]
        (\<lambda>e. TracerP (''failed to get container PID: '' @ e))) (\<lambda>out.
      act_bind (require (parse_u32 (trim (out_stdout out))) (TracerP ''failed to parse container PID'')) (\<lambda>pid.
      if pid = 0 then act_fail (TracerP ''container not running'')
      else act_return \<lparr>pt_platform = Container, pt_id = ''ptrace:'' @ show_word pid\<rparr>))))"

lemma forward_p_container: "forward (p_container_signal a exec h sig)" "forward (p_container_status a exec h)"
  unfolding p_container_signal_def p_container_status_def Let_def by (intro clock_intro)+

interpretation p_container: clocked "p_container_signal a exec" "p_container_status a exec"
  by unfold_locales (simp_all add: forwardD forward_p_container)

section \<open>Properties\<close>

lemma small_share:
  assumes "0 \<le> x" "x \<le> 49 / 10000"
  shows "show_fixed2 (f_round x) = ''0.00''"
proof -
  have "rndq x \<le> rndq (of_int 5139 * pow2 (- 20))"
    using assms(2) by (intro rndq_mono) (simp add: pow2_def)
  also have "rndq (of_int 5139 * pow2 (- 20)) \<le> of_int 5139 * pow2 (- 20)"
    by (rule order_eq_refl, rule rndq_exact) (code_simp)
  finally have upper: "rndq x \<le> 5139 / 2 ^ 20" by (simp add: pow2_def)
  have lower: "0 \<le> rndq x" by (rule rndq_nonneg [OF assms(1)])
  have "f_round x = Fin (rndq x)" using assms by (intro f_round_small) simp_all
  moreover have "round_even (rndq x * 100) = 0"
    using lower upper by (intro round_even_eqI) simp_all
  ultimately show ?thesis using lower by (simp add: show_fixed2_def show_nat_eval)
qed

text \<open>A CPU quota below half a percent becomes \<open>--cpus 0.00\<close>: the share is printed with two digits, and a zero is
  what the runtime takes for no limit.\<close>

theorem small_quota_is_printed_as_zero:
  assumes "rc_cpu_quota_percent (dc_resources c) = Fin q" "0 < q" "q \<le> 49 / 100"
  shows "\<exists>before after. p_container_run_args a c = before @ [''--cpus'', ''0.00''] @ after"
proof -
  have "show_fixed2 (f_div (Fin q) (Fin 100)) = ''0.00''"
    using small_share [of "q / 100"] assms by simp
  moreover have "partial_quota (Fin q)" using assms by (simp add: partial_quota_def)
  ultimately show ?thesis
    unfolding p_container_run_args_def Let_def assms(1)
    by (intro exI [of _ "[''run'', ''-d'', ''--name'', p_container_name (dc_name c)]
         @ (if 0 < rc_memory_bytes (dc_resources c)
            then [''--memory'', show_word (rc_memory_bytes (dc_resources c)) @ ''b''] else [])"] exI) simp
qed

theorem small_quota_is_printed_as_zero_witness:
  "\<exists>before after. p_container_run_args p_container_new
      (config_new ''d'' ''/bin/d''\<lparr>dc_resources := resource_default\<lparr>rc_cpu_quota_percent := Fin (1 / 4)\<rparr>\<rparr>)
    = before @ [''--cpus'', ''0.00''] @ after"
  by (rule small_quota_is_printed_as_zero [of _ "1 / 4"]) simp_all

end
