(* ===== verification/Platform_Pepita.thy ===== *)
theory Platform_Pepita
  imports Platform_Linux
begin

text \<open>
  The pepita adapter of the platform crate, \<open>crates/duende-platform/src/pepita.rs\<close>: the arguments of \<open>pepita run\<close>, the
  reading of its status and info, and the methods. \<open>NEXT_CID\<close>, a static of the program, is part of the adapter state.
\<close>

record p_pepita_adapter =
  pv_pepita_path :: string
  pv_default_vcpus :: u32
  pv_default_memory_mb :: u64
  pv_kernel_path :: "string option"
  pv_rootfs_path :: "string option"
  pv_vsock_port :: u32
  pv_next_cid :: u32

type_synonym ('a, 'w) p_pepita_action = "('a, p_pepita_adapter, 'w) p_action"

definition p_pepita_with_binary :: "string \<Rightarrow> u32 \<Rightarrow> p_pepita_adapter" where
  "p_pepita_with_binary path next_cid =
     \<lparr>pv_pepita_path = path, pv_default_vcpus = 1, pv_default_memory_mb = 512, pv_kernel_path = None,
      pv_rootfs_path = None, pv_vsock_port = 5000, pv_next_cid = next_cid\<rparr>"

definition p_pepita_new :: "u32 \<Rightarrow> p_pepita_adapter" where
  "p_pepita_new next_cid =
     \<lparr>pv_pepita_path = ''pepita'', pv_default_vcpus = 1, pv_default_memory_mb = 512, pv_kernel_path = None,
      pv_rootfs_path = None, pv_vsock_port = 5000, pv_next_cid = next_cid\<rparr>"

definition p_pepita_with_vcpus :: "u32 \<Rightarrow> p_pepita_adapter \<Rightarrow> p_pepita_adapter" where
  "p_pepita_with_vcpus vcpus a = a\<lparr>pv_default_vcpus := vcpus\<rparr>"

definition p_pepita_with_memory_mb :: "u64 \<Rightarrow> p_pepita_adapter \<Rightarrow> p_pepita_adapter" where
  "p_pepita_with_memory_mb memory_mb a = a\<lparr>pv_default_memory_mb := memory_mb\<rparr>"

definition p_pepita_with_kernel :: "string \<Rightarrow> p_pepita_adapter \<Rightarrow> p_pepita_adapter" where
  "p_pepita_with_kernel kpath a = a\<lparr>pv_kernel_path := Some kpath\<rparr>"

definition p_pepita_with_rootfs :: "string \<Rightarrow> p_pepita_adapter \<Rightarrow> p_pepita_adapter" where
  "p_pepita_with_rootfs rootfs a = a\<lparr>pv_rootfs_path := Some rootfs\<rparr>"

definition p_pepita_with_vsock_port :: "u32 \<Rightarrow> p_pepita_adapter \<Rightarrow> p_pepita_adapter" where
  "p_pepita_with_vsock_port port a = a\<lparr>pv_vsock_port := port\<rparr>"

definition p_pepita_allocate_cid :: "(u32, 'w) p_pepita_action" where
  "p_pepita_allocate_cid w = (Ok (pv_next_cid (adapter w)),
     w\<lparr>adapter := (adapter w)\<lparr>pv_next_cid := pv_next_cid (adapter w) + 1\<rparr>\<rparr>)"

definition p_vm_name :: "string \<Rightarrow> string" where
  "p_vm_name daemon_name = ''duende-vm-'' @ replace_char (CHR '' '') ''-'' daemon_name"

fun f_ceil :: "f64 \<Rightarrow> f64" where
  "f_ceil (Fin x) = Fin (of_int \<lceil>x\<rceil>)"
| "f_ceil x = x"

definition p_pepita_vcpus :: "p_pepita_adapter \<Rightarrow> f64 \<Rightarrow> u32" where
  "p_pepita_vcpus a quota =
     (if f_gt quota (Fin 0) then max (f_to_u32 (f_ceil (f_div quota (Fin 100)))) 1 else pv_default_vcpus a)"

definition p_pepita_memory_mb :: "p_pepita_adapter \<Rightarrow> u64 \<Rightarrow> u64" where
  "p_pepita_memory_mb a memory_bytes =
     (if 0 < memory_bytes then memory_bytes div (1024 * 1024) else pv_default_memory_mb a)"

definition p_pepita_run_args :: "p_pepita_adapter \<Rightarrow> daemon_config \<Rightarrow> u32 \<Rightarrow> string list" where
  "p_pepita_run_args a c cid =
     [''run'', ''--name'', p_vm_name (dc_name c),
      ''--vcpus'', show_word (p_pepita_vcpus a (rc_cpu_quota_percent (dc_resources c))),
      ''--memory'', show_word (p_pepita_memory_mb a (rc_memory_bytes (dc_resources c))) @ ''M'']
     @ (case pv_kernel_path a of Some k \<Rightarrow> [''--kernel'', k] | None \<Rightarrow> [])
     @ (case pv_rootfs_path a of Some r \<Rightarrow> [''--rootfs'', r] | None \<Rightarrow> [])
     @ [''--vsock'', ''cid='' @ show_word cid @ '',port='' @ show_word (pv_vsock_port a),
        ''--exec'', dc_binary_path c]
     @ dc_args c"

definition p_pepita_parse_status :: "string \<Rightarrow> daemon_status" where
  "p_pepita_parse_status output =
     (let output_lower = to_lowercase output in
      if contains ''running'' output_lower then Running
      else if contains ''stopped'' output_lower \<or> contains ''shutdown'' output_lower then Stopped
      else if contains ''crashed'' output_lower \<or> contains ''failed'' output_lower then Failed (FExitCode 1)
      else if contains ''booting'' output_lower \<or> contains ''starting'' output_lower then Starting
      else if contains ''pausing'' output_lower \<or> contains ''stopping'' output_lower then Stopping
      else Created)"

fun p_vm_signal_name :: "signal \<Rightarrow> string" where
  "p_vm_signal_name Term = ''TERM''"
| "p_vm_signal_name Kill = ''KILL''"
| "p_vm_signal_name Hup = ''HUP''"
| "p_vm_signal_name Int' = ''INT''"
| "p_vm_signal_name Quit = ''QUIT''"
| "p_vm_signal_name Usr1 = ''USR1''"
| "p_vm_signal_name Usr2 = ''USR2''"
| "p_vm_signal_name Stop = ''STOP''"
| "p_vm_signal_name Cont = ''CONT''"

section \<open>Methods\<close>

definition p_pepita_spawn :: "'w exec \<Rightarrow> string \<Rightarrow> (p_handle, 'w) p_pepita_action" where
  "p_pepita_spawn exec daemon_name =
     (let config = config_new daemon_name ''/bin/daemon'' in
      act_bind p_pepita_allocate_cid (\<lambda>cid.
      act_bind (read_adapter id) (\<lambda>a.
      act_bind (checked_command exec (pv_pepita_path a # p_pepita_run_args a config cid)
        (\<lambda>e. SpawnP (''pepita run failed: '' @ e)) (\<lambda>stderr. SpawnP (''pepita run failed: '' @ stderr))) (\<lambda>out.
      let vm_id = trim (out_stdout out) in
      act_return (p_handle_pepita (if vm_id = [] then p_vm_name daemon_name else vm_id))))))"

definition p_pepita_signal :: "'w exec \<Rightarrow> p_handle \<Rightarrow> signal \<Rightarrow> (unit, 'w) p_pepita_action" where
  "p_pepita_signal exec h sig =
     act_bind (on_platform PepitaMicroVM h (SignalP ''not a pepita handle'')) (\<lambda>_.
     act_bind (read_adapter pv_pepita_path) (\<lambda>path.
     act_bind (checked_command exec [path, ''signal'', ''--vm'', ph_id h, ''--signal'', p_vm_signal_name sig]
       (\<lambda>e. SignalP (''pepita signal failed: '' @ e)) (\<lambda>stderr. SignalP (''pepita signal failed: '' @ stderr)))
       (\<lambda>_. act_return ())))"

definition p_pepita_status :: "'w exec \<Rightarrow> p_handle \<Rightarrow> (daemon_status, 'w) p_pepita_action" where
  "p_pepita_status exec h =
     act_bind (on_platform PepitaMicroVM h (StatusP ''not a pepita handle'')) (\<lambda>_.
     act_bind (read_adapter pv_pepita_path) (\<lambda>path.
     act_bind (command exec [path, ''status'', ''--vm'', ph_id h]
       (\<lambda>e. StatusP (''pepita status failed: '' @ e))) (\<lambda>out.
     if \<not> out_success out then act_return Stopped
     else act_return (p_pepita_parse_status (out_stdout out)))))"

definition cid_of_line :: "string \<Rightarrow> u32 option" where
  "cid_of_line line =
     (if contains ''\"cid\":'' line then
        (let parts = split_char (CHR '':'') line in
         if 1 < length parts
         then parse_u32 (trim_matches (\<lambda>c. c = CHR ''\"'' \<or> c = CHR '','') (trim (parts ! 1))) else None)
      else None)"

definition cid_of_info :: "string \<Rightarrow> u32" where
  "cid_of_info stdout = (case find_map cid_of_line (lines stdout) of Some cid \<Rightarrow> cid | None \<Rightarrow> 3)"

definition p_pepita_attach_tracer :: "'w exec \<Rightarrow> p_handle \<Rightarrow> (p_tracer_handle, 'w) p_pepita_action" where
  "p_pepita_attach_tracer exec h =
     act_bind (on_platform PepitaMicroVM h (TracerP ''not a pepita handle'')) (\<lambda>_.
     act_bind (read_adapter id) (\<lambda>a.
     act_bind (command exec [pv_pepita_path a, ''info'', ''--vm'', ph_id h, ''--format'', ''json'']
       (\<lambda>e. TracerP (''failed to get VM info: '' @ e))) (\<lambda>out.
     if \<not> out_success out then act_fail (TracerP ''VM not running'')
     else act_return \<lparr>pt_platform = PepitaMicroVM,
       pt_id = ''vsock:'' @ show_word (cid_of_info (out_stdout out)) @ '':'' @ show_word (pv_vsock_port a)\<rparr>)))"

lemma forward_p_pepita: "forward (p_pepita_signal exec h sig)" "forward (p_pepita_status exec h)"
  unfolding p_pepita_signal_def p_pepita_status_def by (intro clock_intro)+

interpretation p_pepita: clocked "p_pepita_signal exec" "p_pepita_status exec"
  by unfold_locales (simp_all add: forwardD forward_p_pepita)

section \<open>Properties\<close>

lemma digits_no: "\<not> is_digit c \<Longrightarrow> c \<notin> set (show_nat n)"
  using show_nat_digits [of n] by (auto simp: list_all_iff)

lemma parse_unsigned_bad:
  assumes "c \<in> set (tl s)" "\<not> is_digit c"
  shows "parse_unsigned w s = None"
proof (cases s)
  case (Cons d ds)
  with assms have "\<not> list_all is_digit ds" by (auto simp: list_all_iff)
  with Cons show ?thesis by (simp add: parse_unsigned_def parse_digits_def)
qed (use assms in simp)

definition key_text :: "string \<Rightarrow> bool" where
  "key_text key \<longleftrightarrow> key \<noteq> [] \<and> line_text key \<and> list_all (\<lambda>c. c \<noteq> CHR '':'' \<and> c \<noteq> CHR '','' \<and> c \<noteq> CHR ''\"'') key"

lemma trimmed_value:
  assumes "key_text key"
  shows "trim_matches (\<lambda>c. c = CHR ''\"'' \<or> c = CHR '','') (trim (show_nat n @ '',\"'' @ key @ ''\"''))
    = show_nat n @ '',\"'' @ key"
proof -
  let ?p = "\<lambda>c. c = CHR ''\"'' \<or> c = CHR '',''"
  have "trim (show_nat n @ '',\"'' @ key @ ''\"'') = show_nat n @ '',\"'' @ key @ ''\"''"
    using trim_eq [of "[]" "show_nat n @ '',\"'' @ key @ ''\"''"] show_nat_graphic(1) [of n]
    by (simp add: graphic_def)
  moreover have "\<not> ?p (hd (show_nat n))"
  proof -
    have "hd (show_nat n) \<in> set (show_nat n)" by simp
    moreover have "CHR ''\"'' \<notin> set (show_nat n)" "CHR '','' \<notin> set (show_nat n)"
      by (rule digits_no, simp add: is_digit_def)+
    ultimately show ?thesis by metis
  qed
  then have "dropWhile ?p (show_nat n @ t) = show_nat n @ t" for t
    by (cases "show_nat n") auto
  moreover have "\<not> ?p (last key)" using assms by (auto simp: key_text_def list_all_iff)
  then have "dropWhile ?p (rev (show_nat n @ '',\"'' @ key)) = rev (show_nat n @ '',\"'' @ key)"
    using assms by (cases key rule: rev_cases) (auto simp: key_text_def)
  ultimately show ?thesis by (simp add: trim_matches_def trim_end_matches_def)
qed

text \<open>On JSON in one line, where another key follows the context id, the id is not found: the text between the
  colons is not a number. The tracer is then attached to context id 3, the default, whatever the id was.\<close>

theorem compact_info_loses_cid:
  assumes "key_text key" "line_text rest"
  shows "cid_of_info (''{\"cid\":'' @ show_nat n @ '',\"'' @ key @ ''\":'' @ rest) = 3"
proof -
  let ?mid = "show_nat n @ '',\"'' @ key @ ''\"''"
  let ?line = "''{\"cid\"'' @ CHR '':'' # ?mid @ CHR '':'' # rest"
  have "line_text ?line" using assms by (simp add: line_text_Cons key_text_def)
  then have "lines ?line = [?line]"
    by (intro lines_single) (auto simp: line_text_def list_all_iff)
  moreover have "CHR '':'' \<notin> set ?mid"
    using assms(1) digits_no [of "CHR '':''" n] by (auto simp: key_text_def list_all_iff is_digit_def)
  then have "split_char (CHR '':'') ?line = [''{\"cid\"'', ?mid] @ split_char (CHR '':'') rest"
    by (subst split_char_append, simp, subst split_char_append) simp_all
  moreover have "parse_unsigned 32 (show_nat n @ '',\"'' @ key) = None"
  proof (rule parse_unsigned_bad [where c = "CHR '',''"])
    show "CHR '','' \<in> set (tl (show_nat n @ '',\"'' @ key))" by (cases "show_nat n") auto
  qed (simp add: is_digit_def)
  ultimately have "find_map cid_of_line (lines ?line) = None"
    using trimmed_value [OF assms(1), of n] by (simp add: cid_of_line_def Let_def)
  then show ?thesis by (simp add: cid_of_info_def)
qed

theorem compact_info_loses_cid_witness:
  "cid_of_info ''{\"cid\":7,\"port\":5000}'' = 3"
  using compact_info_loses_cid [of "''port''" "''5000}''" 7]
  by (simp add: key_text_def line_text_Cons show_nat_eval)

end
