(* ===== verification/Platform_Macos.thy ===== *)
theory Platform_Macos
  imports Platform_Linux
begin

text \<open>
  The launchd adapter of the platform crate, \<open>crates/duende-platform/src/macos.rs\<close>: the property list made of a
  configuration, the reading of \<open>launchctl list\<close>, and the methods. \<open>home\<close> is the environment variable.
\<close>

record p_mac_adapter =
  pm_daemons_dir :: string
  pm_user_agent :: bool

definition p_mac_new :: p_mac_adapter where
  "p_mac_new = \<lparr>pm_daemons_dir = ''/Library/LaunchDaemons'', pm_user_agent = False\<rparr>"

definition p_mac_user_agent :: "string option \<Rightarrow> p_mac_adapter" where
  "p_mac_user_agent home =
     \<lparr>pm_daemons_dir = (case home of Some h \<Rightarrow> h | None \<Rightarrow> ''/tmp'') @ ''/Library/LaunchAgents'', pm_user_agent = True\<rparr>"

definition p_mac_with_daemons_dir :: "string \<Rightarrow> p_mac_adapter" where
  "p_mac_with_daemons_dir dir = \<lparr>pm_daemons_dir = dir, pm_user_agent = False\<rparr>"

definition p_service_label :: "string \<Rightarrow> string" where
  "p_service_label daemon_name = ''com.duende.'' @ replace_char (CHR '' '') ''-'' daemon_name"

definition p_plist_filename :: "string \<Rightarrow> string" where
  "p_plist_filename daemon_name = p_service_label daemon_name @ ''.plist''"

section \<open>Property lists\<close>

definition element :: "string \<Rightarrow> string \<Rightarrow> string \<Rightarrow> string" where
  "element indent tag text =
     text_line (indent @ ''<'' @ tag @ ''>'' @ text @ ''</'' @ tag @ ''>'')"

definition outer_key :: "string \<Rightarrow> string" where
  "outer_key key = element ''    '' ''key'' key"

definition outer_string :: "string \<Rightarrow> string \<Rightarrow> string" where
  "outer_string key text = outer_key key @ element ''    '' ''string'' text"

definition inner_string :: "string \<Rightarrow> string" where
  "inner_string text = element ''        '' ''string'' text"

definition inner_integer :: "string \<Rightarrow> u64 \<Rightarrow> string" where
  "inner_integer key n =
     (if 0 < n then element ''        '' ''key'' key @ element ''        '' ''integer'' (show_word n) else [])"

definition generate_plist :: "p_mac_adapter \<Rightarrow> daemon_config \<Rightarrow> string" where
  "generate_plist a c =
     (let label = p_service_label (dc_name c); r = dc_resources c in
      text_line ''<?xml version=\"1.0\" encoding=\"UTF-8\"?>''
      @ text_line (''<!DOCTYPE plist PUBLIC \"-//Apple//DTD PLIST 1.0//EN\" ''
          @ ''\"http://www.apple.com/DTDs/PropertyList-1.0.dtd\">'')
      @ text_line ''<plist version=\"1.0\">''
      @ text_line ''<dict>''
      @ outer_string ''Label'' label
      @ outer_key ''ProgramArguments''
      @ text_line ''    <array>''
      @ inner_string (dc_binary_path c)
      @ concat (map inner_string (dc_args c))
      @ text_line ''    </array>''
      @ (case dc_working_dir c of Some d \<Rightarrow> outer_string ''WorkingDirectory'' d | None \<Rightarrow> [])
      @ (if \<not> pm_user_agent a then
           (case dc_user c of Some u \<Rightarrow> outer_string ''UserName'' u | None \<Rightarrow> [])
           @ (case dc_group c of Some g \<Rightarrow> outer_string ''GroupName'' g | None \<Rightarrow> [])
         else [])
      @ (if dc_env c \<noteq> [] then
           outer_key ''EnvironmentVariables''
           @ text_line ''    <dict>''
           @ concat (map (\<lambda>(key, v). element ''        '' ''key'' key @ inner_string v) (dc_env c))
           @ text_line ''    </dict>''
         else [])
      @ outer_key ''KeepAlive''
      @ text_line (if dc_restart c \<noteq> Never then ''    <true/>'' else ''    <false/>'')
      @ outer_key ''RunAtLoad''
      @ text_line ''    <true/>''
      @ outer_string ''StandardOutPath'' (''/var/log/'' @ label @ ''.log'')
      @ outer_string ''StandardErrorPath'' (''/var/log/'' @ label @ ''.error.log'')
      @ (if 0 < rc_memory_bytes r \<or> 0 < rc_open_files_max r then
           outer_key ''SoftResourceLimits''
           @ text_line ''    <dict>''
           @ inner_integer ''MemoryLock'' (rc_memory_bytes r)
           @ inner_integer ''NumberOfFiles'' (rc_open_files_max r)
           @ text_line ''    </dict>''
         else [])
      @ text_line ''</dict>''
      @ text_line ''</plist>'')"

text \<open>Texts are put into the property list as they are, so it does not determine the configuration: one
  argument with the closing and opening tags in it gives the same list as two arguments.\<close>

theorem plist_confuses_arguments:
  "generate_plist a (c\<lparr>dc_args := [x @ ''</string>'' @ [byte 10] @ ''        <string>'' @ y]\<rparr>)
   = generate_plist a (c\<lparr>dc_args := [x, y]\<rparr>)"
  by (simp add: generate_plist_def Let_def inner_string_def element_def text_line_def)

section \<open>Statuses and signals\<close>

text \<open>\<open>FailureReason::ExitCode(status.parse().unwrap_or(1))\<close>\<close>

definition listed_status :: "string \<Rightarrow> string \<Rightarrow> daemon_status option" where
  "listed_status label line =
     (let parts = split_char (CHR 0x09) line in
      if 3 \<le> length parts \<and> parts ! 2 = label then
        (if trim (parts ! 0) = ''-'' then
           (if trim (parts ! 1) = ''0'' then Some Stopped
            else Some (Failed (FExitCode (case parse_i32 (trim (parts ! 1)) of Some n \<Rightarrow> n | None \<Rightarrow> 1))))
         else Some Running)
      else None)"

definition p_mac_parse_status :: "string \<Rightarrow> string \<Rightarrow> daemon_status" where
  "p_mac_parse_status output label =
     (case find_map (listed_status label) (lines output) of Some st \<Rightarrow> st | None \<Rightarrow> Created)"

fun p_mac_signal_number :: "signal \<Rightarrow> i32" where
  "p_mac_signal_number Term = 15"
| "p_mac_signal_number Kill = 9"
| "p_mac_signal_number Hup = 1"
| "p_mac_signal_number Int' = 2"
| "p_mac_signal_number Quit = 3"
| "p_mac_signal_number Usr1 = 30"
| "p_mac_signal_number Usr2 = 31"
| "p_mac_signal_number Stop = 17"
| "p_mac_signal_number Cont = 19"

definition pid_of_line :: "string \<Rightarrow> i32 option" where
  "pid_of_line line =
     (if contains ''\"PID\"'' line then
        (let parts = split_char (CHR ''='') line in
         if 1 < length parts then parse_i32 (trim_end_matches (\<lambda>c. c = CHR '';'') (trim (parts ! 1))) else None)
      else None)"

definition listed_pid :: "string \<Rightarrow> i32 option" where
  "listed_pid stdout = find_map pid_of_line (lines stdout)"

section \<open>Methods\<close>

definition p_mac_spawn :: "p_mac_adapter \<Rightarrow> 'w file_writer \<Rightarrow> 'w exec \<Rightarrow> string \<Rightarrow> (p_handle, 's, 'w) p_action" where
  "p_mac_spawn a write_file exec daemon_name =
     (let config = config_new daemon_name ''/bin/false''; label = p_service_label daemon_name;
          plist_path = path_join (pm_daemons_dir a) (p_plist_filename daemon_name) in
      act_bind (os_call (write_file plist_path (generate_plist a config))
        (\<lambda>e. SpawnP (''failed to write plist: '' @ e))) (\<lambda>_.
      act_bind (checked_command exec [''launchctl'', ''load'', ''-w'', plist_path]
        (\<lambda>e. SpawnP (''launchctl load failed: '' @ e)) (\<lambda>stderr. SpawnP (''launchctl load failed: '' @ stderr))) (\<lambda>_.
      act_return (p_handle_launchd label))))"

definition p_mac_signal :: "'w exec \<Rightarrow> p_handle \<Rightarrow> signal \<Rightarrow> (unit, 's, 'w) p_action" where
  "p_mac_signal exec h sig =
     act_bind (on_platform MacOS h (SignalP ''not a launchd handle'')) (\<lambda>_.
     act_bind (command exec [''launchctl'', ''list'', ph_id h]
       (\<lambda>e. SignalP (''launchctl list failed: '' @ e))) (\<lambda>out.
     act_bind (require (listed_pid (out_stdout out)) (SignalP ''service not running'')) (\<lambda>pid.
     act_bind (checked_command exec [''kill'', ''-'' @ show_i32 (p_mac_signal_number sig), show_i32 pid]
       (\<lambda>e. SignalP (''kill failed: '' @ e)) (\<lambda>stderr. SignalP (''kill failed: '' @ stderr)))
       (\<lambda>_. act_return ()))))"

definition p_mac_status :: "'w exec \<Rightarrow> p_handle \<Rightarrow> (daemon_status, 's, 'w) p_action" where
  "p_mac_status exec h =
     act_bind (on_platform MacOS h (StatusP ''not a launchd handle'')) (\<lambda>_.
     act_bind (command exec [''launchctl'', ''list'']
       (\<lambda>e. StatusP (''launchctl list failed: '' @ e))) (\<lambda>out.
     act_return (p_mac_parse_status (out_stdout out) (ph_id h))))"

definition p_mac_attach_tracer :: "'w exec \<Rightarrow> p_handle \<Rightarrow> (p_tracer_handle, 's, 'w) p_action" where
  "p_mac_attach_tracer exec h =
     act_bind (on_platform MacOS h (TracerP ''not a launchd handle'')) (\<lambda>_.
     act_bind (command exec [''launchctl'', ''list'', ph_id h]
       (\<lambda>e. TracerP (''launchctl list failed: '' @ e))) (\<lambda>out.
     act_bind (require (listed_pid (out_stdout out)) (TracerP ''service not running'')) (\<lambda>pid.
     act_return \<lparr>pt_platform = MacOS, pt_id = ''ptrace:'' @ show_i32 pid\<rparr>)))"

lemma forward_p_mac: "forward (p_mac_signal exec h sig)" "forward (p_mac_status exec h)"
  unfolding p_mac_signal_def p_mac_status_def by (intro clock_intro)+

interpretation p_mac: clocked "p_mac_signal exec" "p_mac_status exec"
  by unfold_locales (simp_all add: forwardD forward_p_mac)

section \<open>Reading the list back\<close>

text \<open>A row of \<open>launchctl list\<close>: the process id or a dash, the last exit status, the label.\<close>

type_synonym service_row = "u32 option \<times> i32 \<times> string"

fun row_text :: "service_row \<Rightarrow> string" where
  "row_text (pid, code, label) =
     (case pid of Some p \<Rightarrow> show_word p | None \<Rightarrow> ''-'') @ [CHR 0x09] @ show_i32 code @ [CHR 0x09] @ label"

fun row_status :: "service_row \<Rightarrow> daemon_status" where
  "row_status (pid, code, label) =
     (case pid of Some _ \<Rightarrow> Running | None \<Rightarrow> if code = 0 then Stopped else Failed (FExitCode code))"

definition row_ok :: "service_row \<Rightarrow> bool" where
  "row_ok r \<longleftrightarrow> line_text (snd (snd r)) \<and> CHR 0x09 \<notin> set (snd (snd r))"

lemma show_int_graphic: "graphic (hd (show_int i))" "graphic (last (show_int i))"
  using show_nat_graphic by (simp_all add: show_int_def graphic_def)

lemma show_int_nonempty: "show_int i \<noteq> []"
  by (simp add: show_int_def)

lemma show_int_no_tab: "CHR 0x09 \<notin> set (show_int i)"
proof -
  have "CHR 0x09 \<notin> set (show_nat n)" for n
    using show_nat_digits [of n] by (auto simp: list_all_iff is_digit_def)
  then show ?thesis by (simp add: show_int_def)
qed

lemma show_int_trim: "trim (show_int i) = show_int i"
  using trim_eq [of "[]" "show_int i"] show_int_graphic [of i] show_int_nonempty [of i] by simp

lemma show_int_line: "line_text (show_int i)"
  by (simp add: show_int_def line_text_Cons)

lemma show_i32_zero: "show_i32 code = ''0'' \<longleftrightarrow> code = 0"
proof
  assume "show_i32 code = ''0''"
  also have "''0'' = show_i32 0" by (simp add: show_int_def show_nat_eval)
  finally show "code = 0" using parse_i32_show by (metis option.inject)
qed (simp add: show_int_def show_nat_eval)

lemma show_nat_as_int: "show_nat n = show_int (int n)"
  by (simp add: show_int_def)

lemma listed_status_row:
  assumes "row_ok (pid, code, l)"
  shows "listed_status label (row_text (pid, code, l)) = (if l = label then Some (row_status (pid, code, l)) else None)"
proof -
  define first where "first = (case pid of Some p \<Rightarrow> show_word p | None \<Rightarrow> ''-'')"
  have first: "CHR 0x09 \<notin> set first" "trim first = first" "first = ''-'' \<longleftrightarrow> pid = None"
  proof -
    show "CHR 0x09 \<notin> set first"
      using show_int_no_tab by (simp add: first_def show_nat_as_int split: option.split)
    show "trim first = first"
      using show_int_trim trim_eq [of "[]" "''-''"] by (simp add: first_def show_nat_as_int graphic_def split: option.split)
    have "show_nat n \<noteq> ''-''" for n
      using show_nat_digits [of n] by (auto simp: is_digit_def)
    then show "first = ''-'' \<longleftrightarrow> pid = None" by (simp add: first_def split: option.split)
  qed
  have "split_char (CHR 0x09) (row_text (pid, code, l)) = [first, show_i32 code, l]"
    using assms first(1) show_int_no_tab
    by (simp add: row_ok_def split_char_append split_char_notin flip: first_def)
  with first parse_i32_show [of code] show ?thesis
    by (simp add: listed_status_def Let_def show_int_trim show_i32_zero split: option.split)
qed

lemma row_text_line: "row_ok r \<Longrightarrow> line_text (row_text r)"
  by (cases r) (auto simp: row_ok_def line_text_Cons show_int_line split: option.split)

text \<open>What \<open>launchctl list\<close> prints is read back: the status of a service is that of the first row with exactly its
  label, a process id means running, and without one the exit status tells a stop from a failure; a service
  that is not listed has only been created.\<close>

theorem service_list_read_back:
  assumes "list_all row_ok rows"
  shows "p_mac_parse_status (unlines (map row_text rows)) label =
    (case find (\<lambda>r. snd (snd r) = label) rows of Some r \<Rightarrow> row_status r | None \<Rightarrow> Created)"
proof -
  have "list_all line_text (map row_text rows)"
    using assms row_text_line by (auto simp: list_all_iff)
  then have "lines (unlines (map row_text rows)) = map row_text rows" by (rule lines_unlines)
  moreover have "find_map (listed_status label) (map row_text rows)
      = map_option row_status (find (\<lambda>r. snd (snd r) = label) rows)"
    using assms
  proof (induction rows)
    case (Cons r rows)
    then show ?case using listed_status_row [of "fst r" "fst (snd r)" "snd (snd r)" label]
      by (cases r) (simp del: row_text.simps row_status.simps)
  qed simp
  ultimately show ?thesis by (simp add: p_mac_parse_status_def split: option.split)
qed

theorem service_list_read_back_witness:
  "p_mac_parse_status (unlines (map row_text [(Some 7, 0, ''com.duende.web2''), (None, - 9, ''com.duende.web'')]))
     ''com.duende.web'' = Failed (FExitCode (- 9))"
proof -
  have "list_all row_ok [(Some 7, 0, ''com.duende.web2''), (None, - 9, ''com.duende.web'')]"
    by (simp add: row_ok_def line_text_Cons)
  from service_list_read_back [OF this, of "''com.duende.web''"] show ?thesis by simp
qed

end
