(* ===== verification/Platform_Memory.thy ===== *)
theory Platform_Memory
  imports Platform_Adapter Core_Config Mlock
begin

text \<open>
  Memory locking in the platform crate, \<open>crates/duende-platform/src/memory.rs\<close> (the Linux code): the same kernel
  call as in \<open>Mlock\<close>, with errors as texts, and what a daemon's configuration makes of it. The kernel and
  \<open>/proc/self/status\<close> are arguments, as there.
\<close>

datatype mlock_result = MLSuccess | MLDisabled | MLFailed i32

definition mlock_message :: "i32 \<Rightarrow> string" where
  "mlock_message errno =
     (if errno = 12 then ''insufficient memory or resource limits (check RLIMIT_MEMLOCK)''
      else if errno = 1 then ''insufficient privileges (need CAP_IPC_LOCK or root)''
      else if errno = 22 then ''invalid flags''
      else ''unknown error'')"

definition mlock_refused :: "i32 \<Rightarrow> p_error" where
  "mlock_refused errno =
     ResourceP (''mlockall() failed: '' @ mlock_message errno @ '' (errno='' @ show_i32 errno @ ''). ''
       @ ''Cannot safely run as swap device without mlock(). ''
       @ ''Either run as root, add CAP_IPC_LOCK, or set lock_memory_required=false'')"

definition lock_daemon_memory :: "(i32 \<Rightarrow> 'w lock_call) \<Rightarrow> bool \<Rightarrow> 'w \<Rightarrow> (p_error, mlock_result) outcome \<times> 'w" where
  "lock_daemon_memory mlockall required w =
     (case mlockall (1 OR 2) w of
        (None, w') \<Rightarrow> (Ok MLSuccess, w')
      | (Some errno, w') \<Rightarrow> (if required then Err (mlock_refused errno) else Ok (MLFailed errno), w'))"

definition lock_daemon_memory_elsewhere :: "bool \<Rightarrow> (p_error, mlock_result) outcome" where
  "lock_daemon_memory_elsewhere required = Ok MLDisabled"

definition vm_lck_kb :: "string \<Rightarrow> u64 option" where
  "vm_lck_kb line =
     (if prefix ''VmLck:'' line then
        (let parts = split_whitespace line in if 2 \<le> length parts then parse_u64 (parts ! 1) else None)
      else None)"

definition is_memory_locked :: "string option \<Rightarrow> bool" where
  "is_memory_locked proc_status =
     (case proc_status of
        Some text \<Rightarrow> (case find_map vm_lck_kb (lines text) of Some kb \<Rightarrow> 0 < kb | None \<Rightarrow> False)
      | None \<Rightarrow> False)"

definition unlock_daemon_memory :: "'w lock_call \<Rightarrow> 'w \<Rightarrow> (p_error, unit) outcome \<times> 'w" where
  "unlock_daemon_memory munlockall w =
     (case munlockall w of
        (None, w') \<Rightarrow> (Ok (), w')
      | (Some _, w') \<Rightarrow> (Err (ResourceP ''munlockall() failed''), w'))"

definition apply_memory_config :: "(i32 \<Rightarrow> 'w lock_call) \<Rightarrow> resource_config \<Rightarrow> 'w \<Rightarrow> (p_error, unit) outcome \<times> 'w" where
  "apply_memory_config mlockall r w =
     (if rc_lock_memory r then
        (case lock_daemon_memory mlockall (rc_lock_memory_required r) w of
           (res, w') \<Rightarrow> (and_then res (\<lambda>_. Ok ()), w'))
      else (Ok (), w))"

section \<open>The two crates agree\<close>

text \<open>What a result of the locking crate is called here.\<close>

definition as_mlock_result :: "(mlock_error, mlock_status) outcome \<Rightarrow> (p_error, mlock_result) outcome" where
  "as_mlock_result r =
     (case r of
        Ok (Locked _) \<Rightarrow> Ok MLSuccess
      | Ok (FailedLock errno) \<Rightarrow> Ok (MLFailed errno)
      | Ok Unsupported \<Rightarrow> Ok MLDisabled
      | Err e \<Rightarrow> (case mlock_errno e of Some errno \<Rightarrow> Err (mlock_refused errno) | None \<Rightarrow> Panic)
      | Panic \<Rightarrow> Panic)"

definition lock_now_and_later :: "bool \<Rightarrow> mlock_config" where
  "lock_now_and_later required = \<lparr>ml_current = True, ml_future = True, ml_required = required, ml_onfault = False\<rparr>"

lemma locked_bytes_release: "\<exists>n. locked_bytes Release st = Ok n"
proof -
  have "\<exists>n. vm_lck Release ls = Ok n" for ls
    by (induction ls) (auto simp: umul_def split: option.split)
  then show ?thesis by (cases st) (simp_all add: locked_bytes_def)
qed

lemma lock_now_flags: "as_flags (lock_now_and_later required) = 3"
  by (simp add: as_flags_def lock_now_and_later_def)

text \<open>The platform crate locks memory as the locking crate does with the current and future flags: the same request
  of the kernel, success for success, and the same errno, in the status or in the error as locking is
  required or not.\<close>

theorem memory_locking_agrees:
  "lock_daemon_memory mlockall required w =
    (let (r, w') = lock_with_config Release mlockall st (lock_now_and_later required) w in (as_mlock_result r, w'))"
proof -
  obtain res w' where call: "mlockall 3 w = (res, w')" by (cases "mlockall 3 w")
  obtain n where n: "locked_bytes Release (st w') = Ok n" using locked_bytes_release by blast
  have req: "ml_required (lock_now_and_later required) = required" by (simp add: lock_now_and_later_def)
  show ?thesis
    unfolding lock_daemon_memory_def lock_with_config_def Let_def
    using n by (cases res)
      (simp_all add: lock_now_flags call req as_mlock_result_def errno_class.dec_enc)
qed

text \<open>A configuration stops a daemon from starting only when it asks for locked memory, says it is required, and
  the kernel refuses; without \<open>lock_memory\<close> the kernel is not asked.\<close>

theorem memory_config_fails_only_when_required:
  "(fst (apply_memory_config mlockall r w) \<noteq> Ok () \<longleftrightarrow>
      rc_lock_memory r \<and> rc_lock_memory_required r \<and> fst (mlockall (1 OR 2) w) \<noteq> None)
   \<and> snd (apply_memory_config mlockall r w) = (if rc_lock_memory r then snd (mlockall (1 OR 2) w) else w)"
  by (cases "mlockall 3 w"; cases "fst (mlockall 3 w)")
    (simp_all add: apply_memory_config_def lock_daemon_memory_def)

end
