(* ===== verification/Memory_Targets.thy ===== *)
theory Memory_Targets
  imports Platform_Memory Core_Platform
begin

text \<open>
  Memory locking on each target the two crates are built for: \<open>crates/duende-platform/src/memory.rs\<close> has a body for Linux, one
  for macOS and one for the rest; \<open>crates/duende-mlock/src\<close> has \<open>unix.rs\<close>, where some parts are for Linux only,
  and \<open>unsupported.rs\<close>. The two draw the line in different places: \<open>unix.rs\<close> is compiled for every Unix, the bodies of the
  platform crate that lock only for Linux and macOS. \<open>Mlock\<close> and \<open>Platform_Memory\<close> hold the bodies for Linux. The errno
  constants of macOS are those of its \<open>errno.h\<close>, which differ from Linux in \<open>EAGAIN\<close>. \<open>Os_unix\<close> is any other Unix that has
  the flags of Linux, as the BSDs do, with the value of its \<open>EAGAIN\<close>; what is no Unix is \<open>Os_other\<close>.
\<close>

section \<open>The platform crate\<close>

definition mlock_message_macos :: "i32 \<Rightarrow> string" where
  "mlock_message_macos errno =
     (if errno = 12 then ''insufficient memory or resource limits''
      else if errno = 1 then ''insufficient privileges (may need com.apple.security.cs.allow-jit entitlement)''
      else if errno = 22 then ''invalid flags''
      else if errno = 35 then ''system resources temporarily unavailable''
      else ''unknown error'')"

definition mlock_refused_macos :: "i32 \<Rightarrow> p_error" where
  "mlock_refused_macos errno =
     ResourceP (''mlockall() failed on macOS: '' @ mlock_message_macos errno @ '' (errno='' @ show_i32 errno @ '')'')"

definition lock_daemon_memory_macos ::
  "(i32 \<Rightarrow> 'w lock_call) \<Rightarrow> bool \<Rightarrow> 'w \<Rightarrow> (p_error, mlock_result) outcome \<times> 'w" where
  "lock_daemon_memory_macos mlockall required w =
     (case mlockall (1 OR 2) w of
        (None, w') \<Rightarrow> (Ok MLSuccess, w')
      | (Some errno, w') \<Rightarrow> (if required then Err (mlock_refused_macos errno) else Ok (MLFailed errno), w'))"

definition lock_daemon_memory_on ::
  "target_os \<Rightarrow> (i32 \<Rightarrow> 'w lock_call) \<Rightarrow> bool \<Rightarrow> 'w \<Rightarrow> (p_error, mlock_result) outcome \<times> 'w" where
  "lock_daemon_memory_on target mlockall required w =
     (case target of
        Os_linux \<Rightarrow> lock_daemon_memory mlockall required w
      | Os_macos \<Rightarrow> lock_daemon_memory_macos mlockall required w
      | _ \<Rightarrow> (lock_daemon_memory_elsewhere required, w))"

definition is_memory_locked_elsewhere :: bool where
  "is_memory_locked_elsewhere = False"

definition is_memory_locked_on :: "target_os \<Rightarrow> string option \<Rightarrow> bool" where
  "is_memory_locked_on target proc_status =
     (if target = Os_linux then is_memory_locked proc_status else is_memory_locked_elsewhere)"

definition unlock_daemon_memory_elsewhere :: "(p_error, unit) outcome" where
  "unlock_daemon_memory_elsewhere = Ok ()"

definition unlock_daemon_memory_on :: "target_os \<Rightarrow> 'w lock_call \<Rightarrow> 'w \<Rightarrow> (p_error, unit) outcome \<times> 'w" where
  "unlock_daemon_memory_on target munlockall w =
     (if target = Os_linux \<or> target = Os_macos then unlock_daemon_memory munlockall w
      else (unlock_daemon_memory_elsewhere, w))"

definition apply_memory_config_on ::
  "target_os \<Rightarrow> (i32 \<Rightarrow> 'w lock_call) \<Rightarrow> resource_config \<Rightarrow> 'w \<Rightarrow> (p_error, unit) outcome \<times> 'w" where
  "apply_memory_config_on target mlockall r w =
     (if rc_lock_memory r then
        (case lock_daemon_memory_on target mlockall (rc_lock_memory_required r) w of
           (res, w') \<Rightarrow> (and_then res (\<lambda>_. Ok ()), w'))
      else (Ok (), w))"

section \<open>The locking crate\<close>

text \<open>\<open>onfault\<close> is a flag on Linux only.\<close>

definition as_flags_on :: "target_os \<Rightarrow> mlock_config \<Rightarrow> i32" where
  "as_flags_on target c =
     (let flags = 0;
          flags = (if ml_current c then flags OR 1 else flags);
          flags = (if ml_future c then flags OR 2 else flags)
      in if target = Os_linux \<and> ml_onfault c then flags OR 4 else flags)"

definition would_block :: "target_os \<Rightarrow> i32" where
  "would_block target = (case target of Os_linux \<Rightarrow> 11 | Os_unix eagain \<Rightarrow> eagain | _ \<Rightarrow> 35)"

definition from_errno_on :: "target_os \<Rightarrow> i32 \<Rightarrow> mlock_error" where
  "from_errno_on target e =
     (if e = 1 then MPermissionDenied
      else if e = 12 then MResourceLimit
      else if e = 22 then MInvalidArgument
      else if e = would_block target then MWouldBlock
      else MUnknown e)"

definition mlock_errno_on :: "target_os \<Rightarrow> mlock_error \<Rightarrow> i32 option" where
  "mlock_errno_on target e =
     (case e of MPermissionDenied \<Rightarrow> Some 1 | MResourceLimit \<Rightarrow> Some 12 | MInvalidArgument \<Rightarrow> Some 22
      | MWouldBlock \<Rightarrow> Some (would_block target) | MUnknown n \<Rightarrow> Some n)"

interpretation errno_on: codec "from_errno_on target" "mlock_errno_on target" for target
  by unfold_locales (simp add: from_errno_on_def mlock_errno_on_def)

definition locked_bytes_on :: "target_os \<Rightarrow> build \<Rightarrow> string option \<Rightarrow> (unit, u64) outcome" where
  "locked_bytes_on target bld proc_status = (if target = Os_linux then locked_bytes bld proc_status else Ok 0)"

definition is_locked_on :: "target_os \<Rightarrow> build \<Rightarrow> string option \<Rightarrow> (unit, bool) outcome" where
  "is_locked_on target bld proc_status = (if target = Os_linux then is_locked bld proc_status else Ok False)"

definition unix_lock_with_config ::
  "target_os \<Rightarrow> build \<Rightarrow> (i32 \<Rightarrow> 'w lock_call) \<Rightarrow> ('w \<Rightarrow> string option) \<Rightarrow> mlock_config \<Rightarrow> 'w
   \<Rightarrow> (mlock_error, mlock_status) outcome \<times> 'w" where
  "unix_lock_with_config target bld mlockall proc_status c w =
     (let flags = as_flags_on target c in
      if flags = 0 then (Ok (Locked 0), w)
      else
        (case mlockall flags w of
           (None, w') \<Rightarrow>
             (case locked_bytes_on target bld (proc_status w') of
                Ok n \<Rightarrow> (Ok (Locked n), w')
              | _ \<Rightarrow> (Panic, w'))
         | (Some errno, w') \<Rightarrow>
             (if ml_required c then Err (from_errno_on target errno) else Ok (FailedLock errno), w')))"

definition lock_with_config_on ::
  "target_os \<Rightarrow> build \<Rightarrow> (i32 \<Rightarrow> 'w lock_call) \<Rightarrow> ('w \<Rightarrow> string option) \<Rightarrow> mlock_config \<Rightarrow> 'w
   \<Rightarrow> (mlock_error, mlock_status) outcome \<times> 'w" where
  "lock_with_config_on target bld mlockall proc_status c w =
     (if target = Os_other then (unsupported_lock_with_config c, w)
      else unix_lock_with_config target bld mlockall proc_status c w)"

definition unlock_all_on :: "target_os \<Rightarrow> 'w lock_call \<Rightarrow> 'w \<Rightarrow> (mlock_error, unit) outcome \<times> 'w" where
  "unlock_all_on target munlockall w =
     (if target = Os_other then (Ok (), w)
      else (case munlockall w of
              (None, w') \<Rightarrow> (Ok (), w')
            | (Some errno, w') \<Rightarrow> (Err (from_errno_on target errno), w')))"

lemma linux_target:
  "from_errno_on Os_linux = from_errno" "as_flags_on Os_linux = as_flags"
  "unix_lock_with_config Os_linux = lock_with_config"
proof -
  show errno: "from_errno_on Os_linux = from_errno" by (simp add: fun_eq_iff from_errno_on_def from_errno_def would_block_def)
  show flags: "as_flags_on Os_linux = as_flags" by (simp add: fun_eq_iff as_flags_on_def as_flags_def)
  show "unix_lock_with_config Os_linux = lock_with_config"
    by (intro ext) (simp only: unix_lock_with_config_def lock_with_config_def errno flags locked_bytes_on_def simp_thms if_True)
qed

section \<open>Agreement\<close>

lemma lock_now_flags_on: "as_flags_on target (lock_now_and_later required) = 3"
  by (simp add: as_flags_on_def lock_now_and_later_def)

lemma locked_bytes_on_release: "\<exists>n. locked_bytes_on target Release st = Ok n"
  using locked_bytes_release [of st] by (simp add: locked_bytes_on_def)

lemma unix_lock_now:
  assumes "mlockall 3 w = (res, w')"
  shows "\<exists>n. unix_lock_with_config target Release mlockall st (lock_now_and_later required) w =
    (case res of None \<Rightarrow> Ok (Locked n)
     | Some e \<Rightarrow> if required then Err (from_errno_on target e) else Ok (FailedLock e), w')"
proof -
  obtain n where n: "locked_bytes_on target Release (st w') = Ok n" using locked_bytes_on_release by blast
  have "ml_required (lock_now_and_later required) = required" by (simp add: lock_now_and_later_def)
  with n assms show ?thesis
    by (intro exI [of _ n], cases res) (simp_all add: unix_lock_with_config_def lock_now_flags_on)
qed

text \<open>C27: On Linux and macOS the platform crate locks memory as the locking crate does with the current and future flags:
  the same request of the kernel, a success for a success, and the same errno in the status or in the
  error. On other targets the platform crate asks for nothing and never fails, even when the configuration requires locked memory;
  there the locking crate still locks on any other Unix, and refuses, when locking is required, on what is no Unix.\<close>

theorem memory_locking_on_targets:
  "let (p, wp) = lock_daemon_memory_on target mlockall required w;
       (m, wm) = lock_with_config_on target Release mlockall st (lock_now_and_later required) w
   in case target of
        Os_other \<Rightarrow>
          p = Ok MLDisabled \<and> wp = w \<and> apply_memory_config_on target mlockall r w = (Ok (), w)
          \<and> m = (if required then Err MInvalidArgument else Ok Unsupported) \<and> wm = w
      | Os_unix eagain \<Rightarrow>
          p = Ok MLDisabled \<and> wp = w \<and> apply_memory_config_on target mlockall r w = (Ok (), w)
          \<and> wm = snd (mlockall 3 w) \<and> ((\<exists>n. m = Ok (Locked n)) \<longleftrightarrow> fst (mlockall 3 w) = None)
          \<and> (m = (if required then Err (from_errno_on target errno) else Ok (FailedLock errno))
              \<longleftrightarrow> fst (mlockall 3 w) = Some errno)
      | _ \<Rightarrow>
          wp = wm \<and> wm = snd (mlockall 3 w)
          \<and> (if required
             then (p = Ok MLSuccess \<longleftrightarrow> is_ok m) \<and> (is_ok p \<longleftrightarrow> is_ok m)
               \<and> (m = Err (from_errno_on target errno) \<longleftrightarrow> fst (mlockall 3 w) = Some errno)
             else is_ok p \<and> is_ok m \<and> (p = Ok (MLFailed errno) \<longleftrightarrow> m = Ok (FailedLock errno)))"
proof -
  obtain res w' where call: "mlockall 3 w = (res, w')" by (cases "mlockall 3 w")
  obtain n where m: "unix_lock_with_config target Release mlockall st (lock_now_and_later required) w =
    (case res of None \<Rightarrow> Ok (Locked n)
     | Some e \<Rightarrow> if required then Err (from_errno_on target e) else Ok (FailedLock e), w')"
    using unix_lock_now [where mlockall = mlockall and w = w, OF call] by blast
  have p: "lock_daemon_memory_on target mlockall required w =
      (case res of None \<Rightarrow> Ok MLSuccess
       | Some e \<Rightarrow> if required then Err ((if target = Os_linux then mlock_refused else mlock_refused_macos) e) else Ok (MLFailed e), w')"
    if "target = Os_linux \<or> target = Os_macos"
    using that call by (cases res)
      (auto simp: lock_daemon_memory_on_def lock_daemon_memory_def lock_daemon_memory_macos_def)
  note off = lock_daemon_memory_on_def lock_daemon_memory_elsewhere_def apply_memory_config_on_def
  show ?thesis
  proof (cases target)
    case Os_other
    then show ?thesis
      by (simp add: off lock_with_config_on_def unsupported_lock_with_config_def lock_now_and_later_def)
  next
    case (Os_unix eagain)
    with call m show ?thesis by (cases res) (auto simp: off lock_with_config_on_def errno_on.enc_inject)
  next
    case Os_linux
    with call m p show ?thesis by (cases res) (auto simp: lock_with_config_on_def errno_on.enc_inject)
  next
    case Os_macos
    with call m p show ?thesis by (cases res) (auto simp: lock_with_config_on_def errno_on.enc_inject)
  qed
qed

end
