(* ===== verification/Test_Chaos.thy ===== *)
theory Test_Chaos
  imports Core_Adapter F64
begin

text \<open>
  Chaos injection, \<open>crates/duende-test/src/chaos.rs\<close>: what may be injected, whether injection is on, and the
  draws. A draw is made of the nanoseconds of the system clock, the argument \<open>subsec_nanos\<close>.
\<close>

record chaos_config =
  ch_latency_injection :: "(f64 \<times> duration) option"
  ch_error_injection :: "f64 option"
  ch_packet_loss :: "f64 option"
  ch_memory_pressure :: "f64 option"
  ch_cpu_stress :: "f64 option"
  ch_duration :: "duration option"

definition chaos_default :: chaos_config where
  "chaos_default =
     \<lparr>ch_latency_injection = None, ch_error_injection = None, ch_packet_loss = None, ch_memory_pressure = None,
      ch_cpu_stress = None, ch_duration = None\<rparr>"

definition chaos_latency :: "f64 \<Rightarrow> duration \<Rightarrow> chaos_config" where
  "chaos_latency probability delay = chaos_default\<lparr>ch_latency_injection := Some (probability, delay)\<rparr>"

definition chaos_errors :: "f64 \<Rightarrow> chaos_config" where
  "chaos_errors probability = chaos_default\<lparr>ch_error_injection := Some probability\<rparr>"

definition chaos_comprehensive :: chaos_config where
  "chaos_comprehensive =
     \<lparr>ch_latency_injection = Some (f_lit (1 / 10), from_millis 500), ch_error_injection = Some (f_lit (5 / 100)),
      ch_packet_loss = Some (f_lit (1 / 100)), ch_memory_pressure = Some (f_lit (7 / 10)),
      ch_cpu_stress = Some (f_lit (5 / 10)), ch_duration = Some (from_secs 60)\<rparr>"

record chaos_injector =
  ci_config :: chaos_config
  ci_active :: bool

definition injector_new :: "chaos_config \<Rightarrow> chaos_injector" where
  "injector_new config = \<lparr>ci_config = config, ci_active = False\<rparr>"

definition injector_start :: "chaos_injector \<Rightarrow> chaos_injector" where
  "injector_start i = i\<lparr>ci_active := True\<rparr>"

definition injector_stop :: "chaos_injector \<Rightarrow> chaos_injector" where
  "injector_stop i = i\<lparr>ci_active := False\<rparr>"

definition rand_probability :: "u32 \<Rightarrow> f64 \<Rightarrow> bool" where
  "rand_probability subsec_nanos p \<longleftrightarrow> f_lt (f_div (f_of_word subsec_nanos) (f_of_word (- 1 :: u32))) p"

definition maybe_inject_latency ::
  "'w sleeper \<Rightarrow> u32 \<Rightarrow> chaos_injector \<Rightarrow> ('s, 'w) world \<Rightarrow> ('s, 'w) world" where
  "maybe_inject_latency slp subsec_nanos i w =
     (if \<not> ci_active i then w
      else
        (case ch_latency_injection (ci_config i) of
           Some (probability, delay) \<Rightarrow> if rand_probability subsec_nanos probability then sleep slp delay w else w
         | None \<Rightarrow> w))"

definition should_inject_error :: "u32 \<Rightarrow> chaos_injector \<Rightarrow> bool" where
  "should_inject_error subsec_nanos i =
     (if \<not> ci_active i then False
      else
        (case ch_error_injection (ci_config i) of
           Some probability \<Rightarrow> rand_probability subsec_nanos probability
         | None \<Rightarrow> False))"

section \<open>Draws\<close>

text \<open>Nanoseconds stay below \<open>10 ^ 9\<close>, so a draw divides by more than four times the range.\<close>

lemma draw_small:
  assumes "unat ns < 1000000000"
  shows "\<exists>d. f_div (f_of_word ns) (f_of_word (- 1 :: u32)) = Fin d \<and> 0 \<le> d \<and> d \<le> 1000 / 4096"
proof -
  define n where "n = unat ns"
  let ?q = "of_nat n / 4294967295 :: rat"
  have max: "unat (- 1 :: u32) = 4294967295" by (simp add: unsigned_minus_1_eq_mask mask_eq_exp_minus_1)
  have "(of_nat n :: rat) \<le> of_nat 1000000000" using assms by (simp only: of_nat_le_iff n_def)
  then have q: "0 \<le> ?q" "?q \<le> of_int 1000 * pow2 (- 12)" by (simp_all add: pow2_def)
  have "f_div (f_of_word ns) (f_of_word (- 1 :: u32)) = f_round ?q"
    using assms unfolding max n_def [symmetric] by (simp add: f_of_nat_small)
  also have "\<dots> = Fin (rndq ?q)" using q by (intro f_round_small) (simp_all add: pow2_def)
  finally have "f_div (f_of_word ns) (f_of_word (- 1 :: u32)) = Fin (rndq ?q)" .
  moreover have "rndq ?q \<le> rndq (of_int 1000 * pow2 (- 12))" by (rule rndq_mono [OF q(2)])
  moreover have "rndq (of_int 1000 * pow2 (- 12)) = of_int 1000 * pow2 (- 12)"
    by (rule rndq_exact) code_simp
  moreover have "0 \<le> rndq ?q" by (rule rndq_nonneg [OF q(1)])
  ultimately show ?thesis by (intro exI [of _ "rndq ?q"]) (simp add: pow2_def)
qed

text \<open>While chaos is on, an injection with a probability of a quarter or more always happens: the draw is the
  nanosecond of the second divided by \<open>u32::MAX\<close>, which is never above 0.2442.\<close>

theorem quarter_is_certain:
  assumes "ci_active i" "ch_error_injection (ci_config i) = Some p" "f_le (Fin (1 / 4)) p"
    and "unat subsec_nanos < 1000000000"
  shows "should_inject_error subsec_nanos i"
proof -
  obtain d where d: "f_div (f_of_word subsec_nanos) (f_of_word (- 1 :: u32)) = Fin d" "d \<le> 1000 / 4096"
    using draw_small [OF assms(4)] by blast
  then have "f_lt (Fin d) p" using assms(3) by (cases p) auto
  with d(1) assms(1,2) show ?thesis by (simp add: should_inject_error_def rand_probability_def)
qed

theorem quarter_is_certain_witness:
  "should_inject_error 999999999 (injector_start (injector_new (chaos_errors (Fin (1 / 4)))))"
  by (rule quarter_is_certain [of _ "Fin (1 / 4)"])
    (simp_all add: injector_start_def injector_new_def chaos_errors_def)

text \<open>Nothing is injected before \<open>start\<close> and after \<open>stop\<close>, whatever is configured and drawn.\<close>

lemma no_chaos_unless_started:
  "\<not> should_inject_error ns (injector_new c) \<and> maybe_inject_latency slp ns (injector_new c) w = w
   \<and> \<not> should_inject_error ns (injector_stop i) \<and> maybe_inject_latency slp ns (injector_stop i) w = w"
  by (simp add: should_inject_error_def maybe_inject_latency_def injector_new_def injector_stop_def)

end
