(* ===== verification/Test_Harness.thy ===== *)
theory Test_Harness
  imports Test_Chaos Platform_Adapter
begin

text \<open>
  The daemon test harness, \<open>crates/duende-test/src/harness.rs\<close> and \<open>error.rs\<close>: the builder, the health check and
  the shutdown of a daemon under test. Whatever platform is chosen, the adapter is the native one of
  \<open>Platform_Adapter\<close>. The existence of a path and the system clock are arguments.
\<close>

datatype test_error =
    THarness string
  | TChaos string
  | TLoadTest string
  | TAssertion string
  | TTimeout duration
  | TShutdown string
  | TDaemon string
  | TPlatform p_error
  | TIo string

section \<open>Building a harness\<close>

record test_harness =
  thr_platform :: platform
  thr_chaos :: "chaos_config option"

record harness_builder =
  hb_platform :: "platform option"
  hb_chaos :: "chaos_config option"

definition builder_default :: harness_builder where
  "builder_default = \<lparr>hb_platform = None, hb_chaos = None\<rparr>"

definition with_platform :: "platform \<Rightarrow> harness_builder \<Rightarrow> harness_builder" where
  "with_platform p b = b\<lparr>hb_platform := Some p\<rparr>"

definition with_chaos :: "chaos_config \<Rightarrow> harness_builder \<Rightarrow> harness_builder" where
  "with_chaos c b = b\<lparr>hb_chaos := Some c\<rparr>"

text \<open>\<open>detected\<close> is what \<open>detect_platform\<close> answers.\<close>

definition build_harness :: "platform \<Rightarrow> harness_builder \<Rightarrow> test_harness" where
  "build_harness detected b =
     \<lparr>thr_platform = (case hb_platform b of Some p \<Rightarrow> p | None \<Rightarrow> detected), thr_chaos = hb_chaos b\<rparr>"

record test_daemon =
  td_inner :: p_handle
  td_chaos :: "chaos_config option"

definition harness_spawn ::
  "'w kernel_api \<Rightarrow> test_harness \<Rightarrow> ('s, 'w) world \<Rightarrow> (test_error, test_daemon) outcome \<times> ('s, 'w) world" where
  "harness_spawn api t w =
     (case p_native_spawn api w of
        (Ok h, w') \<Rightarrow> (Ok \<lparr>td_inner = h, td_chaos = thr_chaos t\<rparr>, w')
      | (Err e, w') \<Rightarrow> (Err (TPlatform e), w')
      | (Panic, w') \<Rightarrow> (Panic, w'))"

section \<open>Health checks\<close>

definition process_check :: "(p_error, daemon_status) outcome \<Rightarrow> health_check" where
  "process_check r =
     (case r of
        Ok st \<Rightarrow>
          (if st = Running
           then \<lparr>hc_name = ''process_status'', hc_passed = True, hc_message = Some ''Process is running''\<rparr>
           else \<lparr>hc_name = ''process_status'', hc_passed = False,
                 hc_message = Some (''Process status: '' @ debug_status st)\<rparr>)
      | Err e \<Rightarrow>
          \<lparr>hc_name = ''process_status'', hc_passed = False,
           hc_message = Some (''Failed to check status: '' @ show_p_error e)\<rparr>
      | Panic \<Rightarrow> \<lparr>hc_name = ''process_status'', hc_passed = False, hc_message = None\<rparr>)"

definition pid_check :: "u32 option \<Rightarrow> health_check" where
  "pid_check pid =
     \<lparr>hc_name = ''pid_valid'', hc_passed = (pid \<noteq> None),
      hc_message = Some (case pid of None \<Rightarrow> ''No PID assigned'' | Some p \<Rightarrow> ''PID: '' @ show_word p)\<rparr>"

definition proc_check :: "bool \<Rightarrow> health_check" where
  "proc_check proc_exists =
     \<lparr>hc_name = ''proc_accessible'', hc_passed = proc_exists,
      hc_message = Some (if proc_exists then ''Process info accessible via /proc'' else ''Cannot access /proc info'')\<rparr>"

definition harness_health_check ::
  "'w kernel_api \<Rightarrow> (string \<Rightarrow> 'w \<Rightarrow> bool \<times> duration \<times> 'w) \<Rightarrow> ('w \<Rightarrow> duration option) \<Rightarrow> test_daemon
   \<Rightarrow> ('s, 'w) world \<Rightarrow> (test_error, health_status) outcome \<times> ('s, 'w) world" where
  "harness_health_check api file_exists since_epoch t w =
     (case p_native_status api (td_inner t) w of
        (Panic, w1) \<Rightarrow> (Panic, w1)
      | (r, w1) \<Rightarrow>
          (let pid = ph_pid (td_inner t);
               first = [process_check r, pid_check pid];
               (checks, w2) =
                 (case pid of
                    None \<Rightarrow> (first, w1)
                  | Some p \<Rightarrow>
                      (case file_exists (''/proc/'' @ show_word p @ ''/stat'') (os w1) of
                         (found, took, o') \<Rightarrow>
                           (first @ [proc_check found], w1\<lparr>clock := clock w1 + took, os := o'\<rparr>)));
               latency_ms = of_nat (as_millis (elapsed (clock w2) (clock w)))
           in (Ok \<lparr>hs_healthy = (r = Ok Running \<and> pid \<noteq> None), hs_checks = checks, hs_latency_ms = latency_ms,
                  hs_last_check_epoch_ms = epoch_ms (since_epoch (os w2))\<rparr>, w2)))"

section \<open>Shutdown\<close>

datatype poll_result = Gone | Still_there | Poll_panic

text \<open>The waiting loop; the fuel bounds its turns, each of which takes at least 50 milliseconds.\<close>

fun poll_stopped ::
  "nat \<Rightarrow> 'w kernel_api \<Rightarrow> 'w sleeper \<Rightarrow> p_handle \<Rightarrow> instant \<Rightarrow> duration \<Rightarrow> ('s, 'w) world
   \<Rightarrow> (poll_result \<times> ('s, 'w) world) option" where
  "poll_stopped 0 api slp h start timeout w = None"
| "poll_stopped (Suc n) api slp h start timeout w =
     (case p_native_status api h w of
        (Ok st, w') \<Rightarrow>
          (if is_terminal st then Some (Gone, w')
           else if timeout \<le> elapsed (clock w') start then Some (Still_there, w')
           else poll_stopped n api slp h start timeout (sleep slp (from_millis 50) w'))
      | (Err _, w') \<Rightarrow> Some (Gone, w')
      | (Panic, w') \<Rightarrow> Some (Poll_panic, w'))"

definition shutdown_fuel :: "duration \<Rightarrow> nat" where
  "shutdown_fuel timeout = timeout div from_millis 50 + 2"

definition kill_daemon ::
  "'w kernel_api \<Rightarrow> 'w sleeper \<Rightarrow> p_handle \<Rightarrow> u32 \<Rightarrow> ('s, 'w) world
   \<Rightarrow> (test_error, unit) outcome \<times> ('s, 'w) world" where
  "kill_daemon api slp h pid w =
     (case p_native_signal api h Kill w of
        (Panic, w1) \<Rightarrow> (Panic, w1)
      | (Err _, w1) \<Rightarrow> (Ok (), w1)
      | (Ok _, w1) \<Rightarrow>
          (case p_native_status api h (sleep slp (from_millis 100) w1) of
             (Ok st, w2) \<Rightarrow>
               (if is_terminal st then Ok ()
                else Err (TShutdown (''daemon PID '' @ show_word pid @ '' failed to terminate after SIGKILL'')), w2)
           | (Err _, w2) \<Rightarrow> (Ok (), w2)
           | (Panic, w2) \<Rightarrow> (Panic, w2)))"

definition harness_shutdown ::
  "'w kernel_api \<Rightarrow> 'w sleeper \<Rightarrow> test_daemon \<Rightarrow> duration \<Rightarrow> ('s, 'w) world
   \<Rightarrow> ((test_error, unit) outcome \<times> ('s, 'w) world) option" where
  "harness_shutdown api slp t timeout w =
     (case ph_pid (td_inner t) of
        None \<Rightarrow> Some (Ok (), w)
      | Some pid \<Rightarrow>
          (case p_native_signal api (td_inner t) Term w of
             (Panic, w1) \<Rightarrow> Some (Panic, w1)
           | (_, w1) \<Rightarrow>
               (case poll_stopped (shutdown_fuel timeout) api slp (td_inner t) (clock w1) timeout w1 of
                  None \<Rightarrow> None
                | Some (Gone, w2) \<Rightarrow> Some (Ok (), w2)
                | Some (Poll_panic, w2) \<Rightarrow> Some (Panic, w2)
                | Some (Still_there, w2) \<Rightarrow> Some (kill_daemon api slp (td_inner t) pid w2))))"

lemma poll_returns:
  "start + timeout \<le> clock w + n * from_millis 50 \<Longrightarrow> poll_stopped (Suc n) api slp h start timeout w \<noteq> None"
proof (induction n arbitrary: w)
  case 0
  have "clock w \<le> clock (snd (p_native_status api h w))" by (rule p_native.status_clock)
  with 0 show ?case
    by (cases "p_native_status api h w"; cases "fst (p_native_status api h w)") auto
next
  case (Suc n)
  let ?w = "sleep slp (from_millis 50) (snd (p_native_status api h w))"
  have "start + timeout \<le> clock ?w + n * from_millis 50"
    using Suc.prems p_native.after_status_nap [of w "from_millis 50" slp api h] by simp
  then have "poll_stopped (Suc n) api slp h start timeout ?w \<noteq> None" by (rule Suc.IH)
  then show ?case
    by (subst poll_stopped.simps)
      (cases "p_native_status api h w"; cases "fst (p_native_status api h w)"; simp del: poll_stopped.simps)
qed

lemma poll_spec:
  "poll_stopped n api slp h start timeout w = Some (r, w') \<Longrightarrow>
     clock w \<le> clock w'
     \<and> (case r of
          Gone \<Rightarrow> \<exists>u. (\<exists>st. p_native_status api h u = (Ok st, w') \<and> is_terminal st) \<or> (\<exists>e. p_native_status api h u = (Err e, w'))
        | Still_there \<Rightarrow> timeout \<le> elapsed (clock w') start
        | Poll_panic \<Rightarrow> True)"
proof (induction n arbitrary: w)
  case (Suc n)
  obtain q u where q: "p_native_status api h w = (q, u)" by (cases "p_native_status api h w")
  have u: "clock w \<le> clock u" using p_native.status_clock [of w api h] q by simp
  have nap: "clock u \<le> clock (sleep slp (from_millis 50) u)" using sleep_clock [of u "from_millis 50" slp] by linarith
  show ?case
    using Suc.prems q u nap Suc.IH [of "sleep slp (from_millis 50) u"]
    by (cases q) (fastforce split: if_splits)+
qed simp

lemma poll_enough: "poll_stopped (shutdown_fuel timeout) api slp h (clock w) timeout w \<noteq> None"
proof -
  have "timeout \<le> Suc (timeout div from_millis 50) * from_millis 50"
    using dividend_less_div_times [of "from_millis 50" timeout] by simp
  then show ?thesis
    using poll_returns [of "clock w" timeout w "Suc (timeout div from_millis 50)"]
    by (simp add: shutdown_fuel_def del: poll_stopped.simps)
qed

lemma kill_spec:
  "kill_daemon api slp h pid w = (r, w') \<Longrightarrow>
     r = Ok () \<or> r = Panic \<or> (\<exists>m. r = Err (TShutdown m)) \<and> clock w + from_millis 100 \<le> clock w'
       \<and> (\<exists>u st. p_native_status api h u = (Ok st, w') \<and> \<not> is_terminal st)"
proof -
  assume kill: "kill_daemon api slp h pid w = (r, w')"
  obtain q u where q: "p_native_signal api h Kill w = (q, u)" by (cases "p_native_signal api h Kill w")
  obtain s v where s: "p_native_status api h (sleep slp (from_millis 100) u) = (s, v)"
    by (cases "p_native_status api h (sleep slp (from_millis 100) u)")
  have "clock w \<le> clock u" using p_native.signal_clock [of w api h Kill] q by simp
  moreover have "clock u + from_millis 100 \<le> clock v"
    using sleep_clock [of u "from_millis 100" slp] p_native.status_clock [of "sleep slp (from_millis 100) u" api h] s
    by (simp add: order_trans)
  ultimately show ?thesis
    using kill q s by (cases q; cases s) (auto simp: kill_daemon_def split: if_splits)
qed

text \<open>Shutting a daemon under test down always returns. It fails only when the daemon was still there after the
  timeout, the kill was accepted, and it was still there a tenth of a second later.\<close>

theorem harness_shutdown_ends:
  "\<exists>r w'. harness_shutdown api slp t timeout w = Some (r, w')
     \<and> (r = Ok () \<or> r = Panic
        \<or> (\<exists>m. r = Err (TShutdown m)) \<and> clock w + timeout + from_millis 100 \<le> clock w'
          \<and> (\<exists>u st. p_native_status api (td_inner t) u = (Ok st, w') \<and> \<not> is_terminal st))"
proof (cases "ph_pid (td_inner t)")
  case (Some pid)
  obtain q w1 where q: "p_native_signal api (td_inner t) Term w = (q, w1)"
    by (cases "p_native_signal api (td_inner t) Term w")
  then have w1: "clock w \<le> clock w1" using p_native.signal_clock [of w api "td_inner t" Term] by simp
  obtain p w2 where p: "poll_stopped (shutdown_fuel timeout) api slp (td_inner t) (clock w1) timeout w1 = Some (p, w2)"
    using poll_enough by fastforce
  obtain r w3 where r: "kill_daemon api slp (td_inner t) pid w2 = (r, w3)" by (cases "kill_daemon api slp (td_inner t) pid w2")
  have result: "harness_shutdown api slp t timeout w =
      (if q = Panic then Some (Panic, w1)
       else case p of Gone \<Rightarrow> Some (Ok (), w2) | Poll_panic \<Rightarrow> Some (Panic, w2) | Still_there \<Rightarrow> Some (r, w3))"
    using Some q p r by (cases q) (auto simp: harness_shutdown_def split: poll_result.split)
  have "p = Still_there \<Longrightarrow> timeout \<le> elapsed (clock w2) (clock w1)" "clock w1 \<le> clock w2"
    using poll_spec [OF p] by simp_all
  then have "p = Still_there \<Longrightarrow> clock w + timeout \<le> clock w2" using w1 by linarith
  with result kill_spec [OF r] show ?thesis by (cases p) auto
qed (simp add: harness_shutdown_def)

text \<open>A status query that fails is taken for a daemon that has stopped. \<open>kill(2)\<close> answers \<open>EPERM\<close> for a process that
  exists but may not be signalled, so the shutdown of such a daemon succeeds at its first query, and the daemon is
  never killed.\<close>

theorem forbidden_daemon_counts_as_stopped:
  fixes w :: "('s, 'w) world"
  assumes "ph_pid (td_inner t) = Some pid"
    and "\<And>o'. fst (ka_kill api pid (Some (nix_signal_of Term)) o') = Err (1, e)"
    and "\<And>o'. fst (ka_kill api pid None o') = Err (1, e)"
  shows "\<exists>w1. harness_shutdown api slp t timeout w = Some (Ok (), snd (p_native_status api (td_inner t) w1))"
proof -
  have "fst (p_native_signal api (td_inner t) Term w) \<noteq> Panic"
    using assms(1,2) by (simp add: p_native_signal_def act_simps os_call_result)
  moreover have query: "\<exists>e'. fst (p_native_status api (td_inner t) u) = Err e'" for u :: "('s, 'w) world"
    using assms(1,3) os_call_result [of "ka_kill api pid None" "\<lambda>e. e" u]
    by (cases "os_call (ka_kill api pid None) (\<lambda>e. e) u") (simp add: p_native_status_def)
  have "poll_stopped (shutdown_fuel timeout) api slp (td_inner t) start timeout u
      = Some (Gone, snd (p_native_status api (td_inner t) u))"
    for u :: "('s, 'w) world" and start
    using query [of u] by (cases "p_native_status api (td_inner t) u") (auto simp: shutdown_fuel_def)
  ultimately show ?thesis
    using assms(1) by (cases "p_native_signal api (td_inner t) Term w"; cases "fst (p_native_signal api (td_inner t) Term w)")
      (auto simp: harness_shutdown_def)
qed

definition forbidding :: "unit kernel_api" where
  "forbidding = \<lparr>ka_spawn = (\<lambda>cmd o'. (Ok (Some 1), 0, o')), ka_kill = (\<lambda>pid s o'. (Err (1, ''EPERM''), 0, o'))\<rparr>"

theorem forbidden_daemon_counts_as_stopped_witness:
  "\<exists>w1. harness_shutdown forbidding (\<lambda>d o'. (0, o')) \<lparr>td_inner = p_handle_native 1, td_chaos = None\<rparr> 5
      \<lparr>clock = 0, adapter = (), os = ()\<rparr>
    = Some (Ok (), snd (p_native_status forbidding (p_handle_native 1) w1))"
  using forbidden_daemon_counts_as_stopped [of "\<lparr>td_inner = p_handle_native 1, td_chaos = None\<rparr>" 1 forbidding "''EPERM''"]
  by (simp add: forbidding_def p_handle_native_def)

end
