(* ===== verification/Test_Load.thy ===== *)
theory Test_Load
  imports Core_Adapter F64 "HOL-Library.Multiset"
begin

text \<open>
  The load tester, \<open>crates/duende-test/src/load.rs\<close>: the configurations, the shared metrics, the workers, the
  percentiles and the report. Here the workers run one
  after the other, each on a time line of its own, on the metrics the workers before it left; \<open>Test_Load_Threads\<close> runs
  them side by side, in any order of their steps. The world's adapter state is the metrics; time passes when a
  worker works and sleeps.
\<close>

section \<open>Configurations\<close>

record load_config =
  lt_concurrent_users :: u32
  lt_ramp_up :: duration
  lt_duration :: duration
  lt_requests_per_user :: "u32 option"
  lt_target_rps :: "f64 option"

definition load_default :: load_config where
  "load_default =
     \<lparr>lt_concurrent_users = 10, lt_ramp_up = from_secs 10, lt_duration = from_secs 60, lt_requests_per_user = None,
      lt_target_rps = None\<rparr>"

definition load_light :: load_config where
  "load_light = load_default\<lparr>lt_concurrent_users := 5, lt_ramp_up := from_secs 5, lt_duration := from_secs 30\<rparr>"

definition load_moderate :: load_config where
  "load_moderate = load_default\<lparr>lt_concurrent_users := 50, lt_ramp_up := from_secs 30, lt_duration := from_secs 120\<rparr>"

definition load_heavy :: load_config where
  "load_heavy = load_default\<lparr>lt_concurrent_users := 200, lt_ramp_up := from_secs 60, lt_duration := from_secs 300\<rparr>"

definition load_quick :: load_config where
  "load_quick =
     \<lparr>lt_concurrent_users = 4, lt_ramp_up = from_millis 100, lt_duration = from_millis 500,
      lt_requests_per_user = Some 10, lt_target_rps = None\<rparr>"

section \<open>Metrics\<close>

record load_metrics =
  lm_total :: u64
  lm_successful :: u64
  lm_failed :: u64
  lm_latencies :: "u64 list"

definition load_metrics_default :: load_metrics where
  "load_metrics_default = \<lparr>lm_total = 0, lm_successful = 0, lm_failed = 0, lm_latencies = []\<rparr>"

definition lm_record_success :: "u64 \<Rightarrow> load_metrics \<Rightarrow> load_metrics" where
  "lm_record_success latency_us m =
     m\<lparr>lm_total := lm_total m + 1, lm_successful := lm_successful m + 1,
       lm_latencies := lm_latencies m @ [latency_us]\<rparr>"

definition lm_record_failure :: "load_metrics \<Rightarrow> load_metrics" where
  "lm_record_failure m = m\<lparr>lm_total := lm_total m + 1, lm_failed := lm_failed m + 1\<rparr>"

section \<open>A worker\<close>

text \<open>\<open>Duration::from_secs_f64\<close>, rounded to nanoseconds; \<open>None\<close> is its panic on negative, huge and
  non-finite numbers.\<close>

fun from_secs_f64 :: "f64 \<Rightarrow> duration option" where
  "from_secs_f64 (Fin x) =
     (if x < 0 \<or> 2 ^ 64 \<le> x then None else Some (nat (round_even (x * 1000000000))))"
| "from_secs_f64 _ = None"

definition request_interval :: "u32 \<Rightarrow> f64 \<Rightarrow> duration option" where
  "request_interval concurrent_users rps =
     from_secs_f64 (f_mul (f_div (Fin 1) rps) (f_of_word concurrent_users))"

definition ramp_delay :: "load_config \<Rightarrow> u64" where
  "ramp_delay c =
     (if 1 < lt_concurrent_users c
      then of_nat (as_millis (lt_ramp_up c)) div max (ucast (lt_concurrent_users c) - 1) 1 else 0)"

type_synonym 'w request_handler = "u32 \<Rightarrow> u64 \<Rightarrow> 'w \<Rightarrow> bool \<times> duration \<times> 'w"
type_synonym 'w load_world = "(load_metrics, 'w) world"

text \<open>One request: the handler's, or a pause of 100 microseconds that fails for every hundredth request.\<close>

definition load_request ::
  "'w request_handler option \<Rightarrow> 'w sleeper \<Rightarrow> u32 \<Rightarrow> u64 \<Rightarrow> 'w load_world \<Rightarrow> bool \<times> 'w load_world" where
  "load_request handler slp user_id request_id w =
     (case handler of
        Some h \<Rightarrow>
          (case h user_id request_id (os w) of (ok, took, o') \<Rightarrow> (ok, w\<lparr>clock := clock w + took, os := o'\<rparr>))
      | None \<Rightarrow> (request_id mod 100 \<noteq> 0, sleep slp 100000 w))"

definition lm_record :: "bool \<Rightarrow> u64 \<Rightarrow> load_metrics \<Rightarrow> load_metrics" where
  "lm_record success latency_us m = (if success then lm_record_success latency_us m else lm_record_failure m)"

text \<open>The loop of a worker; the fuel bounds its turns.\<close>

fun load_loop ::
  "nat \<Rightarrow> load_config \<Rightarrow> 'w request_handler option \<Rightarrow> 'w sleeper \<Rightarrow> instant \<Rightarrow> duration option \<Rightarrow> u32 \<Rightarrow> u64
   \<Rightarrow> 'w load_world \<Rightarrow> 'w load_world option" where
  "load_loop 0 c handler slp test_end interval user_id request_id w = None"
| "load_loop (Suc n) c handler slp test_end interval user_id request_id w =
     (if test_end \<le> clock w then Some w
      else if (case lt_requests_per_user c of Some m \<Rightarrow> ucast m \<le> request_id | None \<Rightarrow> False) then Some w
      else
        (case load_request handler slp user_id request_id w of
           (success, w1) \<Rightarrow>
             (let latency_us = of_nat (as_micros (elapsed (clock w1) (clock w)));
                  w2 = w1\<lparr>adapter := lm_record success latency_us (adapter w1)\<rparr>;
                  w3 = (case interval of Some d \<Rightarrow> sleep slp d w2 | None \<Rightarrow> w2)
              in load_loop n c handler slp test_end interval user_id (request_id + 1) w3)))"

text \<open>The task: a worker whose interval cannot be computed panics, which the run does not look at.\<close>

definition load_worker ::
  "nat \<Rightarrow> load_config \<Rightarrow> 'w request_handler option \<Rightarrow> 'w sleeper \<Rightarrow> instant \<Rightarrow> u32 \<Rightarrow> 'w load_world
   \<Rightarrow> 'w load_world option" where
  "load_worker n c handler slp test_end user_id w =
     (let w1 = sleep slp (from_millis (unat (ramp_delay c * ucast user_id))) w in
      case lt_target_rps c of
        None \<Rightarrow> load_loop n c handler slp test_end None user_id 0 w1
      | Some rps \<Rightarrow>
          (case request_interval (lt_concurrent_users c) rps of
             None \<Rightarrow> Some w1
           | Some d \<Rightarrow> load_loop n c handler slp test_end (Some d) user_id 0 w1))"

text \<open>The workers run side by side: each starts at the start of the run, and the run ends with the last of them.\<close>

fun load_workers ::
  "nat \<Rightarrow> load_config \<Rightarrow> 'w request_handler option \<Rightarrow> 'w sleeper \<Rightarrow> instant \<Rightarrow> instant \<Rightarrow> u32 list \<Rightarrow> 'w load_world
   \<Rightarrow> 'w load_world option" where
  "load_workers n c handler slp start test_end [] w = Some w"
| "load_workers n c handler slp start test_end (u # us) w =
     (case load_worker n c handler slp test_end u (w\<lparr>clock := start\<rparr>) of
        Some w' \<Rightarrow> load_workers n c handler slp start test_end us (w'\<lparr>clock := max (clock w) (clock w')\<rparr>)
      | None \<Rightarrow> None)"

section \<open>The report\<close>

record load_report =
  lr_total_requests :: u64
  lr_successful :: u64
  lr_failed :: u64
  lr_p50_us :: u64
  lr_p95_us :: u64
  lr_p99_us :: u64
  lr_throughput_rps :: f64
  lr_error_rate :: f64

definition percentile :: "u64 list \<Rightarrow> nat \<Rightarrow> u64" where
  "percentile sorted_list p =
     (if sorted_list = [] then 0
      else sorted_list ! min (length sorted_list * p div 100) (length sorted_list - 1))"

definition load_report :: "duration \<Rightarrow> load_metrics \<Rightarrow> load_report" where
  "load_report took m =
     (let latencies = sort (lm_latencies m) in
      \<lparr>lr_total_requests = lm_total m, lr_successful = lm_successful m, lr_failed = lm_failed m,
       lr_p50_us = (if latencies = [] then 0 else percentile latencies 50),
       lr_p95_us = (if latencies = [] then 0 else percentile latencies 95),
       lr_p99_us = (if latencies = [] then 0 else percentile latencies 99),
       lr_throughput_rps =
         (if f_gt (as_secs_f64 took) (Fin 0) then f_div (f_of_word (lm_total m)) (as_secs_f64 took) else Fin 0),
       lr_error_rate = (if 0 < lm_total m then f_div (f_of_word (lm_failed m)) (f_of_word (lm_total m)) else Fin 0)\<rparr>)"

definition load_run ::
  "nat \<Rightarrow> load_config \<Rightarrow> 'w request_handler option \<Rightarrow> 'w sleeper \<Rightarrow> (unit, 'w) world \<Rightarrow> load_report option" where
  "load_run n c handler slp w =
     (let start = clock w;
          w0 = \<lparr>clock = start, adapter = load_metrics_default, os = os w\<rparr>;
          users = map of_nat [0..<unat (lt_concurrent_users c)]
      in map_option (\<lambda>w'. load_report (elapsed (clock w') start) (adapter w'))
           (load_workers n c handler slp start (start + lt_ramp_up c + lt_duration c) users w0))"

definition lr_passed :: "load_report \<Rightarrow> bool" where
  "lr_passed r = f_lt (lr_error_rate r) (f_lit (1 / 100))"

definition lr_success_rate :: "load_report \<Rightarrow> f64" where
  "lr_success_rate r =
     (if 0 < lr_total_requests r then f_div (f_of_word (lr_successful r)) (f_of_word (lr_total_requests r)) else Fin 0)"

section \<open>Percentiles\<close>

text \<open>C28: A percentile of the sorted latencies is one of them, at least \<open>p\<close> percent of the latencies are not above it
  and at least \<open>100 - p\<close> percent not below.\<close>

theorem percentile_splits:
  assumes "sorted xs" "xs \<noteq> []" "p \<le> 100"
  shows "percentile xs p \<in> set xs
    \<and> p * length xs \<le> 100 * length (filter (\<lambda>x. x \<le> percentile xs p) xs)
    \<and> (100 - p) * length xs \<le> 100 * length (filter (\<lambda>x. percentile xs p \<le> x) xs)"
proof -
  define i where "i = min (length xs * p div 100) (length xs - 1)"
  have i: "i < length xs" using assms(2) by (simp add: i_def min_less_iff_disj)
  have v: "percentile xs p = xs ! i" using assms(2) by (simp add: percentile_def i_def)
  have "{..i} \<subseteq> {k. k < length xs \<and> xs ! k \<le> xs ! i}"
    using i assms(1) by (auto intro: sorted_nth_mono)
  then have "card {..i} \<le> card {k. k < length xs \<and> xs ! k \<le> xs ! i}" by (rule card_mono [rotated]) simp
  then have low: "Suc i \<le> length (filter (\<lambda>x. x \<le> xs ! i) xs)" by (simp add: length_filter_conv_card)
  have "{i..<length xs} \<subseteq> {k. k < length xs \<and> xs ! i \<le> xs ! k}"
    using assms(1) by (auto intro: sorted_nth_mono)
  then have "card {i..<length xs} \<le> card {k. k < length xs \<and> xs ! i \<le> xs ! k}" by (rule card_mono [rotated]) simp
  then have high: "length xs - i \<le> length (filter (\<lambda>x. xs ! i \<le> x) xs)" by (simp add: length_filter_conv_card)
  have "length xs * p \<le> 100 * length xs" using assms(3) by simp
  moreover have "length xs * p < 100 * Suc (length xs * p div 100)"
    using dividend_less_div_times [of 100 "length xs * p"] by simp
  ultimately have "p * length xs \<le> 100 * Suc i"
    using assms(2) by (cases xs) (auto simp: i_def min_def mult.commute)
  moreover have "100 * i \<le> p * length xs"
  proof -
    have "i \<le> length xs * p div 100" by (simp add: i_def)
    then have "100 * i \<le> 100 * (length xs * p div 100)" by simp
    also have "\<dots> \<le> length xs * p" by simp
    finally show ?thesis by (simp add: mult.commute)
  qed
  then have "(100 - p) * length xs \<le> 100 * (length xs - i)"
    using assms(3) by (simp add: diff_mult_distrib diff_mult_distrib2)
  ultimately show ?thesis using low high v i by (auto intro: order_trans)
qed

theorem percentile_splits_witness:
  "percentile [1, 2, 3, 9] 50 = 3 \<and> 50 * 4 \<le> 100 * length (filter (\<lambda>x. x \<le> 3) [1, 2, 3, 9 :: u64])"
  using percentile_splits [of "[1, 2, 3, 9]" 50] by (simp add: percentile_def)

section \<open>The default workload\<close>

text \<open>How many of the first \<open>k\<close> requests fail.\<close>

definition hundredths :: "nat \<Rightarrow> nat" where
  "hundredths k = (k + 99) div 100"

lemma hundredths_0 [simp]: "hundredths 0 = 0"
  by (simp add: hundredths_def)

lemma hundredths_eq: "hundredths k = k div 100 + (if k mod 100 = 0 then 0 else 1)"
proof -
  have "(k + 99) div 100 = q + (if r = 0 then 0 else 1)" if "k = 100 * q + r" "r < 100" for q r
    using that by (intro div_nat_eqI) (simp_all split: if_split)
  from this [of "k div 100" "k mod 100"] show ?thesis by (simp add: hundredths_def)
qed

lemma hundredths_Suc: "hundredths (Suc k) = hundredths k + (if k mod 100 = 0 then 1 else 0)"
proof -
  have "hundredths (Suc k) = k div 100 + 1" by (simp add: hundredths_def)
  then show ?thesis by (simp add: hundredths_eq [of k])
qed

lemma hundredths_bounds: "hundredths k \<le> k" "k \<le> 100 * hundredths k"
proof -
  have "q + (if r = 0 then 0 else 1) \<le> k \<and> k \<le> 100 * (q + (if r = 0 then 0 else 1))"
    if "k = 100 * q + r" "r < 100" for q r
    using that by (simp split: if_split)
  from this [of "k div 100" "k mod 100"] show "hundredths k \<le> k" "k \<le> 100 * hundredths k"
    by (simp_all add: hundredths_eq)
qed

text \<open>A worker's share: \<open>k\<close> requests counted, the failures among them. Nothing overflows.\<close>

definition adds_requests :: "nat \<Rightarrow> nat \<Rightarrow> load_metrics \<Rightarrow> load_metrics \<Rightarrow> bool" where
  "adds_requests j k m m' \<longleftrightarrow>
     unat (lm_total m') + j = unat (lm_total m) + k
     \<and> unat (lm_failed m') + hundredths j = unat (lm_failed m) + hundredths k"

lemma record_adds:
  assumes "unat (lm_failed m) \<le> unat (lm_total m)" "Suc (unat (lm_total m)) < 2 ^ 64"
  shows "adds_requests j (Suc j) m (lm_record (j mod 100 \<noteq> 0) l m)"
    and "unat (lm_failed (lm_record b l m)) \<le> unat (lm_total (lm_record b l m))"
proof -
  have "unat (lm_total m + 1) = Suc (unat (lm_total m))" "unat (lm_failed m + 1) = Suc (unat (lm_failed m))"
    using assms by (auto intro!: unat_suc_in_range)
  with assms(1) show "adds_requests j (Suc j) m (lm_record (j mod 100 \<noteq> 0) l m)"
    "unat (lm_failed (lm_record b l m)) \<le> unat (lm_total (lm_record b l m))"
    by (simp_all add: adds_requests_def lm_record_def lm_record_success_def lm_record_failure_def hundredths_Suc)
qed

lemma load_loop_default:
  assumes "lt_requests_per_user c = Some m" "unat req \<le> unat m" "unat m < n + unat req"
    and "unat (lm_failed (adapter w)) \<le> unat (lm_total (adapter w))"
    and "unat (lm_total (adapter w)) + (unat m - unat req) < 2 ^ 64"
  shows "\<exists>w' k. load_loop n c None slp test_end interval user req w = Some w' \<and> unat req \<le> k \<and> k \<le> unat m
    \<and> adds_requests (unat req) k (adapter w) (adapter w')
    \<and> unat (lm_failed (adapter w')) \<le> unat (lm_total (adapter w'))"
  using assms
proof (induction n arbitrary: req w)
  case (Suc n)
  have limit: "ucast m \<le> req \<longleftrightarrow> unat m \<le> unat req"
    by (simp add: word_le_nat_alt unat_ucast_wider)
  show ?case
  proof (cases "test_end \<le> clock w \<or> ucast m \<le> req")
    case True
    with Suc.prems show ?thesis by (intro exI [of _ w] exI [of _ "unat req"]) (auto simp: adds_requests_def)
  next
    case False
    then have below: "unat req < unat m" using limit by simp
    have "unat m < 2 ^ 32" using unat_bound [of m] by simp
    with below have suc: "unat (req + 1) = Suc (unat req)" by (intro unat_suc_in_range) simp
    have mod: "req mod 100 \<noteq> 0 \<longleftrightarrow> unat req mod 100 \<noteq> 0"
      by (simp add: unat_eq_0 [symmetric] unat_mod)
    define w1 where "w1 = sleep slp 100000 w"
    define l :: u64 where "l = of_nat (as_micros (elapsed (clock w1) (clock w)))"
    define w2 where "w2 = w1\<lparr>adapter := lm_record (req mod 100 \<noteq> 0) l (adapter w)\<rparr>"
    define w3 where "w3 = (case interval of Some d \<Rightarrow> sleep slp d w2 | None \<Rightarrow> w2)"
    have step: "load_loop (Suc n) c None slp test_end interval user req w
        = load_loop n c None slp test_end interval user (req + 1) w3"
      using False Suc.prems(1)
      by (cases interval) (simp_all add: load_request_def Let_def w1_def w2_def w3_def l_def)
    have w3: "adapter w3 = lm_record (unat req mod 100 \<noteq> 0) l (adapter w)"
      by (simp add: w3_def w2_def mod split: option.split)
    have room: "Suc (unat (lm_total (adapter w))) < 2 ^ 64" using Suc.prems(5) below by linarith
    note adds = record_adds [OF Suc.prems(4) room]
    have total3: "unat (lm_total (adapter w3)) = Suc (unat (lm_total (adapter w)))"
      using adds(1) [of "unat req" l] unfolding w3 adds_requests_def by simp
    have "\<exists>w' k. load_loop n c None slp test_end interval user (req + 1) w3 = Some w'
      \<and> unat (req + 1) \<le> k \<and> k \<le> unat m \<and> adds_requests (unat (req + 1)) k (adapter w3) (adapter w')
      \<and> unat (lm_failed (adapter w')) \<le> unat (lm_total (adapter w'))"
    proof (rule Suc.IH [OF Suc.prems(1)])
      show "unat (req + 1) \<le> unat m" "unat m < n + unat (req + 1)" using below suc Suc.prems(3) by simp_all
      show "unat (lm_failed (adapter w3)) \<le> unat (lm_total (adapter w3))" unfolding w3 by (rule adds(2))
      show "unat (lm_total (adapter w3)) + (unat m - unat (req + 1)) < 2 ^ 64"
        using total3 suc below Suc.prems(5) by linarith
    qed
    then obtain w' k where rest: "load_loop n c None slp test_end interval user (req + 1) w3 = Some w'"
      "Suc (unat req) \<le> k" "k \<le> unat m" "adds_requests (Suc (unat req)) k (adapter w3) (adapter w')"
      "unat (lm_failed (adapter w')) \<le> unat (lm_total (adapter w'))"
      by (auto simp: suc)
    have "adds_requests (unat req) k (adapter w) (adapter w')"
      using rest(4) adds(1) [of "unat req" l] unfolding w3 [symmetric] adds_requests_def by linarith
    with rest step show ?thesis by (intro exI [of _ w'] exI [of _ k]) auto
  qed
qed simp

definition often_failing :: "load_metrics \<Rightarrow> bool" where
  "often_failing m \<longleftrightarrow> unat (lm_failed m) \<le> unat (lm_total m) \<and> unat (lm_total m) \<le> 100 * unat (lm_failed m)"

lemma load_worker_default:
  assumes "lt_requests_per_user c = Some m" "unat m < n" "often_failing (adapter w)"
    and "unat (lm_total (adapter w)) + unat m < 2 ^ 64"
  shows "\<exists>w'. load_worker n c None slp test_end user w = Some w' \<and> often_failing (adapter w')
    \<and> unat (lm_total (adapter w')) \<le> unat (lm_total (adapter w)) + unat m"
proof -
  let ?w = "sleep slp (from_millis (unat (ramp_delay c * ucast user))) w"
  have loop: "\<exists>w'. load_loop n c None slp test_end interval user 0 ?w = Some w' \<and> often_failing (adapter w')
      \<and> unat (lm_total (adapter w')) \<le> unat (lm_total (adapter w)) + unat m" for interval
  proof -
    obtain w' k where "load_loop n c None slp test_end interval user 0 ?w = Some w'" "k \<le> unat m"
      "adds_requests 0 k (adapter w) (adapter w')" "unat (lm_failed (adapter w')) \<le> unat (lm_total (adapter w'))"
      using load_loop_default [of c m 0 n ?w slp test_end interval user] assms
      by (auto simp: often_failing_def)
    with assms(3) hundredths_bounds(2) [of k] show ?thesis
      by (auto simp: adds_requests_def often_failing_def)
  qed
  show ?thesis
    using loop assms(3) by (auto simp: load_worker_def Let_def split: option.split)
qed

lemma load_workers_default:
  assumes "lt_requests_per_user c = Some m" "unat m < n" "often_failing (adapter w)"
    and "unat (lm_total (adapter w)) + length us * unat m < 2 ^ 64"
  shows "\<exists>w'. load_workers n c None slp start test_end us w = Some w' \<and> often_failing (adapter w')
    \<and> unat (lm_total (adapter w')) \<le> unat (lm_total (adapter w)) + length us * unat m"
  using assms
proof (induction us arbitrary: w)
  case (Cons u us)
  obtain w1 where w1: "load_worker n c None slp test_end u (w\<lparr>clock := start\<rparr>) = Some w1" "often_failing (adapter w1)"
    "unat (lm_total (adapter w1)) \<le> unat (lm_total (adapter w)) + unat m"
    using load_worker_default [OF Cons.prems(1,2), of "w\<lparr>clock := start\<rparr>" slp test_end u] Cons.prems(3,4) by auto
  then have "unat (lm_total (adapter w1)) + length us * unat m < 2 ^ 64" using Cons.prems(4) by simp
  with Cons.IH [OF Cons.prems(1,2), of "w1\<lparr>clock := max (clock w) (clock w1)\<rparr>"] w1 show ?case by auto
qed simp

lemma hundredth_le: "0 < t \<Longrightarrow> t \<le> 100 * k \<Longrightarrow> (1 / 100 :: rat) \<le> of_nat k / of_nat t"
proof -
  assume "0 < t" "t \<le> 100 * k"
  then have "(of_nat t :: rat) \<le> 100 * of_nat k" by (metis of_nat_le_iff of_nat_mult of_nat_numeral)
  with \<open>0 < t\<close> show ?thesis by (simp add: pos_le_divide_eq)
qed

lemma f_div_nat:
  "0 < t \<Longrightarrow> t \<le> 2 ^ 53 \<Longrightarrow> k \<le> 2 ^ 53 \<Longrightarrow>
     f_div (f_of_nat k) (f_of_nat t) = f_round (of_nat k / of_nat t)"
  by (simp add: f_of_nat_small)

lemma often_failing_rate:
  assumes "often_failing m" "unat (lm_total m) \<le> 2 ^ 53"
  shows "lr_passed (load_report took m) \<longleftrightarrow> lm_total m = 0"
proof (cases "lm_total m = 0")
  case True
  have "pow2 (- 7) \<le> rndq (1 / 100)"
    using rndq_mono [of "pow2 (- 7)" "1 / 100"] by (simp add: rndq_pow2) (simp add: pow2_def)
  then have "0 < rndq (1 / 100)" using pow2_pos [of "- 7"] by linarith
  then have "f_lt (Fin 0) (f_lit (1 / 100))" by (simp add: f_round_small)
  with True show ?thesis by (simp add: lr_passed_def load_report_def Let_def)
next
  case False
  let ?T = "unat (lm_total m)" and ?F = "unat (lm_failed m)"
  have T: "0 < ?T" using False by (simp add: unat_gt_0)
  have "(1 / 100 :: rat) \<le> of_nat ?F / of_nat ?T"
    using T assms(1) by (intro hundredth_le) (simp_all add: often_failing_def)
  then have "f_le (f_lit (1 / 100)) (f_round (of_nat ?F / of_nat ?T))" by (rule f_round_mono)
  moreover have "f_div (f_of_nat ?F) (f_of_nat ?T) = f_round (of_nat ?F / of_nat ?T)"
    using assms T by (intro f_div_nat) (simp_all add: often_failing_def)
  ultimately have "\<not> lr_passed (load_report took m)"
    using False by (simp add: lr_passed_def load_report_def Let_def f_not_lt word_neq_0_conv)
  with False show ?thesis by simp
qed

text \<open>A run with a limit of requests per user and without a handler of its own ends, and it passes if and only if
  no request was made at all: the default workload fails requests 0, 100, 200 and so on of every user, at least
  one in a hundred, while passing asks for less than one in a hundred.\<close>

theorem default_workload_never_passes:
  assumes "lt_requests_per_user c = Some m" "unat m < n" "unat (lt_concurrent_users c) * unat m \<le> 2 ^ 53"
  shows "\<exists>r. load_run n c None slp w = Some r \<and> (lr_passed r \<longleftrightarrow> lr_total_requests r = 0)"
proof -
  let ?w = "\<lparr>clock = clock w, adapter = load_metrics_default, os = os w\<rparr>"
  let ?users = "map of_nat [0..<unat (lt_concurrent_users c)] :: u32 list"
  have "often_failing (adapter ?w)" by (simp add: often_failing_def load_metrics_default_def)
  moreover have "unat (lm_total (adapter ?w)) + length ?users * unat m < 2 ^ 64"
    using assms(3) by (simp add: load_metrics_default_def)
  ultimately obtain w' where w': "load_workers n c None slp (clock w) (clock w + lt_ramp_up c + lt_duration c) ?users ?w = Some w'"
    "often_failing (adapter w')" "unat (lm_total (adapter w')) \<le> length ?users * unat m"
    using load_workers_default [OF assms(1,2), of ?w ?users slp "clock w" "clock w + lt_ramp_up c + lt_duration c"]
    by (auto simp: load_metrics_default_def)
  then have "unat (lm_total (adapter w')) \<le> 2 ^ 53" using assms(3) by simp
  with w' often_failing_rate [OF w'(2), of "elapsed (clock w') (clock w)"] show ?thesis
    by (simp add: load_run_def Let_def) (simp add: load_report_def Let_def)
qed

theorem default_workload_never_passes_witness:
  "\<exists>r. load_run 11 load_quick None (\<lambda>d o'. (0, o')) \<lparr>clock = 0, adapter = (), os = ()\<rparr> = Some r
     \<and> (lr_passed r \<longleftrightarrow> lr_total_requests r = 0)"
  by (rule default_workload_never_passes [of _ 10]) (simp_all add: load_quick_def)

lemma zero_rate_interval: "request_interval users (Fin 0) = None"
proof (cases "users = 0")
  case True
  then show ?thesis by (simp add: request_interval_def inf_of_sign_def f_of_nat_def)
next
  case False
  then have "0 < unat users" "unat users < 2 ^ 32" using unat_bound [of users] by (simp_all add: unat_gt_0)
  then show ?thesis
    by (simp add: request_interval_def inf_of_sign_def f_of_nat_small)
qed

lemma zero_rate_workers:
  "\<exists>w'. load_workers n (c\<lparr>lt_target_rps := Some (Fin 0)\<rparr>) h slp start test_end us w = Some w' \<and> adapter w' = adapter w"
proof (induction us arbitrary: w)
  case (Cons u us)
  let ?c = "c\<lparr>lt_target_rps := Some (Fin 0)\<rparr>"
  let ?w = "sleep slp (from_millis (unat (ramp_delay ?c * ucast u))) (w\<lparr>clock := start\<rparr>)"
  have "load_worker n ?c h slp test_end u (w\<lparr>clock := start\<rparr>) = Some ?w"
    by (simp add: load_worker_def zero_rate_interval Let_def)
  with Cons.IH [of "?w\<lparr>clock := max (clock w) (clock ?w)\<rparr>"] show ?case by simp
qed simp

text \<open>A target rate of zero requests per second makes every worker panic before its first request; the run
  ignores that, reports no requests, and passes.\<close>

theorem zero_rate_passes:
  "map_option (\<lambda>r. (lr_total_requests r, lr_passed r)) (load_run n (c\<lparr>lt_target_rps := Some (Fin 0)\<rparr>) h slp w)
   = Some (0, True)"
proof -
  have fresh: "often_failing load_metrics_default" "lm_total load_metrics_default = 0"
    by (simp_all add: often_failing_def load_metrics_default_def)
  then have "lr_passed (load_report took load_metrics_default)" for took
    by (simp add: often_failing_rate)
  moreover have "lr_total_requests (load_report took load_metrics_default) = 0" for took
    using fresh by (simp add: load_report_def Let_def)
  ultimately show ?thesis
    using zero_rate_workers [of n c h slp "clock w" "clock w + lt_ramp_up c + lt_duration c"
        "map of_nat [0..<unat (lt_concurrent_users c)]"
        "\<lparr>clock = clock w, adapter = load_metrics_default, os = os w\<rparr>"]
    by (auto simp: load_run_def Let_def)
qed

end
