(* ===== verification/Test_Load_Threads.thy ===== *)
theory Test_Load_Threads
  imports Test_Load
begin

text \<open>
  The load tester under threads, \<open>LoadTester::run\<close> of \<open>crates/duende-test/src/load.rs\<close>: every task is a
  program counter, and the tasks share the metrics, the clock and whatever the handler acts on. A step is one
  atomic access of one task, the order of the steps is any list of events, and time passes between them. What is
  proved holds for every such list.
\<close>

section \<open>Tasks\<close>

text \<open>
  The values a task carries: \<open>request_id\<close>, then \<open>req_start\<close>, the answer and the moment the answer is there, then
  the latency in microseconds. \<open>Checking\<close> is the top of the loop; \<open>Measured\<close> stands before the first
  \<open>fetch_add\<close>, \<open>Counted\<close> before the second, \<open>Pushing\<close> before the lock of the latencies, \<open>Recorded\<close> after
  \<open>record_success\<close> or \<open>record_failure\<close> has returned.
\<close>

datatype load_pc =
    Spawned
  | Ramping instant
  | Checking u64
  | Starting u64
  | Waiting u64 instant bool instant
  | Measured u64 bool u64
  | Counted u64 bool u64
  | Pushing u64 u64
  | Recorded u64
  | Pausing u64 instant
  | Finished u64

text \<open>The pause of the rate limit; \<open>None\<close> is the panic of \<open>from_secs_f64\<close>, which ends the task.\<close>

definition worker_interval :: "load_config \<Rightarrow> duration option option" where
  "worker_interval c =
     (case lt_target_rps c of
        None \<Rightarrow> Some None
      | Some rps \<Rightarrow> map_option Some (request_interval (lt_concurrent_users c) rps))"

definition out_of_requests :: "load_config \<Rightarrow> u64 \<Rightarrow> bool" where
  "out_of_requests c r = (case lt_requests_per_user c of Some m \<Rightarrow> ucast m \<le> r | None \<Rightarrow> False)"

text \<open>One step of a task; \<open>None\<close> while it sleeps and when it is finished.\<close>

fun load_move ::
  "load_config \<Rightarrow> 'w request_handler option \<Rightarrow> instant \<Rightarrow> u32 \<Rightarrow> load_pc \<Rightarrow> 'w load_world
   \<Rightarrow> (load_pc \<times> 'w load_world) option" where
  "load_move c h test_end u Spawned w =
     Some (Ramping (clock w + from_millis (unat (ramp_delay c * ucast u))), w)"
| "load_move c h test_end u (Ramping t) w =
     (if clock w < t then None
      else Some (case worker_interval c of None \<Rightarrow> Finished 0 | Some _ \<Rightarrow> Checking 0, w))"
| "load_move c h test_end u (Checking r) w =
     Some (if test_end \<le> clock w \<or> out_of_requests c r then Finished r else Starting r, w)"
| "load_move c h test_end u (Starting r) w =
     (case h of
        Some f \<Rightarrow>
          (case f u r (os w) of (ok, took, o') \<Rightarrow> Some (Waiting r (clock w) ok (clock w + took), w\<lparr>os := o'\<rparr>))
      | None \<Rightarrow> Some (Waiting r (clock w) (r mod 100 \<noteq> 0) (clock w + 100000), w))"
| "load_move c h test_end u (Waiting r start ok t) w =
     (if clock w < t then None else Some (Measured r ok (of_nat (as_micros (elapsed (clock w) start))), w))"
| "load_move c h test_end u (Measured r ok l) w =
     Some (Counted r ok l, w\<lparr>adapter := (adapter w)\<lparr>lm_total := lm_total (adapter w) + 1\<rparr>\<rparr>)"
| "load_move c h test_end u (Counted r ok l) w =
     Some (if ok
           then (Pushing r l, w\<lparr>adapter := (adapter w)\<lparr>lm_successful := lm_successful (adapter w) + 1\<rparr>\<rparr>)
           else (Recorded r, w\<lparr>adapter := (adapter w)\<lparr>lm_failed := lm_failed (adapter w) + 1\<rparr>\<rparr>))"
| "load_move c h test_end u (Pushing r l) w =
     Some (Recorded r, w\<lparr>adapter := (adapter w)\<lparr>lm_latencies := lm_latencies (adapter w) @ [l]\<rparr>\<rparr>)"
| "load_move c h test_end u (Recorded r) w =
     Some (case worker_interval c of Some (Some d) \<Rightarrow> Pausing (r + 1) (clock w + d) | _ \<Rightarrow> Checking (r + 1), w)"
| "load_move c h test_end u (Pausing r t) w = (if clock w < t then None else Some (Checking r, w))"
| "load_move c h test_end u (Finished r) w = None"

fun is_finished :: "load_pc \<Rightarrow> bool" where
  "is_finished (Finished _) = True"
| "is_finished _ = False"

section \<open>A run\<close>

datatype load_event = Work nat | Tick duration

type_synonym 'w load_state = "load_pc list \<times> 'w load_world"

fun load_step ::
  "load_config \<Rightarrow> 'w request_handler option \<Rightarrow> instant \<Rightarrow> 'w load_state \<Rightarrow> load_event \<Rightarrow> 'w load_state" where
  "load_step c h test_end (ps, w) (Work i) =
     (if i < length ps then
        (case load_move c h test_end (of_nat i) (ps ! i) w of
           Some (p, w') \<Rightarrow> (ps[i := p], w')
         | None \<Rightarrow> (ps, w))
      else (ps, w))"
| "load_step c h test_end (ps, w) (Tick d) = (ps, w\<lparr>clock := clock w + d\<rparr>)"

definition load_start :: "load_config \<Rightarrow> (unit, 'w) world \<Rightarrow> 'w load_state" where
  "load_start c w =
     (replicate (unat (lt_concurrent_users c)) Spawned,
      \<lparr>clock = clock w, adapter = load_metrics_default, os = os w\<rparr>)"

definition load_test_end :: "load_config \<Rightarrow> (unit, 'w) world \<Rightarrow> instant" where
  "load_test_end c w = clock w + lt_ramp_up c + lt_duration c"

abbreviation load_reached ::
  "load_config \<Rightarrow> 'w request_handler option \<Rightarrow> (unit, 'w) world \<Rightarrow> load_event list \<Rightarrow> 'w load_state" where
  "load_reached c h w es \<equiv> run (load_step c h (load_test_end c w)) (load_start c w) es"

text \<open>The run returns its report once every task is awaited; \<open>None\<close> before.\<close>

definition load_run_threads ::
  "load_config \<Rightarrow> 'w request_handler option \<Rightarrow> (unit, 'w) world \<Rightarrow> load_event list \<Rightarrow> load_report option" where
  "load_run_threads c h w es =
     (case load_reached c h w es of
        (ps, w') \<Rightarrow>
          if list_all is_finished ps then Some (load_report (elapsed (clock w') (clock w)) (adapter w')) else None)"

section \<open>Accounting\<close>

fun lp_request :: "load_pc \<Rightarrow> u64" where
  "lp_request Spawned = 0"
| "lp_request (Ramping _) = 0"
| "lp_request (Checking r) = r"
| "lp_request (Starting r) = r"
| "lp_request (Waiting r _ _ _) = r"
| "lp_request (Measured r _ _) = r"
| "lp_request (Counted r _ _) = r"
| "lp_request (Pushing r _) = r"
| "lp_request (Recorded r) = r"
| "lp_request (Pausing r _) = r"
| "lp_request (Finished r) = r"

text \<open>Between the two counters, between the second counter and the latencies, and before the next request.\<close>

fun lp_between :: "load_pc \<Rightarrow> bool" where
  "lp_between (Counted _ _ _) = True"
| "lp_between _ = False"

fun lp_unpushed :: "load_pc \<Rightarrow> bool" where
  "lp_unpushed (Pushing _ _) = True"
| "lp_unpushed _ = False"

fun lp_judged :: "load_pc \<Rightarrow> bool" where
  "lp_judged (Pushing _ _) = True"
| "lp_judged (Recorded _) = True"
| "lp_judged _ = False"

abbreviation one_if :: "bool \<Rightarrow> u64" where
  "one_if b \<equiv> (if b then 1 else 0)"

definition requests_judged :: "load_pc \<Rightarrow> u64" where
  "requests_judged p = lp_request p + one_if (lp_judged p)"

definition books_balance :: "'w load_state \<Rightarrow> bool" where
  "books_balance s \<longleftrightarrow>
     (let m = adapter (snd s); ps = fst s in
      lm_total m - (lm_successful m + lm_failed m) = (\<Sum>p\<leftarrow>ps. one_if (lp_between p))
      \<and> lm_successful m - of_nat (length (lm_latencies m)) = (\<Sum>p\<leftarrow>ps. one_if (lp_unpushed p))
      \<and> lm_successful m + lm_failed m = (\<Sum>p\<leftarrow>ps. requests_judged p))"

lemma load_move_balances:
  assumes "load_move c h test_end u p w = Some (p', w')"
  shows "lm_total (adapter w') - (lm_successful (adapter w') + lm_failed (adapter w')) - one_if (lp_between p')
      = lm_total (adapter w) - (lm_successful (adapter w) + lm_failed (adapter w)) - one_if (lp_between p)"
    and "lm_successful (adapter w') - of_nat (length (lm_latencies (adapter w'))) - one_if (lp_unpushed p')
      = lm_successful (adapter w) - of_nat (length (lm_latencies (adapter w))) - one_if (lp_unpushed p)"
    and "lm_successful (adapter w') + lm_failed (adapter w') - requests_judged p'
      = lm_successful (adapter w) + lm_failed (adapter w) - requests_judged p"
  using assms
  by (cases p; auto simp: requests_judged_def split: if_splits option.splits prod.splits)+

lemma load_step_balances [inv_intro]: "books_balance s \<Longrightarrow> books_balance (load_step c h test_end s e)"
proof (cases s)
  case (Pair ps w)
  assume balance: "books_balance s"
  show ?thesis
  proof (cases e)
    case (Tick d)
    with Pair balance show ?thesis by (simp add: books_balance_def)
  next
    case (Work i)
    show ?thesis
    proof (cases "i < length ps \<and> load_move c h test_end (of_nat i) (ps ! i) w \<noteq> None")
      case True
      then obtain p' w' where i: "i < length ps"
        and move: "load_move c h test_end (of_nat i) (ps ! i) w = Some (p', w')" by auto
      note kept = load_move_balances [OF move]
      from balance have "books_balance (ps, w)" using Pair by simp
      then have "books_balance (ps[i := p'], w')"
        unfolding books_balance_def Let_def fst_conv snd_conv
        using sum_list_map_kept [OF _ i kept(1)] sum_list_map_kept [OF _ i kept(2)] sum_list_map_kept [OF _ i kept(3)]
        by blast
      with i move show ?thesis by (simp add: Pair Work)
    next
      case False
      with Pair Work balance show ?thesis by (auto split: option.split)
    qed
  qed
qed

interpretation load_books: invariant_machine "load_step c h test_end" books_balance
  by unfold_locales (rule load_step_balances)

lemma load_start_balances [inv_intro]: "books_balance (load_start c w)"
  by (simp add: books_balance_def load_start_def load_metrics_default_def requests_judged_def sum_list_replicate)

lemma sum_one_if: "(\<Sum>x\<leftarrow>xs. one_if (P x)) = of_nat (length (filter P xs))"
  by (induction xs) simp_all

lemma percentile_mono:
  assumes "sorted xs" "p \<le> q"
  shows "percentile xs p \<le> percentile xs q"
proof (cases "xs = []")
  case False
  have "length xs * p div 100 \<le> length xs * q div 100" using assms(2) by (intro div_le_mono) simp
  then have "min (length xs * p div 100) (length xs - 1) \<le> min (length xs * q div 100) (length xs - 1)" by simp
  moreover have "min (length xs * q div 100) (length xs - 1) < length xs" using False by (cases xs) auto
  ultimately show ?thesis using False assms(1) by (simp add: percentile_def sorted_nth_mono)
qed (simp add: percentile_def)

lemma books_closed:
  assumes "books_balance (ps, w)" "list_all is_finished ps"
  shows "lm_total (adapter w) = lm_successful (adapter w) + lm_failed (adapter w)"
    and "lm_total (adapter w) = (\<Sum>p\<leftarrow>ps. lp_request p)"
proof -
  have closed: "\<not> lp_between p" "requests_judged p = lp_request p" if "p \<in> set ps" for p
    using assms(2) that by (cases p; auto simp: list_all_iff requests_judged_def)+
  from closed have "filter lp_between ps = []" "map requests_judged ps = map lp_request ps"
    by (auto simp: filter_empty_conv)
  with assms(1) show "lm_total (adapter w) = lm_successful (adapter w) + lm_failed (adapter w)"
    "lm_total (adapter w) = (\<Sum>p\<leftarrow>ps. lp_request p)"
    by (simp_all add: books_balance_def Let_def sum_one_if)
qed

text \<open>C29: Whatever the order of the steps: at every moment the total exceeds the successes and failures by the
  tasks that stand between the two counters, the successes exceed the latencies by the tasks that have not pushed
  theirs, and a report, once there is one, has its total the sum of successes and failures and its percentiles
  in order.\<close>

theorem load_accounts_under_threads:
  "(case load_reached c h w es of
      (ps, w') \<Rightarrow>
        lm_total (adapter w')
          = lm_successful (adapter w') + lm_failed (adapter w') + of_nat (length (filter lp_between ps))
        \<and> lm_successful (adapter w') = of_nat (length (lm_latencies (adapter w')) + length (filter lp_unpushed ps)))
   \<and> (case load_run_threads c h w es of
        None \<Rightarrow> True
      | Some r \<Rightarrow>
          lr_total_requests r = lr_successful r + lr_failed r \<and> lr_p50_us r \<le> lr_p95_us r \<and> lr_p95_us r \<le> lr_p99_us r)"
proof -
  obtain ps w' where s: "load_reached c h w es = (ps, w')" by (cases "load_reached c h w es")
  have balance: "books_balance (ps, w')"
    using load_books.run_good [OF load_start_balances, where es = es] s by metis
  then have "lm_total (adapter w')
      = lm_successful (adapter w') + lm_failed (adapter w') + of_nat (length (filter lp_between ps))"
    "lm_successful (adapter w') = of_nat (length (lm_latencies (adapter w')) + length (filter lp_unpushed ps))"
    by (simp_all add: books_balance_def Let_def sum_one_if algebra_simps)
  moreover have "case load_run_threads c h w es of None \<Rightarrow> True | Some r \<Rightarrow>
      lr_total_requests r = lr_successful r + lr_failed r \<and> lr_p50_us r \<le> lr_p95_us r \<and> lr_p95_us r \<le> lr_p99_us r"
    using books_closed [OF balance] by (simp add: load_run_threads_def s load_report_def Let_def percentile_mono)
  ultimately show ?thesis by (simp add: s)
qed

section \<open>The number of steps\<close>

text \<open>With a limit of requests per user: the requests left, and what is left of the current one.\<close>

fun within_limit :: "u32 \<Rightarrow> load_pc \<Rightarrow> bool" where
  "within_limit m (Starting r) = (unat r < unat m)"
| "within_limit m (Waiting r _ _ _) = (unat r < unat m)"
| "within_limit m (Measured r _ _) = (unat r < unat m)"
| "within_limit m (Counted r _ _) = (unat r < unat m)"
| "within_limit m (Pushing r _) = (unat r < unat m)"
| "within_limit m (Recorded r) = (unat r < unat m)"
| "within_limit m p = (unat (lp_request p) \<le> unat m)"

fun steps_left :: "u32 \<Rightarrow> load_pc \<Rightarrow> nat" where
  "steps_left m Spawned = 8 * unat m + 3"
| "steps_left m (Ramping _) = 8 * unat m + 2"
| "steps_left m (Checking r) = 8 * (unat m - unat r) + 1"
| "steps_left m (Starting r) = 8 * (unat m - unat r)"
| "steps_left m (Waiting r _ _ _) = 8 * (unat m - unat r) - 1"
| "steps_left m (Measured r _ _) = 8 * (unat m - unat r) - 2"
| "steps_left m (Counted r _ _) = 8 * (unat m - unat r) - 3"
| "steps_left m (Pushing r _) = 8 * (unat m - unat r) - 4"
| "steps_left m (Recorded r) = 8 * (unat m - unat r) - 5"
| "steps_left m (Pausing r _) = 8 * (unat m - unat r) + 2"
| "steps_left m (Finished _) = 0"

lemma out_of_requests_iff:
  "lt_requests_per_user c = Some m \<Longrightarrow> out_of_requests c r \<longleftrightarrow> unat m \<le> unat r"
  by (simp add: out_of_requests_def word_le_nat_alt unat_ucast_wider)

lemma next_request: "unat r < unat (m :: u32) \<Longrightarrow> unat (r + 1 :: u64) = Suc (unat r)"
  using unat_bound [of m] by (intro unat_suc_in_range) simp

lemma load_move_limit:
  assumes "lt_requests_per_user c = Some m" "within_limit m p" "load_move c h test_end u p w = Some (p', w')"
  shows "within_limit m p'" and "steps_left m p' < steps_left m p"
  using assms
  by (cases p; auto simp: out_of_requests_iff next_request split: if_splits option.splits prod.splits)+

fun moves_on ::
  "load_config \<Rightarrow> 'w request_handler option \<Rightarrow> instant \<Rightarrow> 'w load_state \<Rightarrow> load_event \<Rightarrow> bool" where
  "moves_on c h test_end (ps, w) (Work i) \<longleftrightarrow>
     i < length ps \<and> load_move c h test_end (of_nat i) (ps ! i) w \<noteq> None"
| "moves_on c h test_end s (Tick d) = False"

fun load_moves ::
  "load_config \<Rightarrow> 'w request_handler option \<Rightarrow> instant \<Rightarrow> 'w load_state \<Rightarrow> load_event list \<Rightarrow> nat" where
  "load_moves c h test_end s [] = 0"
| "load_moves c h test_end s (e # es) =
     (if moves_on c h test_end s e then 1 else 0) + load_moves c h test_end (load_step c h test_end s e) es"

lemma load_moves_length: "load_moves c h test_end s es \<le> length es"
proof (induction es arbitrary: s)
  case (Cons e es)
  from Cons.IH [of "load_step c h test_end s e"] show ?case by simp
qed simp

definition all_within :: "u32 \<Rightarrow> 'w load_state \<Rightarrow> bool" where
  "all_within m s \<longleftrightarrow> list_all (within_limit m) (fst s)"

definition all_left :: "u32 \<Rightarrow> 'w load_state \<Rightarrow> nat" where
  "all_left m s = (\<Sum>p\<leftarrow>fst s. steps_left m p)"

lemma load_step_limit:
  assumes "lt_requests_per_user c = Some m" "all_within m s"
  shows "all_within m (load_step c h test_end s e)"
    and "all_left m (load_step c h test_end s e) + (if moves_on c h test_end s e then 1 else 0) \<le> all_left m s"
proof -
  obtain ps w where s: "s = (ps, w)" by (cases s)
  have "all_within m (load_step c h test_end s e) \<and>
    all_left m (load_step c h test_end s e) + (if moves_on c h test_end s e then 1 else 0) \<le> all_left m s"
  proof (cases "moves_on c h test_end s e")
    case True
    then obtain i p' w' where e: "e = Work i" and i: "i < length ps"
      and move: "load_move c h test_end (of_nat i) (ps ! i) w = Some (p', w')"
      by (cases e) (auto simp: s)
    have "within_limit m (ps ! i)" using assms(2) i by (simp add: s all_within_def list_all_length)
    note limit = load_move_limit [OF assms(1) this move]
    have "list_all (within_limit m) (ps[i := p'])"
      using assms(2) limit(1) by (simp add: s all_within_def list_all_update)
    moreover have "sum_list (map (steps_left m) (ps[i := p'])) < sum_list (map (steps_left m) ps)"
      using sum_list_map_less [of i ps "steps_left m" p'] i limit(2) by simp
    ultimately show ?thesis using True by (simp add: s e i move all_within_def all_left_def)
  next
    case False
    then have "fst (load_step c h test_end s e) = ps" by (cases e) (auto simp: s split: option.split)
    with False assms(2) show ?thesis by (simp add: s all_within_def all_left_def)
  qed
  then show "all_within m (load_step c h test_end s e)"
    "all_left m (load_step c h test_end s e) + (if moves_on c h test_end s e then 1 else 0) \<le> all_left m s" by auto
qed

lemma load_moves_bounded:
  assumes "lt_requests_per_user c = Some m"
  shows "all_within m s \<Longrightarrow> all_within m (run (load_step c h test_end) s es)
    \<and> all_left m (run (load_step c h test_end) s es) + load_moves c h test_end s es \<le> all_left m s"
proof (induction es arbitrary: s)
  case (Cons e es)
  from load_step_limit [OF assms Cons.prems, of h test_end e] Cons.IH [of "load_step c h test_end s e"]
  show ?case by auto
qed simp

text \<open>A task that is not finished moves, if need be after its deadline has passed.\<close>

lemma load_move_enabled:
  "\<not> is_finished p \<Longrightarrow> \<exists>d. load_move c h test_end u p (w\<lparr>clock := clock w + d\<rparr>) \<noteq> None"
proof (cases p)
  case (Ramping t)
  then show ?thesis by (intro exI [of _ t]) simp
next
  case (Waiting r start ok t)
  then show ?thesis by (intro exI [of _ t]) simp
next
  case (Pausing r t)
  then show ?thesis by (intro exI [of _ t]) simp
qed (auto split: option.split prod.split)

lemma load_not_stuck:
  assumes "\<not> list_all is_finished (fst s)"
  shows "\<exists>d i. moves_on c h test_end (load_step c h test_end s (Tick d)) (Work i)"
proof -
  obtain ps w where s: "s = (ps, w)" by (cases s)
  from assms obtain i where i: "i < length ps" "\<not> is_finished (ps ! i)" by (auto simp: s list_all_length)
  with load_move_enabled [of "ps ! i" c h test_end "of_nat i" w] show ?thesis by (auto simp: s)
qed

lemma load_finishes:
  assumes "lt_requests_per_user c = Some m"
  shows "all_within m s \<Longrightarrow> \<exists>fs. list_all is_finished (fst (run (load_step c h test_end) s fs))"
proof (induction "all_left m s" arbitrary: s rule: less_induct)
  case less
  show ?case
  proof (cases "list_all is_finished (fst s)")
    case True
    then show ?thesis by (intro exI [of _ "[]"]) simp
  next
    case False
    then obtain d i where moves: "moves_on c h test_end (load_step c h test_end s (Tick d)) (Work i)"
      using load_not_stuck by blast
    let ?s1 = "load_step c h test_end s (Tick d)" and ?s2 = "run (load_step c h test_end) s [Tick d, Work i]"
    have tick: "all_within m ?s1" "all_left m ?s1 \<le> all_left m s"
      using load_step_limit [OF assms less.prems, of h test_end "Tick d"] by simp_all
    from load_step_limit [OF assms tick(1), of h test_end "Work i"] moves tick(2)
    have "all_within m ?s2" "all_left m ?s2 < all_left m s" by simp_all
    with less.hyps obtain fs where "list_all is_finished (fst (run (load_step c h test_end) ?s2 fs))" by blast
    then show ?thesis by (intro exI [of _ "[Tick d, Work i] @ fs"]) (simp only: run_append)
  qed
qed

lemma load_start_within: "all_within m (load_start c w)"
  by (simp add: all_within_def load_start_def list_all_iff)

lemma load_start_left: "all_left m (load_start c w) = unat (lt_concurrent_users c) * (8 * unat m + 3)"
  by (simp add: all_left_def load_start_def sum_list_replicate)

text \<open>C30: With a limit of requests per user no order of the steps makes the run go on for ever: the tasks
  together move at most eight times per request and three times more, and from wherever they are, time passing
  and the tasks moving brings the report.\<close>

theorem load_run_ends_under_threads:
  assumes "lt_requests_per_user c = Some m"
  shows "load_moves c h (load_test_end c w) (load_start c w) es \<le> unat (lt_concurrent_users c) * (8 * unat m + 3)
    \<and> (\<exists>fs r. load_run_threads c h w (es @ fs) = Some r)"
proof
  note bounded = load_moves_bounded [OF assms load_start_within [of m c w], of h "load_test_end c w" es]
  then show "load_moves c h (load_test_end c w) (load_start c w) es \<le> unat (lt_concurrent_users c) * (8 * unat m + 3)"
    by (simp add: load_start_left)
  from bounded obtain fs where "list_all is_finished (fst (load_reached c h w (es @ fs)))"
    using load_finishes [OF assms, of "load_reached c h w es" h "load_test_end c w"] by auto
  then show "\<exists>fs r. load_run_threads c h w (es @ fs) = Some r"
    by (intro exI [of _ fs]) (auto simp: load_run_threads_def split: prod.split)
qed

theorem load_run_ends_under_threads_witness:
  "load_moves load_quick (Some (\<lambda>u r o'. (True, 5, o'))) 600000000 (load_start load_quick \<lparr>clock = 0, adapter = (), os = ()\<rparr>)
     [Work 0, Work 1, Work 0, Tick 100000000, Work 1] \<le> 4 * 83
   \<and> (\<exists>fs r. load_run_threads load_quick (Some (\<lambda>u r o'. (True, 5, o'))) \<lparr>clock = 0, adapter = (), os = ()\<rparr>
        ([Work 0, Work 1, Work 0, Tick 100000000, Work 1] @ fs) = Some r)"
  using load_run_ends_under_threads [of load_quick 10 "Some (\<lambda>u r o'. (True, 5, o'))" "\<lparr>clock = 0, adapter = (), os = ()\<rparr>"
      "[Work 0, Work 1, Work 0, Tick 100000000, Work 1]"]
  by (simp add: load_quick_def load_test_end_def del: load_moves.simps run.simps append.simps)

lemma load_step_length [simp]: "length (fst (load_step c h t s e)) = length (fst s)"
  by (cases "(c, h, t, s, e)" rule: load_step.cases) (auto split: option.split)

lemma run_load_length [simp]: "length (fst (run (load_step c h t) s es)) = length (fst s)"
  by (induction es arbitrary: s) simp_all

lemma sum_list_bounded: "(\<And>x. x \<in> set xs \<Longrightarrow> f x \<le> b) \<Longrightarrow> (\<Sum>x\<leftarrow>xs. f x) \<le> length xs * (b :: nat)"
  by (induction xs) (auto intro: add_mono)

text \<open>Once the time is up: what a task has left of the request it is at.\<close>

fun steps_late :: "load_pc \<Rightarrow> nat" where
  "steps_late Spawned = 3"
| "steps_late (Ramping _) = 2"
| "steps_late (Checking _) = 1"
| "steps_late (Starting _) = 8"
| "steps_late (Waiting _ _ _ _) = 7"
| "steps_late (Measured _ _ _) = 6"
| "steps_late (Counted _ _ _) = 5"
| "steps_late (Pushing _ _) = 4"
| "steps_late (Recorded _) = 3"
| "steps_late (Pausing _ _) = 2"
| "steps_late (Finished _) = 0"

definition all_late :: "'w load_state \<Rightarrow> nat" where
  "all_late s = (\<Sum>p\<leftarrow>fst s. steps_late p)"

lemma load_move_late:
  assumes "test_end \<le> clock w" "load_move c h test_end u p w = Some (p', w')"
  shows "test_end \<le> clock w'" and "steps_late p' < steps_late p"
  using assms by (cases p; auto split: if_splits option.splits prod.splits)+

lemma load_step_late:
  assumes "test_end \<le> clock (snd s)"
  shows "test_end \<le> clock (snd (load_step c h test_end s e))"
    and "all_late (load_step c h test_end s e) + (if moves_on c h test_end s e then 1 else 0) \<le> all_late s"
proof -
  obtain ps w where s: "s = (ps, w)" by (cases s)
  have "test_end \<le> clock (snd (load_step c h test_end s e)) \<and>
    all_late (load_step c h test_end s e) + (if moves_on c h test_end s e then 1 else 0) \<le> all_late s"
  proof (cases "moves_on c h test_end s e")
    case True
    then obtain i p' w' where e: "e = Work i" and i: "i < length ps"
      and move: "load_move c h test_end (of_nat i) (ps ! i) w = Some (p', w')"
      by (cases e) (auto simp: s)
    have "test_end \<le> clock w" using assms by (simp add: s)
    note late = load_move_late [OF this move]
    have "sum_list (map steps_late (ps[i := p'])) < sum_list (map steps_late ps)"
      using sum_list_map_less [of i ps steps_late p'] i late(2) by simp
    then show ?thesis using True late(1) by (simp add: s e i move all_late_def)
  next
    case False
    with assms show ?thesis by (cases e) (auto simp: s all_late_def split: option.split)
  qed
  then show "test_end \<le> clock (snd (load_step c h test_end s e))"
    "all_late (load_step c h test_end s e) + (if moves_on c h test_end s e then 1 else 0) \<le> all_late s" by auto
qed

lemma load_moves_late:
  "test_end \<le> clock (snd s) \<Longrightarrow> all_late (run (load_step c h test_end) s es) + load_moves c h test_end s es \<le> all_late s"
proof (induction es arbitrary: s)
  case (Cons e es)
  from load_step_late [OF Cons.prems, of c h e] Cons.IH [of "load_step c h test_end s e"] show ?case by auto
qed simp

lemma load_finishes_late:
  "test_end \<le> clock (snd s) \<Longrightarrow> \<exists>fs. list_all is_finished (fst (run (load_step c h test_end) s fs))"
proof (induction "all_late s" arbitrary: s rule: less_induct)
  case less
  show ?case
  proof (cases "list_all is_finished (fst s)")
    case True
    then show ?thesis by (intro exI [of _ "[]"]) simp
  next
    case False
    then obtain d i where moves: "moves_on c h test_end (load_step c h test_end s (Tick d)) (Work i)"
      using load_not_stuck by blast
    let ?s1 = "load_step c h test_end s (Tick d)" and ?s2 = "run (load_step c h test_end) s [Tick d, Work i]"
    have tick: "test_end \<le> clock (snd ?s1)" "all_late ?s1 \<le> all_late s"
      using load_step_late [OF less.prems, of c h "Tick d"] by simp_all
    from load_step_late [OF tick(1), of c h "Work i"] moves tick(2)
    have "test_end \<le> clock (snd ?s2)" "all_late ?s2 < all_late s" by simp_all
    with less.hyps obtain fs where "list_all is_finished (fst (run (load_step c h test_end) ?s2 fs))" by blast
    then show ?thesis by (intro exI [of _ "[Tick d, Work i] @ fs"]) (simp only: run_append)
  qed
qed

lemma all_late_bound: "all_late s \<le> length (fst s) * 8"
  unfolding all_late_def
proof (rule sum_list_bounded)
  show "steps_late p \<le> 8" for p by (cases p) simp_all
qed

text \<open>When the time is up the run comes to its end, with or without a limit of requests: from then on the tasks together
  move at most eight times each, in whatever order, and however far they have come, time passing and the
  tasks moving brings the report.\<close>

theorem load_run_ends_after_time:
  assumes "load_test_end c w \<le> clock (snd (load_reached c h w es))"
  shows "load_moves c h (load_test_end c w) (load_reached c h w es) fs \<le> unat (lt_concurrent_users c) * 8
    \<and> (\<exists>gs r. load_run_threads c h w (es @ fs @ gs) = Some r)"
proof
  let ?s = "load_reached c h w es"
  have "length (fst ?s) = unat (lt_concurrent_users c)" by (simp add: load_start_def)
  with load_moves_late [OF assms, of c h fs] all_late_bound [of ?s]
  show "load_moves c h (load_test_end c w) ?s fs \<le> unat (lt_concurrent_users c) * 8" by linarith
  have "load_test_end c w \<le> clock (snd (run (load_step c h (load_test_end c w)) ?s fs))"
    using assms by (induction fs arbitrary: es rule: rev_induct) (simp_all add: load_step_late(1) del: load_step.simps)
  then obtain gs where "list_all is_finished (fst (load_reached c h w (es @ fs @ gs)))"
    using load_finishes_late [of "load_test_end c w" "run (load_step c h (load_test_end c w)) ?s fs" c h] by auto
  then show "\<exists>gs r. load_run_threads c h w (es @ fs @ gs) = Some r"
    by (intro exI [of _ gs]) (auto simp: load_run_threads_def split: prod.split)
qed

theorem load_run_ends_after_time_witness:
  "\<exists>gs r. load_run_threads load_light (Some (\<lambda>u k o'. (True, 5, o'))) \<lparr>clock = 0, adapter = (), os = ()\<rparr>
     ([Tick 36000000000] @ [Work 0, Work 1] @ gs) = Some r"
proof -
  let ?w = "\<lparr>clock = 0, adapter = (), os = ()\<rparr>" and ?h = "Some (\<lambda>u k o'. (True, 5, o')) :: unit request_handler option"
  have "load_test_end load_light ?w \<le> clock (snd (load_reached load_light ?h ?w [Tick 36000000000]))"
    by (simp add: load_light_def load_default_def load_test_end_def load_start_def)
  from load_run_ends_after_time [OF this, of "[Work 0, Work 1]"] show ?thesis by blast
qed

section \<open>The default workload\<close>

text \<open>Without a handler the answer is a function of the request, so the failures of a task are, too.\<close>

fun default_answer :: "load_pc \<Rightarrow> bool" where
  "default_answer (Waiting r _ ok _) = (ok \<longleftrightarrow> r mod 100 \<noteq> 0)"
| "default_answer (Measured r ok _) = (ok \<longleftrightarrow> r mod 100 \<noteq> 0)"
| "default_answer (Counted r ok _) = (ok \<longleftrightarrow> r mod 100 \<noteq> 0)"
| "default_answer p = True"

definition failures_of :: "load_pc \<Rightarrow> nat" where
  "failures_of p = hundredths (unat (lp_request p) + (if lp_judged p then 1 else 0))"

lemma load_move_default:
  assumes "default_answer p" "unat (lp_request p) < 2 ^ 53"
    and "load_move c None test_end u p w = Some (p', w')"
  shows "default_answer p'"
    and "lm_failed (adapter w') - of_nat (failures_of p') = lm_failed (adapter w) - of_nat (failures_of p)"
    and "unat (lp_request p') \<le> Suc (unat (lp_request p))"
proof -
  have mod: "r mod 100 = 0 \<longleftrightarrow> unat r mod 100 = 0" for r :: u64
    by (simp add: unat_eq_0 [symmetric] unat_mod)
  have suc: "unat (r + 1 :: u64) = Suc (unat r)" if "unat r < 2 ^ 53" for r :: u64
    using that by (intro unat_suc_in_range) simp
  show "default_answer p'"
    and "lm_failed (adapter w') - of_nat (failures_of p') = lm_failed (adapter w) - of_nat (failures_of p)"
    and "unat (lp_request p') \<le> Suc (unat (lp_request p))"
    using assms
    by (cases p; auto simp: failures_of_def suc mod hundredths_Suc split: if_splits option.splits)+
qed

text \<open>The requests are no more than the steps taken, so their number does not wrap in \<open>2 ^ 53\<close> steps.\<close>

definition default_books :: "nat \<Rightarrow> 'w load_state \<Rightarrow> bool" where
  "default_books n s \<longleftrightarrow>
     list_all default_answer (fst s) \<and> (\<Sum>p\<leftarrow>fst s. unat (lp_request p)) \<le> n
     \<and> lm_failed (adapter (snd s)) = (\<Sum>p\<leftarrow>fst s. of_nat (failures_of p))"

lemma load_step_default:
  assumes "default_books n s" "n + (if moves_on c None test_end s e then 1 else 0) \<le> 2 ^ 53"
  shows "default_books (n + (if moves_on c None test_end s e then 1 else 0)) (load_step c None test_end s e)"
proof -
  obtain ps w where s: "s = (ps, w)" by (cases s)
  show ?thesis
  proof (cases "moves_on c None test_end s e")
    case True
    then obtain i p' w' where e: "e = Work i" and i: "i < length ps"
      and move: "load_move c None test_end (of_nat i) (ps ! i) w = Some (p', w')"
      by (cases e) (auto simp: s)
    have answer: "default_answer (ps ! i)" using assms(1) i by (simp add: s default_books_def list_all_length)
    have total: "(\<Sum>p\<leftarrow>ps. unat (lp_request p)) \<le> n" using assms(1) by (simp add: s default_books_def)
    have "unat (lp_request (ps ! i)) \<le> (\<Sum>p\<leftarrow>ps. unat (lp_request p))"
      using i by (intro member_le_sum_list) auto
    then have "unat (lp_request (ps ! i)) < 2 ^ 53" using total assms(2) True by simp
    note kept = load_move_default [OF answer this move]
    have "(\<Sum>p\<leftarrow>ps[i := p']. unat (lp_request p)) \<le> Suc (\<Sum>p\<leftarrow>ps. unat (lp_request p))"
      using sum_list_update [of i "map (\<lambda>p. unat (lp_request p)) ps" "unat (lp_request p')"] i kept(3)
        elem_le_sum_list [of i "map (\<lambda>p. unat (lp_request p)) ps"] by (simp add: map_update)
    moreover have "lm_failed (adapter w') = (\<Sum>p\<leftarrow>ps[i := p']. of_nat (failures_of p))"
      using sum_list_map_kept [OF _ i kept(2)] assms(1) by (simp add: s default_books_def)
    ultimately show ?thesis
      using assms(1) total kept(1) True by (simp add: s e i move default_books_def list_all_update)
  next
    case False
    with assms(1) show ?thesis by (cases e) (auto simp: s default_books_def split: option.split)
  qed
qed

lemma load_start_default: "default_books 0 (load_start c w)"
  by (simp add: default_books_def load_start_def load_metrics_default_def failures_of_def list_all_iff sum_list_replicate)

lemma run_default:
  "default_books n s \<Longrightarrow> n + load_moves c None t s es \<le> 2 ^ 53
    \<Longrightarrow> default_books (n + load_moves c None t s es) (run (load_step c None t) s es)"
proof (induction es arbitrary: n s)
  case (Cons e es)
  let ?d = "if moves_on c None t s e then 1 else 0 :: nat"
  have "n + ?d \<le> 2 ^ 53" using Cons.prems(2) unfolding load_moves.simps by linarith
  note step = load_step_default [OF Cons.prems(1) this]
  have "n + ?d + load_moves c None t (load_step c None t s e) es \<le> 2 ^ 53"
    using Cons.prems(2) unfolding load_moves.simps by linarith
  from Cons.IH [OF step this] show ?case unfolding load_moves.simps run.simps by (simp only: add.assoc)
qed simp

lemma sum_of_nat: "(\<Sum>x\<leftarrow>xs. of_nat (f x)) = (of_nat (\<Sum>x\<leftarrow>xs. f x) :: u64)"
  by (induction xs) simp_all

lemma default_often_failing:
  assumes "default_books n (ps, w)" "books_balance (ps, w)" "list_all is_finished ps" "n \<le> 2 ^ 53"
  shows "often_failing (adapter w)" and "unat (lm_total (adapter w)) \<le> 2 ^ 53"
proof -
  let ?T = "\<Sum>p\<leftarrow>ps. unat (lp_request p)" and ?F = "\<Sum>p\<leftarrow>ps. failures_of p"
  have closed: "failures_of p = hundredths (unat (lp_request p))" if "p \<in> set ps" for p
    using assms(1,3) that by (cases p; auto simp: list_all_iff default_books_def failures_of_def)+
  have T: "?T \<le> 2 ^ 53" using assms(1,4) by (simp add: default_books_def)
  have "?F \<le> ?T" by (rule sum_list_mono) (simp add: closed hundredths_bounds(1))
  moreover have "?T \<le> (\<Sum>p\<leftarrow>ps. 100 * failures_of p)"
    by (rule sum_list_mono) (simp add: closed hundredths_bounds(2))
  then have "?T \<le> 100 * ?F" by (simp add: sum_list_const_mult)
  moreover have "lm_total (adapter w) = of_nat ?T"
    using books_closed(2) [OF assms(2,3)] by (simp flip: sum_of_nat)
  then have "unat (lm_total (adapter w)) = ?T" using T by (simp add: unat_of_nat)
  moreover have "lm_failed (adapter w) = of_nat ?F"
    using assms(1) by (simp add: default_books_def sum_of_nat)
  then have "unat (lm_failed (adapter w)) = ?F" using T \<open>?F \<le> ?T\<close> by (simp add: unat_of_nat)
  ultimately show "often_failing (adapter w)" "unat (lm_total (adapter w)) \<le> 2 ^ 53"
    using T by (simp_all add: often_failing_def)
qed

text \<open>C31: The verdict on the default workload does not depend on the order of the steps, nor on the configuration: a run
  that ends (after at most \<open>2 ^ 53\<close> steps of its tasks) passes exactly when it made no request.\<close>

theorem default_fails_under_threads:
  assumes "load_run_threads c None w es = Some r"
    and "load_moves c None (load_test_end c w) (load_start c w) es \<le> 2 ^ 53"
  shows "lr_passed r \<longleftrightarrow> lr_total_requests r = 0"
proof -
  obtain ps w' where s: "load_reached c None w es = (ps, w')" by (cases "load_reached c None w es")
  have "default_books (0 + load_moves c None (load_test_end c w) (load_start c w) es) (load_reached c None w es)"
    by (rule run_default [OF load_start_default]) (simp only: add_0 assms(2))
  moreover have "books_balance (load_reached c None w es)" by (rule load_books.run_good [OF load_start_balances])
  ultimately have books: "default_books (load_moves c None (load_test_end c w) (load_start c w) es) (ps, w')"
      "books_balance (ps, w')" by (simp_all only: s add_0)
  have r: "list_all is_finished ps" "r = load_report (elapsed (clock w') (clock w)) (adapter w')"
    using assms(1) by (auto simp: load_run_threads_def s split: if_splits)
  show ?thesis
    using default_often_failing [OF books r(1) assms(2)] often_failing_rate [of "adapter w'"]
    by (simp add: r(2) load_report_def Let_def)
qed

text \<open>Two users without a limit of requests, for a tenth of a millisecond after the ramp.\<close>

definition two_users :: load_config where
  "two_users = load_quick\<lparr>lt_concurrent_users := 2, lt_requests_per_user := None, lt_duration := 100000\<rparr>"

theorem default_fails_under_threads_witness:
  "\<exists>r. load_run_threads two_users None \<lparr>clock = 0, adapter = (), os = ()\<rparr>
      ([Work 0, Work 1, Work 0, Work 0, Work 0, Tick 100000000, Work 1, Work 1, Work 0, Work 0, Work 1, Tick 100000]
       @ [Work 1, Work 0, Work 1, Work 1, Work 0, Work 0, Work 0, Work 1, Work 1]) = Some r
     \<and> lr_total_requests r = 2 \<and> \<not> lr_passed r"
proof -
  let ?es = "[Work 0, Work 1, Work 0, Work 0, Work 0, Tick 100000000, Work 1, Work 1, Work 0, Work 0, Work 1, Tick 100000]
       @ [Work 1, Work 0, Work 1, Work 1, Work 0, Work 0, Work 0, Work 1, Work 1]"
  let ?w = "\<lparr>clock = 0, adapter = (), os = ()\<rparr>"
  have start: "load_start two_users ?w = ([Spawned, Spawned], \<lparr>clock = 0, adapter = load_metrics_default, os = ()\<rparr>)"
    by (simp add: load_start_def two_users_def) (simp add: numeral_2_eq_2)
  have "list_all is_finished (fst (load_reached two_users None ?w ?es))
      \<and> lm_total (adapter (snd (load_reached two_users None ?w ?es))) = 2"
    unfolding start
    by (simp add: two_users_def load_quick_def load_test_end_def ramp_delay_def worker_interval_def
        out_of_requests_def load_metrics_default_def)
  then have "\<exists>r. load_run_threads two_users None ?w ?es = Some r \<and> lr_total_requests r = 2"
    by (auto simp: load_run_threads_def load_report_def Let_def split: prod.splits simp del: run.simps append.simps)
  moreover have "lr_passed r \<longleftrightarrow> lr_total_requests r = 0" if "load_run_threads two_users None ?w ?es = Some r" for r
  proof (rule default_fails_under_threads [OF that])
    have "length ?es \<le> 2 ^ 53" by simp
    then show "load_moves two_users None (load_test_end two_users ?w) (load_start two_users ?w) ?es \<le> 2 ^ 53"
      using load_moves_length order_trans by blast
  qed
  ultimately show ?thesis by auto
qed

section \<open>One user\<close>

text \<open>The loop of a worker on its own, \<open>load_loop\<close>, is what the steps of a single task add up to. Sleeping leaves
  what the handler acts on alone.\<close>

abbreviation only_task :: "load_pc \<Rightarrow> 'w load_world \<Rightarrow> 'w load_state" where
  "only_task p w \<equiv> ([p], w)"

definition reaches :: "load_config \<Rightarrow> 'w request_handler option \<Rightarrow> instant \<Rightarrow> 'w load_state \<Rightarrow> 'w load_state \<Rightarrow> bool" where
  "reaches c h t s s' \<longleftrightarrow> (\<exists>es. run (load_step c h t) s es = s')"

lemma reaches_refl [simp]: "reaches c h t s s"
  unfolding reaches_def by (rule exI [of _ "[]"]) simp

lemma reaches_step: "reaches c h t (load_step c h t s e) s' \<Longrightarrow> reaches c h t s s'"
  unfolding reaches_def by (metis run.simps(2))

lemma reaches_work: "load_move c h t 0 p w = Some (p', w') \<Longrightarrow> reaches c h t (only_task p' w') s' \<Longrightarrow> reaches c h t (only_task p w) s'"
  by (rule reaches_step [of _ _ _ _ "Work 0"]) simp

lemma reaches_tick: "reaches c h t (only_task p (w\<lparr>clock := clock w + d\<rparr>)) s' \<Longrightarrow> reaches c h t (only_task p w) s'"
  by (rule reaches_step [of _ _ _ _ "Tick d"]) simp

lemma reaches_trans: "reaches c h t s1 s2 \<Longrightarrow> reaches c h t s2 s3 \<Longrightarrow> reaches c h t s1 s3"
  unfolding reaches_def by (metis run_append)

lemma solo_record:
  "reaches c h t (only_task (Measured r ok l) w) (only_task (Recorded r) (w\<lparr>adapter := lm_record ok l (adapter w)\<rparr>))"
proof (cases ok)
  case True
  then show ?thesis
    by (intro reaches_work [of c h t "Measured r ok l" w, OF load_move.simps(6)])
      (rule reaches_work, simp, rule reaches_work, simp, simp add: lm_record_def lm_record_success_def)
next
  case False
  then show ?thesis
    by (intro reaches_work [of c h t "Measured r ok l" w, OF load_move.simps(6)])
      (rule reaches_work, simp, simp add: lm_record_def lm_record_failure_def)
qed

lemma solo_request:
  assumes "\<And>d x. snd (slp d x) = x" "load_request h slp 0 r w = (ok, w1)"
  shows "reaches c h t (only_task (Starting r) w)
    (only_task (Measured r ok (of_nat (as_micros (elapsed (clock w1) (clock w))))) w1)"
proof -
  let ?m = "only_task (Measured r ok (of_nat (as_micros (elapsed (clock w1) (clock w))))) w1"
  have answered: "reaches c h t (only_task (Waiting r (clock w) ok (clock w + d)) (w\<lparr>os := x\<rparr>)) ?m"
    if "w1 = w\<lparr>clock := clock w + d + e, os := x\<rparr>" for d e x
  proof (rule reaches_tick, rule reaches_work)
    show "load_move c h t 0 (Waiting r (clock w) ok (clock w + d)) (w\<lparr>os := x\<rparr>\<lparr>clock := clock (w\<lparr>os := x\<rparr>) + (d + e)\<rparr>)
        = Some (Measured r ok (of_nat (as_micros (elapsed (clock w1) (clock w)))), w1)"
      by (simp add: that add.assoc)
  qed simp
  show ?thesis
  proof (cases h)
    case None
    then have ok: "ok \<longleftrightarrow> r mod 100 \<noteq> 0"
      and w1: "w1 = w\<lparr>clock := clock w + 100000 + fst (slp 100000 (os w)), os := os w\<rparr>"
      using assms(2) by (auto simp: load_request_def sleep_as_tick [OF assms(1)] add.assoc)
    show ?thesis
    proof (rule reaches_work)
      show "load_move c h t 0 (Starting r) w = Some (Waiting r (clock w) ok (clock w + 100000), w\<lparr>os := os w\<rparr>)"
        by (simp add: None ok)
    qed (rule answered [OF w1])
  next
    case (Some f)
    obtain b took x where f: "f 0 r (os w) = (b, took, x)" by (metis prod_cases3)
    then have ok: "ok = b" and w1: "w1 = w\<lparr>clock := clock w + took + 0, os := x\<rparr>"
      using assms(2) Some by (auto simp: load_request_def)
    show ?thesis
    proof (rule reaches_work)
      show "load_move c h t 0 (Starting r) w = Some (Waiting r (clock w) ok (clock w + took), w\<lparr>os := x\<rparr>)"
        by (simp add: Some f ok)
    qed (rule answered [OF w1])
  qed
qed

lemma solo_loop:
  assumes "\<And>d x. snd (slp d x) = x" "worker_interval c = Some interval"
  shows "load_loop n c h slp t interval 0 r w = Some w' \<Longrightarrow>
    \<exists>k. reaches c h t (only_task (Checking r) w) (only_task (Finished k) w')"
proof (induction n arbitrary: r w)
  case (Suc n)
  show ?case
  proof (cases "t \<le> clock w \<or> out_of_requests c r")
    case True
    with Suc.prems have "w' = w" by (auto simp: out_of_requests_def split: option.splits if_splits)
    with True show ?thesis by (intro exI [of _ r]) (rule reaches_work, auto)
  next
    case False
    obtain ok w1 where request: "load_request h slp 0 r w = (ok, w1)" by (cases "load_request h slp 0 r w")
    define l :: u64 where "l = of_nat (as_micros (elapsed (clock w1) (clock w)))"
    define w2 where "w2 = w1\<lparr>adapter := lm_record ok l (adapter w1)\<rparr>"
    define w3 where "w3 = (case interval of Some d \<Rightarrow> sleep slp d w2 | None \<Rightarrow> w2)"
    have "load_loop n c h slp t interval 0 (r + 1) w3 = Some w'"
      using Suc.prems False request unfolding w3_def w2_def l_def
      by (cases "lt_requests_per_user c") (auto simp: out_of_requests_def Let_def)
    then obtain k where rest: "reaches c h t (only_task (Checking (r + 1)) w3) (only_task (Finished k) w')"
      using Suc.IH by blast
    have paused: "reaches c h t (only_task (Recorded r) w2) (only_task (Checking (r + 1)) w3)"
    proof (cases interval)
      case None
      then show ?thesis by (intro reaches_work [of c h t "Recorded r"]) (auto simp: assms(2) w3_def)
    next
      case (Some d)
      have "reaches c h t (only_task (Pausing (r + 1) (clock w2 + d)) w2) (only_task (Checking (r + 1)) w3)"
      proof (rule reaches_tick, rule reaches_work)
        show "load_move c h t 0 (Pausing (r + 1) (clock w2 + d))
            (w2\<lparr>clock := clock w2 + (d + fst (slp d (os w2)))\<rparr>) = Some (Checking (r + 1), w3)"
          by (simp add: w3_def Some sleep_as_tick [OF assms(1)])
      qed simp
      then show ?thesis by (intro reaches_work [of c h t "Recorded r"]) (auto simp: assms(2) Some)
    qed
    have "reaches c h t (only_task (Starting r) w) (only_task (Recorded r) w2)"
      unfolding w2_def l_def by (rule reaches_trans [OF solo_request [OF assms(1) request] solo_record])
    then have "reaches c h t (only_task (Starting r) w) (only_task (Finished k) w')"
      by (rule reaches_trans) (rule reaches_trans [OF paused rest])
    then show ?thesis using False by (intro exI [of _ k] reaches_work [of c h t "Checking r"]) auto
  qed
qed simp

text \<open>With a single user the run is one of the orders: whatever the sequential run reports, some list of events
  reports.\<close>

theorem solo_run_is_an_order:
  assumes "\<And>d x. snd (slp d x) = x" "lt_concurrent_users c = 1" "load_run n c h slp w = Some r"
  shows "\<exists>es. load_run_threads c h w es = Some r"
proof -
  let ?t = "load_test_end c w" and ?w = "\<lparr>clock = clock w, adapter = load_metrics_default, os = os w\<rparr>"
  let ?slept = "sleep slp (from_millis (unat (ramp_delay c * ucast (0 :: u32)))) ?w"
  obtain w' where worker: "load_worker n c h slp ?t 0 ?w = Some w'"
    and r: "r = load_report (elapsed (max (clock w) (clock w')) (clock w)) (adapter w')"
    using assms(2,3) by (auto simp: load_run_def Let_def load_test_end_def split: option.splits)
  have "reaches c h ?t (only_task Spawned ?w) (only_task (case worker_interval c of None \<Rightarrow> Finished 0 | Some _ \<Rightarrow> Checking 0) ?slept)"
  proof (rule reaches_work [OF load_move.simps(1)], rule reaches_tick, rule reaches_work)
    show "load_move c h ?t 0 (Ramping (clock ?w + from_millis (unat (ramp_delay c * ucast (0 :: u32)))))
        (?w\<lparr>clock := clock ?w + (from_millis (unat (ramp_delay c * ucast (0 :: u32))) + fst (slp (from_millis (unat (ramp_delay c * ucast (0 :: u32)))) (os ?w)))\<rparr>)
        = Some (case worker_interval c of None \<Rightarrow> Finished 0 | Some _ \<Rightarrow> Checking 0, ?slept)"
      by (simp add: sleep_as_tick [OF assms(1)])
  qed simp
  moreover have "\<exists>k. reaches c h ?t (only_task (case worker_interval c of None \<Rightarrow> Finished 0 | Some _ \<Rightarrow> Checking 0) ?slept)
      (only_task (Finished k) w')"
  proof (cases "worker_interval c")
    case None
    then show ?thesis using worker
      by (auto simp: load_worker_def worker_interval_def Let_def split: option.splits intro!: exI [of _ 0])
  next
    case (Some interval)
    then have "load_loop n c h slp ?t interval 0 0 ?slept = Some w'"
      using worker by (auto simp: load_worker_def worker_interval_def Let_def split: option.splits)
    from solo_loop [OF assms(1) Some this] Some show ?thesis by simp
  qed
  ultimately obtain k where "reaches c h ?t (only_task Spawned ?w) (only_task (Finished k) w')"
    using reaches_trans by blast
  then obtain es where es: "run (load_step c h ?t) (only_task Spawned ?w) es = only_task (Finished k) w'"
    by (auto simp: reaches_def)
  have "load_start c w = only_task Spawned ?w" by (simp add: load_start_def assms(2))
  then have "load_run_threads c h w es = Some (load_report (elapsed (clock w') (clock w)) (adapter w'))"
    by (simp add: load_run_threads_def es)
  then show ?thesis using r by (intro exI [of _ es]) (auto simp: max_def)
qed

end
