(* ===== verification/Manager_Tasks.thy ===== *)
theory Manager_Tasks
  imports Core_Manager "HOL-Library.Sublist"
begin

text \<open>
  The daemon manager under tasks, \<open>crates/duende-core/src/manager.rs\<close>: the methods of \<open>DaemonManager\<close> by the steps
  between which another task can run. A method takes the registry's \<open>RwLock\<close>, shared or exclusive, and then the
  \<open>Mutex\<close> of one entry; its guards are dropped when it returns, also by an error or a panic. \<open>Core_Manager\<close> has each method
  as one step; here it is shown that this is right whatever the order of the steps, when a step can be taken
  at all, and what a signal to a full channel holds up. The channels are bounded queues, as
  \<open>DaemonContext::new\<close> of \<open>daemon.rs\<close> makes them; the queueing order of the locks is left open. \<open>count\<close>,
  \<open>list\<close> and \<open>shutdown_all\<close> are no tasks of their own; they are in \<open>Core_Manager\<close> only.
\<close>

section \<open>Channels\<close>

record 'h channels =
  ch_queue :: "'h \<Rightarrow> signal list"
  ch_closed :: "'h \<Rightarrow> bool"

definition signal_capacity :: nat where
  "signal_capacity = 16"

definition chan_send :: "nat \<Rightarrow> ('h, 'h channels) sender" where
  "chan_send cap h s q =
     (if ch_closed q h then (Receiver_gone, q)
      else if length (ch_queue q h) < cap then (Delivered, q\<lparr>ch_queue := (ch_queue q)(h := ch_queue q h @ [s])\<rparr>)
      else (Never_completes, q))"

definition chan_receive :: "'h \<Rightarrow> 'h channels \<Rightarrow> 'h channels" where
  "chan_receive h q = q\<lparr>ch_queue := (ch_queue q)(h := tl (ch_queue q h))\<rparr>"

definition chan_close :: "'h \<Rightarrow> 'h channels \<Rightarrow> 'h channels" where
  "chan_close h q = q\<lparr>ch_closed := (ch_closed q)(h := True)\<rparr>"

section \<open>Calls\<close>

text \<open>The calls on one entry, with what they answer under its lock.\<close>

datatype 'h entry_call =
    EStatus
  | EUpdate daemon_status
  | ESetHandle 'h instant
  | EIncrement
  | EPolicy
  | ERestarts
  | EHealth health_status
  | EGetHealth

datatype 'h manager_task_call =
    CRegister daemon_id string daemon_config manager_policy
  | CUnregister daemon_id
  | CEntry daemon_id "'h entry_call"
  | CSignal daemon_id signal

datatype answer =
    AUnit
  | AId daemon_id
  | ACount u32
  | AStatus daemon_status
  | APolicy manager_policy
  | AHealth "health_status option"

fun is_write :: "'h manager_task_call \<Rightarrow> bool" where
  "is_write (CRegister _ _ _ _) = True"
| "is_write (CUnregister _) = True"
| "is_write _ = False"

fun call_id :: "'h manager_task_call \<Rightarrow> daemon_id" where
  "call_id (CRegister i _ _ _) = i"
| "call_id (CUnregister i) = i"
| "call_id (CEntry i _) = i"
| "call_id (CSignal i _) = i"

fun entry_run :: "build \<Rightarrow> 'h entry_call \<Rightarrow> 'h managed_daemon \<Rightarrow> ('io, answer) mresult \<times> 'h managed_daemon" where
  "entry_run bld EStatus d = (Ok (AStatus (md_status d)), d)"
| "entry_run bld (EUpdate s) d = (Ok AUnit, d\<lparr>md_status := s\<rparr>)"
| "entry_run bld (ESetHandle h now) d = (Ok AUnit, d\<lparr>md_context_handle := Some h, md_last_started := Some now\<rparr>)"
| "entry_run bld EIncrement d =
     (case uadd bld (md_restart_count d) 1 of
        Some n \<Rightarrow> (Ok (ACount n), d\<lparr>md_restart_count := n\<rparr>)
      | None \<Rightarrow> (Panic, d))"
| "entry_run bld EPolicy d = (Ok (APolicy (md_restart_policy d)), d)"
| "entry_run bld ERestarts d = (Ok (ACount (md_restart_count d)), d)"
| "entry_run bld (EHealth h) d = (Ok AUnit, d\<lparr>md_last_health := Some h\<rparr>)"
| "entry_run bld EGetHealth d = (Ok (AHealth (md_last_health d)), d)"

text \<open>What happens under the lock of an entry; \<open>None\<close> while a send waits for room.\<close>

fun under_lock ::
  "build \<Rightarrow> id_printer \<Rightarrow> nat \<Rightarrow> 'h manager_task_call \<Rightarrow> 'h managed_daemon \<Rightarrow> 'h channels
   \<Rightarrow> (('io, answer) mresult \<times> 'h managed_daemon \<times> 'h channels) option" where
  "under_lock bld p cap (CEntry i e) d q = (case entry_run bld e d of (r, d') \<Rightarrow> Some (r, d', q))"
| "under_lock bld p cap (CSignal i s) d q =
     (if \<not> can_signal (md_status d) then
        Some (Err (DState (''daemon '' @ p i @ '' cannot receive signals in state '' @ debug_status (md_status d))), d, q)
      else (case md_context_handle d of
          None \<Rightarrow> Some (Err (DState (''daemon '' @ p i @ '' has no context handle'')), d, q)
        | Some h \<Rightarrow>
            (case send_signal (chan_send cap) h s q of
               (Some r, q') \<Rightarrow> Some (and_then r (\<lambda>_. Ok AUnit), d, q')
             | (None, q') \<Rightarrow> None)))"
| "under_lock bld p cap _ d q = None"

section \<open>Tasks\<close>

text \<open>
  Where a task stands: before its lock of the registry, with it (shared or exclusive), with the entry's lock,
  and for \<open>unregister\<close> between dropping the entry's lock and removing the entry.
\<close>

datatype ('io, 'h) task_pc =
    Start "'h manager_task_call"
  | Reading "'h manager_task_call"
  | Locked "'h manager_task_call"
  | Writing "'h manager_task_call"
  | Checking daemon_id
  | Removing daemon_id
  | Returned "('io, answer) mresult"

datatype ('io, 'h) log_entry =
    Called nat "'h manager_task_call" "('io, answer) mresult"
  | Received 'h
  | Closed 'h

text \<open>\<open>ts_log\<close> is no part of the program: it says in which order the calls took effect.\<close>

record ('io, 'h) tasks_state =
  ts_pc :: "nat \<Rightarrow> ('io, 'h) task_pc"
  ts_registry :: "'h manager"
  ts_channels :: "'h channels"
  ts_readers :: "nat set"
  ts_writer :: "nat option"
  ts_held :: "daemon_id \<rightharpoonup> nat"
  ts_log :: "('io, 'h) log_entry list"

definition goes_to :: "nat \<Rightarrow> ('io, 'h) task_pc \<Rightarrow> ('io, 'h) tasks_state \<Rightarrow> ('io, 'h) tasks_state" where
  "goes_to t pc s = s\<lparr>ts_pc := (ts_pc s)(t := pc)\<rparr>"

text \<open>Returning drops every guard of the task.\<close>

definition finish ::
  "nat \<Rightarrow> 'h manager_task_call \<Rightarrow> ('io, answer) mresult \<Rightarrow> ('io, 'h) tasks_state \<Rightarrow> ('io, 'h) tasks_state" where
  "finish t c r s =
     s\<lparr>ts_pc := (ts_pc s)(t := Returned r),
       ts_readers := ts_readers s - {t},
       ts_writer := (if ts_writer s = Some t then None else ts_writer s),
       ts_held := (\<lambda>i. if ts_held s i = Some t then None else ts_held s i),
       ts_log := ts_log s @ [Called t c r]\<rparr>"

definition set_entry :: "daemon_id \<Rightarrow> 'h managed_daemon option \<Rightarrow> ('io, 'h) tasks_state \<Rightarrow> ('io, 'h) tasks_state" where
  "set_entry i d s = s\<lparr>ts_registry := (ts_registry s)\<lparr>daemons := (daemons (ts_registry s))(i := d)\<rparr>\<rparr>"

definition task_step ::
  "build \<Rightarrow> id_printer \<Rightarrow> nat \<Rightarrow> nat \<Rightarrow> ('io, 'h) tasks_state \<Rightarrow> ('io, 'h) tasks_state option" where
  "task_step bld p cap t s =
     (let entry = daemons (ts_registry s) in
      case ts_pc s t of
        Start c \<Rightarrow>
          if is_write c then
            (if ts_writer s = None \<and> ts_readers s = {} then Some (goes_to t (Writing c) (s\<lparr>ts_writer := Some t\<rparr>)) else None)
          else if ts_writer s = None then Some (goes_to t (Reading c) (s\<lparr>ts_readers := insert t (ts_readers s)\<rparr>)) else None
      | Reading c \<Rightarrow>
          (case entry (call_id c) of
             None \<Rightarrow> Some (finish t c (Err (DNotFound (p (call_id c)))) s)
           | Some d \<Rightarrow>
               if ts_held s (call_id c) = None
               then Some (goes_to t (Locked c) (s\<lparr>ts_held := (ts_held s)(call_id c \<mapsto> t)\<rparr>)) else None)
      | Locked c \<Rightarrow>
          (case entry (call_id c) of
             None \<Rightarrow> None
           | Some d \<Rightarrow>
               (case under_lock bld p cap c d (ts_channels s) of
                  None \<Rightarrow> None
                | Some (r, d', q) \<Rightarrow> Some (finish t c r (set_entry (call_id c) (Some d') (s\<lparr>ts_channels := q\<rparr>)))))
      | Writing c \<Rightarrow>
          (case c of
             CRegister i n config policy \<Rightarrow>
               Some (if entry i \<noteq> None
                     then finish t c (Err (DConfig (''daemon '' @ p i @ '' already registered''))) s
                     else finish t c (Ok (AId i))
                       (set_entry i (Some (with_restart_policy policy (managed_new i n config))) s))
           | CUnregister i \<Rightarrow>
               (case entry i of
                  None \<Rightarrow> Some (finish t c (Err (DNotFound (p i))) s)
                | Some d \<Rightarrow>
                    if ts_held s i = None then Some (goes_to t (Checking i) (s\<lparr>ts_held := (ts_held s)(i \<mapsto> t)\<rparr>)) else None)
           | _ \<Rightarrow> None)
      | Checking i \<Rightarrow>
          (case entry i of
             None \<Rightarrow> None
           | Some d \<Rightarrow>
               Some (if is_active (md_status d)
                     then finish t (CUnregister i) (Err (DState (''cannot unregister active daemon '' @ p i))) s
                     else goes_to t (Removing i) (s\<lparr>ts_held := (ts_held s)(i := None)\<rparr>)))
      | Removing i \<Rightarrow> Some (finish t (CUnregister i) (Ok AUnit) (set_entry i None s))
      | Returned r \<Rightarrow> None)"

datatype 'h task_event = Move nat | Receive 'h | Close 'h

fun tasks_event ::
  "build \<Rightarrow> id_printer \<Rightarrow> nat \<Rightarrow> ('io, 'h) tasks_state \<Rightarrow> 'h task_event \<Rightarrow> ('io, 'h) tasks_state" where
  "tasks_event bld p cap s (Move t) = (case task_step bld p cap t s of Some s' \<Rightarrow> s' | None \<Rightarrow> s)"
| "tasks_event bld p cap s (Receive h) =
     s\<lparr>ts_channels := chan_receive h (ts_channels s), ts_log := ts_log s @ [Received h]\<rparr>"
| "tasks_event bld p cap s (Close h) =
     s\<lparr>ts_channels := chan_close h (ts_channels s), ts_log := ts_log s @ [Closed h]\<rparr>"

definition tasks_start :: "(nat \<Rightarrow> 'h manager_task_call) \<Rightarrow> 'h manager \<Rightarrow> 'h channels \<Rightarrow> ('io, 'h) tasks_state" where
  "tasks_start calls m q =
     \<lparr>ts_pc = (\<lambda>t. Start (calls t)), ts_registry = m, ts_channels = q, ts_readers = {}, ts_writer = None,
      ts_held = (\<lambda>_. None), ts_log = []\<rparr>"

section \<open>The calls one after the other\<close>

text \<open>The methods of \<open>Core_Manager\<close>, each as one step; \<open>None\<close> for a send that waits for ever.\<close>

definition answers :: "('a \<Rightarrow> answer) \<Rightarrow> ('io, 'a) mresult \<times> 'm \<Rightarrow> 'q \<Rightarrow> (('io, answer) mresult \<times> 'm \<times> 'q) option" where
  "answers f rm q = (case rm of (r, m) \<Rightarrow> Some (and_then r (\<lambda>a. Ok (f a)), m, q))"

fun call_now ::
  "build \<Rightarrow> id_printer \<Rightarrow> nat \<Rightarrow> 'h manager_task_call \<Rightarrow> 'h manager \<Rightarrow> 'h channels
   \<Rightarrow> (('io, answer) mresult \<times> 'h manager \<times> 'h channels) option" where
  "call_now bld p cap (CRegister i n config policy) m q = answers AId (register p i n config policy m) q"
| "call_now bld p cap (CUnregister i) m q = answers (\<lambda>_. AUnit) (unregister p i m) q"
| "call_now bld p cap (CEntry i e) m q =
     (case e of
        EStatus \<Rightarrow> answers AStatus (status p i m, m) q
      | EUpdate s \<Rightarrow> answers (\<lambda>_. AUnit) (update_status p i s m) q
      | ESetHandle h now \<Rightarrow> answers (\<lambda>_. AUnit) (set_context_handle p i h now m) q
      | EIncrement \<Rightarrow> answers ACount (increment_restart_count bld p i m) q
      | EPolicy \<Rightarrow> answers APolicy (get_restart_policy p i m, m) q
      | ERestarts \<Rightarrow> answers ACount (get_restart_count p i m, m) q
      | EHealth h \<Rightarrow> answers (\<lambda>_. AUnit) (update_health p i h m) q
      | EGetHealth \<Rightarrow> answers AHealth (get_health p i m, m) q)"
| "call_now bld p cap (CSignal i s) m q =
     (case signal_daemon p (chan_send cap) i s m q of
        (Some r, q') \<Rightarrow> answers (\<lambda>_. AUnit) (r, m) q'
      | (None, q') \<Rightarrow> None)"

fun replay ::
  "build \<Rightarrow> id_printer \<Rightarrow> nat \<Rightarrow> ('io, 'h) log_entry list \<Rightarrow> 'h manager \<Rightarrow> 'h channels
   \<Rightarrow> ('h manager \<times> 'h channels) option" where
  "replay bld p cap [] m q = Some (m, q)"
| "replay bld p cap (Called t c r # es) m q =
     (case call_now bld p cap c m q of
        Some (r', m', q') \<Rightarrow> if r' = r then replay bld p cap es m' q' else None
      | None \<Rightarrow> None)"
| "replay bld p cap (Received h # es) m q = replay bld p cap es m (chan_receive h q)"
| "replay bld p cap (Closed h # es) m q = replay bld p cap es m (chan_close h q)"

lemma replay_append:
  "replay bld p cap (es @ fs) m q = (case replay bld p cap es m q of Some (m', q') \<Rightarrow> replay bld p cap fs m' q' | None \<Rightarrow> None)"
  by (induction bld p cap es m q rule: replay.induct) (auto split: option.splits)

lemma call_now_missing:
  "\<not> is_write c \<Longrightarrow> daemons m (call_id c) = None \<Longrightarrow> call_now bld p cap c m q = Some (Err (DNotFound (p (call_id c))), m, q)"
  by (cases c; simp add: answers_def signal_daemon_def find_daemon_def split: entry_call.split)
    (auto simp: status_def update_status_def set_context_handle_def increment_restart_count_def get_restart_policy_def
      get_restart_count_def update_health_def get_health_def modify_daemon_def find_daemon_def)

lemma call_now_locked:
  assumes "daemons m (call_id c) = Some d" "under_lock bld p cap c d q = Some (r, d', q')"
  shows "call_now bld p cap c m q = Some (r, m\<lparr>daemons := (daemons m)(call_id c \<mapsto> d')\<rparr>, q')"
proof -
  have same: "m\<lparr>daemons := (daemons m)(call_id c \<mapsto> d)\<rparr> = m" using assms(1) by (simp add: map_upd_triv)
  show ?thesis
  proof (cases c)
    case (CEntry i e)
    with assms same show ?thesis
      by (cases e)
        (auto simp: answers_def status_def update_status_def set_context_handle_def increment_restart_count_def
          get_restart_policy_def get_restart_count_def update_health_def get_health_def modify_daemon_def find_daemon_def
          split: option.splits)
  next
    case (CSignal i s)
    with assms same show ?thesis
      by (auto simp: answers_def signal_daemon_def find_daemon_def split: if_splits option.splits prod.splits)
  qed (use assms in simp_all)
qed

section \<open>Who holds what\<close>

fun holds_read :: "('io, 'h) task_pc \<Rightarrow> bool" where
  "holds_read (Reading _) = True"
| "holds_read (Locked _) = True"
| "holds_read _ = False"

fun holds_write :: "('io, 'h) task_pc \<Rightarrow> bool" where
  "holds_write (Writing _) = True"
| "holds_write (Checking _) = True"
| "holds_write (Removing _) = True"
| "holds_write _ = False"

fun holds_entry :: "('io, 'h) task_pc \<Rightarrow> daemon_id option" where
  "holds_entry (Locked c) = Some (call_id c)"
| "holds_entry (Checking i) = Some i"
| "holds_entry _ = None"

text \<open>What a task has found out, and what its locks keep true: the entry it locked is there, the one it is about to
  remove is there and inactive.\<close>

fun knows :: "'h manager \<Rightarrow> ('io, 'h) task_pc \<Rightarrow> bool" where
  "knows m (Reading c) \<longleftrightarrow> \<not> is_write c"
| "knows m (Locked c) \<longleftrightarrow> \<not> is_write c \<and> daemons m (call_id c) \<noteq> None"
| "knows m (Writing c) \<longleftrightarrow> is_write c"
| "knows m (Checking i) \<longleftrightarrow> daemons m i \<noteq> None"
| "knows m (Removing i) \<longleftrightarrow> (case daemons m i of Some d \<Rightarrow> \<not> is_active (md_status d) | None \<Rightarrow> False)"
| "knows m _ \<longleftrightarrow> True"

definition locks_ok :: "('io, 'h) tasks_state \<Rightarrow> bool" where
  "locks_ok s \<longleftrightarrow>
     (\<forall>t. t \<in> ts_readers s \<longleftrightarrow> holds_read (ts_pc s t))
     \<and> (\<forall>t. ts_writer s = Some t \<longleftrightarrow> holds_write (ts_pc s t))
     \<and> (ts_writer s \<noteq> None \<longrightarrow> ts_readers s = {})
     \<and> (\<forall>i t. ts_held s i = Some t \<longleftrightarrow> holds_entry (ts_pc s t) = Some i)
     \<and> (\<forall>t. knows (ts_registry s) (ts_pc s t))"

lemma locks_okD:
  assumes "locks_ok s"
  shows "t \<in> ts_readers s \<longleftrightarrow> holds_read (ts_pc s t)" "ts_writer s = Some t \<longleftrightarrow> holds_write (ts_pc s t)"
    "ts_writer s = Some u \<Longrightarrow> ts_readers s = {}" "ts_held s i = Some t \<longleftrightarrow> holds_entry (ts_pc s t) = Some i"
    "knows (ts_registry s) (ts_pc s t)"
  using assms by (auto simp: locks_ok_def)

lemma knows_mono:
  "knows m pc \<Longrightarrow> dom (daemons m) \<subseteq> dom (daemons m') \<Longrightarrow> \<not> holds_write pc \<Longrightarrow> knows m' pc"
  by (cases pc) auto

text \<open>Taking a step without touching the registry, and returning with a change of it that the others allow.\<close>

lemma locks_ok_finish:
  assumes "locks_ok s" "\<And>u. u \<noteq> t \<Longrightarrow> knows (ts_registry s') (ts_pc s u)"
    and "ts_pc s' = ts_pc s" "ts_readers s' = ts_readers s" "ts_writer s' = ts_writer s" "ts_held s' = ts_held s"
  shows "locks_ok (finish t c r s')"
proof -
  note flip = locks_okD(1,2,4) [OF assms(1), symmetric]
  show ?thesis
    using locks_okD(3) [OF assms(1)] assms(2) unfolding locks_ok_def finish_def
    by (auto simp: assms(3-6) flip)
qed

lemma locks_ok_goes_to:
  assumes "locks_ok s" "ts_registry s' = ts_registry s" "ts_pc s' = ts_pc s"
    and "\<And>u. u \<in> ts_readers s' \<longleftrightarrow> (if u = t then holds_read pc else u \<in> ts_readers s)"
    and "\<And>u. ts_writer s' = Some u \<longleftrightarrow> (if u = t then holds_write pc else ts_writer s = Some u)"
    and "\<And>u i. ts_held s' i = Some u \<longleftrightarrow> (if u = t then holds_entry pc = Some i else ts_held s i = Some u)"
    and "ts_writer s' \<noteq> None \<Longrightarrow> ts_readers s' = {}" "knows (ts_registry s) pc"
  shows "locks_ok (goes_to t pc s')"
  using assms(7,8) locks_okD(5) [OF assms(1)] unfolding locks_ok_def goes_to_def
  by (simp add: assms(2-6) locks_okD(1,2,4) [OF assms(1)])

lemma only_writer: "locks_ok s \<Longrightarrow> holds_write (ts_pc s t) \<Longrightarrow> u \<noteq> t \<Longrightarrow> \<not> holds_read (ts_pc s u) \<and> \<not> holds_write (ts_pc s u)"
  by (metis locks_okD(1-3) empty_iff option.inject)

lemma no_writer: "locks_ok s \<Longrightarrow> holds_read (ts_pc s t) \<Longrightarrow> \<not> holds_write (ts_pc s u)"
  by (metis locks_okD(1-3) empty_iff)

lemma knows_idle: "\<not> holds_read pc \<Longrightarrow> \<not> holds_write pc \<Longrightarrow> knows m pc"
  by (cases pc) auto

lemma task_step_locks:
  assumes ok: "locks_ok s" and step: "task_step bld p cap t s = Some s'"
  shows "locks_ok s'"
proof (cases "ts_pc s t")
  case (Start c)
  with step consider
      "is_write c" "ts_writer s = None" "ts_readers s = {}" "s' = goes_to t (Writing c) (s\<lparr>ts_writer := Some t\<rparr>)"
    | "\<not> is_write c" "ts_writer s = None" "s' = goes_to t (Reading c) (s\<lparr>ts_readers := insert t (ts_readers s)\<rparr>)"
    by (auto simp: task_step_def split: if_splits)
  then show ?thesis
  proof cases
    case 1
    with Start locks_okD(1,2) [OF ok, of t] locks_okD(4) [OF ok, of _ t] show ?thesis
      by (auto intro!: locks_ok_goes_to [OF ok] split: if_splits)
  next
    case 2
    with Start locks_okD(1,2) [OF ok, of t] locks_okD(4) [OF ok, of _ t] show ?thesis
      by (auto intro!: locks_ok_goes_to [OF ok] split: if_splits)
  qed
next
  case (Reading c)
  with step consider "s' = finish t c (Err (DNotFound (p (call_id c)))) s"
    | d where "daemons (ts_registry s) (call_id c) = Some d" "ts_held s (call_id c) = None"
      "s' = goes_to t (Locked c) (s\<lparr>ts_held := (ts_held s)(call_id c \<mapsto> t)\<rparr>)"
    by (auto simp: task_step_def split: option.splits if_splits)
  then show ?thesis
  proof cases
    case 1
    with ok show ?thesis by (auto intro: locks_ok_finish simp: locks_okD)
  next
    case 2
    have "ts_held s i \<noteq> Some t" for i using locks_okD(4) [OF ok, of i t] Reading by simp
    with 2 Reading locks_okD(1,2,5) [OF ok, of t] locks_okD(3) [OF ok] show ?thesis
      by (auto intro!: locks_ok_goes_to [OF ok] split: if_splits)
  qed
next
  case (Locked c)
  with step obtain d r d' q where entry: "daemons (ts_registry s) (call_id c) = Some d"
    and s': "s' = finish t c r (set_entry (call_id c) (Some d') (s\<lparr>ts_channels := q\<rparr>))"
    by (auto simp: task_step_def split: option.splits)
  have "knows (ts_registry (set_entry (call_id c) (Some d') s)) (ts_pc s u)" for u
  proof (rule knows_mono)
    show "knows (ts_registry s) (ts_pc s u)" by (rule locks_okD(5) [OF ok])
    show "dom (daemons (ts_registry s)) \<subseteq> dom (daemons (ts_registry (set_entry (call_id c) (Some d') s)))"
      by (auto simp: set_entry_def)
    show "\<not> holds_write (ts_pc s u)" using no_writer [OF ok, of t u] Locked by simp
  qed
  with ok show ?thesis unfolding s' by (intro locks_ok_finish [of s]) (auto simp: set_entry_def)
next
  case (Writing c)
  note idle = only_writer [OF ok, of t, unfolded Writing, simplified]
  show ?thesis
  proof (cases "\<exists>i d. c = CUnregister i \<and> daemons (ts_registry s) i = Some d")
    case True
    then obtain i d where c: "c = CUnregister i" "daemons (ts_registry s) i = Some d" by auto
    with step Writing have "ts_held s i = None" "s' = goes_to t (Checking i) (s\<lparr>ts_held := (ts_held s)(i \<mapsto> t)\<rparr>)"
      by (auto simp: task_step_def split: if_splits)
    moreover have "ts_held s j \<noteq> Some t" for j using locks_okD(4) [OF ok, of j t] Writing by simp
    ultimately show ?thesis using Writing c(2) locks_okD(1,2) [OF ok, of t] locks_okD(3) [OF ok]
      by (auto intro!: locks_ok_goes_to [OF ok] split: if_splits)
  next
    case False
    with step Writing obtain r s1 where "s' = finish t c r s1"
      "ts_pc s1 = ts_pc s" "ts_readers s1 = ts_readers s" "ts_writer s1 = ts_writer s" "ts_held s1 = ts_held s"
      by (cases c) (auto simp: task_step_def set_entry_def split: option.splits if_splits)
    with ok show ?thesis using idle by (auto intro!: locks_ok_finish [of s] knows_idle)
  qed
next
  case (Checking i)
  note idle = only_writer [OF ok, of t, unfolded Checking, simplified]
  with step Checking consider r where "s' = finish t (CUnregister i) r s"
    | d where "daemons (ts_registry s) i = Some d" "\<not> is_active (md_status d)"
      "s' = goes_to t (Removing i) (s\<lparr>ts_held := (ts_held s)(i := None)\<rparr>)"
    by (auto simp: task_step_def split: option.splits if_splits)
  then show ?thesis
  proof cases
    case 1
    with ok show ?thesis by (auto intro: locks_ok_finish simp: locks_okD)
  next
    case 2
    have "ts_held s j = Some t \<longleftrightarrow> j = i" for j using locks_okD(4) [OF ok, of j t] Checking by auto
    then have "ts_held s i = Some t" "\<And>j. j \<noteq> i \<Longrightarrow> ts_held s j \<noteq> Some t" by auto
    then show ?thesis using Checking 2 locks_okD(1,2) [OF ok, of t] locks_okD(3) [OF ok]
      by (auto intro!: locks_ok_goes_to [OF ok] split: if_splits)
  qed
next
  case (Removing i)
  note idle = only_writer [OF ok, of t, unfolded Removing, simplified]
  from step Removing have "s' = finish t (CUnregister i) (Ok AUnit) (set_entry i None s)" by (simp add: task_step_def)
  with ok show ?thesis using idle by (auto intro!: locks_ok_finish [of s] knows_idle simp: set_entry_def)
next
  case (Returned r)
  with step show ?thesis by (simp add: task_step_def)
qed

lemma tasks_event_locks [inv_intro]: "locks_ok s \<Longrightarrow> locks_ok (tasks_event bld p cap s e)"
proof (cases e)
  case (Move t)
  assume "locks_ok s"
  with Move show ?thesis by (auto split: option.split intro: task_step_locks)
qed (simp_all add: locks_ok_def)

interpretation task_locks: invariant_machine "tasks_event bld p cap" locks_ok
  by unfold_locales (rule tasks_event_locks)

lemma tasks_start_locks [inv_intro]: "locks_ok (tasks_start calls m q)"
  by (simp add: locks_ok_def tasks_start_def)

section \<open>One call at a time\<close>

fun task_call :: "('io, 'h) task_pc \<Rightarrow> 'h manager_task_call option" where
  "task_call (Start c) = Some c"
| "task_call (Reading c) = Some c"
| "task_call (Locked c) = Some c"
| "task_call (Writing c) = Some c"
| "task_call (Checking i) = Some (CUnregister i)"
| "task_call (Removing i) = Some (CUnregister i)"
| "task_call (Returned r) = None"

fun by_task :: "nat \<Rightarrow> ('io, 'h) log_entry \<Rightarrow> bool" where
  "by_task t (Called u _ _) \<longleftrightarrow> u = t"
| "by_task t _ \<longleftrightarrow> False"

definition answered ::
  "(nat \<Rightarrow> 'h manager_task_call) \<Rightarrow> ('io, 'h) tasks_state \<Rightarrow> nat \<Rightarrow> bool" where
  "answered calls s t \<longleftrightarrow>
     (case ts_pc s t of
        Returned r \<Rightarrow> filter (by_task t) (ts_log s) = [Called t (calls t) r]
      | pc \<Rightarrow> filter (by_task t) (ts_log s) = [] \<and> task_call pc = Some (calls t))"

lemma answered_log:
  "answered calls s t \<Longrightarrow> filter (by_task t) (ts_log s) = (case ts_pc s t of Returned r \<Rightarrow> [Called t (calls t) r] | _ \<Rightarrow> [])"
  by (simp add: answered_def split: task_pc.splits)

text \<open>A step is a silent one, or the moment at which the call takes effect, all of it.\<close>

lemma task_step_effect:
  assumes ok: "locks_ok s" and step: "task_step bld p cap t s = Some s'"
  shows "(\<exists>pc. ts_pc s' = (ts_pc s)(t := pc) \<and> task_call pc = task_call (ts_pc s t) \<and> task_call pc \<noteq> None
      \<and> ts_log s' = ts_log s \<and> ts_registry s' = ts_registry s \<and> ts_channels s' = ts_channels s)
    \<or> (\<exists>c r. task_call (ts_pc s t) = Some c \<and> ts_pc s' = (ts_pc s)(t := Returned r)
      \<and> ts_log s' = ts_log s @ [Called t c r]
      \<and> call_now bld p cap c (ts_registry s) (ts_channels s) = Some (r, ts_registry s', ts_channels s'))"
proof (cases "ts_pc s t")
  case (Start c)
  with step show ?thesis by (auto simp: task_step_def goes_to_def split: if_splits)
next
  case (Reading c)
  with locks_okD(5) [OF ok, of t] have "\<not> is_write c" by simp
  with step Reading show ?thesis
    by (cases "daemons (ts_registry s) (call_id c)")
      (auto simp: task_step_def goes_to_def finish_def call_now_missing split: if_splits)
next
  case (Locked c)
  with step obtain d r d' q where entry: "daemons (ts_registry s) (call_id c) = Some d"
    and under: "under_lock bld p cap c d (ts_channels s) = Some (r, d', q)"
    and s': "s' = finish t c r (set_entry (call_id c) (Some d') (s\<lparr>ts_channels := q\<rparr>))"
    by (auto simp: task_step_def split: option.splits)
  from call_now_locked [OF entry under] Locked show ?thesis
    by (simp add: s' finish_def set_entry_def)
next
  case (Writing c)
  with step show ?thesis
    by (cases c)
      (auto simp: task_step_def goes_to_def finish_def set_entry_def answers_def register_def unregister_def find_daemon_def
        split: option.splits if_splits)
next
  case (Checking i)
  with step show ?thesis
    by (auto simp: task_step_def goes_to_def finish_def answers_def unregister_def find_daemon_def split: option.splits if_splits)
next
  case (Removing i)
  with locks_okD(5) [OF ok, of t] step show ?thesis
    by (auto simp: task_step_def finish_def set_entry_def answers_def unregister_def find_daemon_def split: option.splits)
next
  case (Returned r)
  with step show ?thesis by (simp add: task_step_def)
qed

definition serial ::
  "build \<Rightarrow> id_printer \<Rightarrow> nat \<Rightarrow> (nat \<Rightarrow> 'h manager_task_call) \<Rightarrow> 'h manager \<Rightarrow> 'h channels \<Rightarrow> ('io, 'h) tasks_state \<Rightarrow> bool" where
  "serial bld p cap calls m q s \<longleftrightarrow>
     locks_ok s \<and> replay bld p cap (ts_log s) m q = Some (ts_registry s, ts_channels s) \<and> (\<forall>t. answered calls s t)"

lemma task_step_serial:
  assumes "serial bld p cap calls m q s" "task_step bld p cap t s = Some s'"
  shows "serial bld p cap calls m q s'"
proof -
  from assms have ok: "locks_ok s" and log: "replay bld p cap (ts_log s) m q = Some (ts_registry s, ts_channels s)"
    and ans: "\<And>u. answered calls s u"
    by (simp_all add: serial_def)
  have "locks_ok s'" by (rule task_step_locks [OF ok assms(2)])
  moreover from task_step_effect [OF ok assms(2)]
  have "replay bld p cap (ts_log s') m q = Some (ts_registry s', ts_channels s')"
    using log by (auto simp: replay_append)
  moreover have "answered calls s' u" for u
    using task_step_effect [OF ok assms(2)] ans [of u] ans [of t]
    by (elim disjE exE conjE; cases "ts_pc s t"; cases "u = t") (auto simp: answered_def split: task_pc.splits)
  ultimately show ?thesis by (simp add: serial_def)
qed

lemma tasks_event_serial [inv_intro]:
  "serial bld p cap calls m q s \<Longrightarrow> serial bld p cap calls m q (tasks_event bld p cap s e)"
proof (cases e)
  case (Move t)
  assume "serial bld p cap calls m q s"
  with Move show ?thesis by (auto split: option.split intro: task_step_serial)
qed (auto simp: serial_def replay_append answered_def locks_ok_def split: task_pc.splits)

interpretation task_serial: invariant_machine "tasks_event bld p cap" "serial bld p cap calls m q"
  by unfold_locales (rule tasks_event_serial)

lemma tasks_start_serial [inv_intro]: "serial bld p cap calls m q (tasks_start calls m q)"
  by (auto simp: serial_def tasks_start_locks) (simp_all add: tasks_start_def answered_def)

lemma tasks_run_log: "locks_ok s \<Longrightarrow> prefix (ts_log s) (ts_log (run (tasks_event bld p cap) s es))"
proof (induction es arbitrary: s)
  case (Cons e es)
  have "prefix (ts_log s) (ts_log (tasks_event bld p cap s e))"
  proof (cases e)
    case (Move t)
    then show ?thesis
      using task_step_effect [OF Cons.prems, of bld p cap t] by (fastforce split: option.split)
  qed simp_all
  with Cons.IH [OF tasks_event_locks [OF Cons.prems]] show ?case by (auto intro: prefix_order.order_trans)
qed simp

text \<open>C13: The manager's methods are atomic: whatever the order of the steps of any number of tasks, registry and channels
  are what the methods leave when they run one after the other in the order of the log, each task that has
  returned stands once in the log with the answer it gave, and the log only grows, so that a call that returned before
  another began comes before it.\<close>

theorem manager_calls_are_atomic:
  "(case run (tasks_event bld p cap) (tasks_start calls m q :: ('io, 'h) tasks_state) es of
      s \<Rightarrow>
        replay bld p cap (ts_log s) m q = Some (ts_registry s, ts_channels s)
        \<and> (\<forall>t. filter (by_task t) (ts_log s) = (case ts_pc s t of Returned r \<Rightarrow> [Called t (calls t) r] | _ \<Rightarrow> []))
        \<and> prefix (ts_log s) (ts_log (run (tasks_event bld p cap) (tasks_start calls m q) (es @ fs))))"
proof -
  let ?s = "run (tasks_event bld p cap) (tasks_start calls m q :: ('io, 'h) tasks_state) es"
  have serial: "serial bld p cap calls m q ?s" by (rule task_serial.run_good [OF tasks_start_serial])
  then have "locks_ok ?s" "\<And>t. answered calls ?s t" by (simp_all add: serial_def)
  with serial tasks_run_log [of ?s bld p cap fs] show ?thesis by (simp add: serial_def answered_log)
qed

section \<open>No deadlock while the channels have room\<close>

definition has_room :: "nat \<Rightarrow> 'h channels \<Rightarrow> 'h \<Rightarrow> bool" where
  "has_room cap q h \<longleftrightarrow> ch_closed q h \<or> length (ch_queue q h) < cap"

lemma under_lock_returns:
  fixes d :: "'h managed_daemon"
  assumes "\<not> is_write c"
  shows "\<exists>h. \<forall>q. has_room cap q h \<longrightarrow>
    (\<exists>x :: ('io, answer) mresult \<times> 'h managed_daemon \<times> 'h channels. under_lock bld p cap c d q = Some x)"
proof (cases "md_context_handle d")
  case None
  with assms show ?thesis by (cases c) (auto split: prod.split)
next
  case (Some h)
  with assms show ?thesis
    by (intro exI [of _ h], cases c) (auto simp: chan_send_def send_signal_def has_room_def split: prod.split)
qed

text \<open>The registry's lock is taken before an entry's, so whoever has both goes on, then whoever waits for an entry, then whoever
  waits for the registry: there is always a task that lacks nothing but room in one channel.\<close>

lemma some_task_moves:
  fixes s :: "('io, 'h) tasks_state"
  assumes ok: "locks_ok s" and "\<And>r. ts_pc s t \<noteq> Returned r"
  shows "\<exists>u h. (u = t \<or> (\<forall>c. ts_pc s u \<noteq> Start c))
    \<and> (\<forall>q l. has_room cap q h \<longrightarrow> task_step bld p cap u (s\<lparr>ts_channels := q, ts_log := l\<rparr>) \<noteq> None)"
proof -
  note holder = locks_okD(1,2) [OF ok] and held = locks_okD(4) [OF ok] and knows = locks_okD(5) [OF ok]
  consider (entry) u i where "holds_entry (ts_pc s u) = Some i" | (removing) u i where "ts_pc s u = Removing i"
    | (registry) u where "holds_read (ts_pc s u) \<or> holds_write (ts_pc s u)" "\<And>i. ts_held s i = None"
        "\<And>i. ts_pc s u \<noteq> Removing i"
    | (none) "ts_readers s = {}" "ts_writer s = None"
    by (metis all_not_in_conv held holder not_None_eq)
  then show ?thesis
  proof cases
    case entry
    then consider c where "ts_pc s u = Locked c" | "ts_pc s u = Checking i" by (cases "ts_pc s u") auto
    then show ?thesis
    proof cases
      case 1
      with knows [of u] obtain d where d: "\<not> is_write c" "daemons (ts_registry s) (call_id c) = Some d" by auto
      obtain h where h: "\<And>q. has_room cap q h
          \<Longrightarrow> \<exists>x :: ('io, answer) mresult \<times> 'h managed_daemon \<times> 'h channels. under_lock bld p cap c d q = Some x"
        using under_lock_returns [OF d(1)] by meson
      have "task_step bld p cap u (s\<lparr>ts_channels := q, ts_log := l\<rparr>) \<noteq> None" if "has_room cap q h" for q l
        using h [OF that] d(2) 1 by (auto simp: task_step_def split: prod.split)
      with 1 show ?thesis by (intro exI [of _ u] exI [of _ h]) simp
    next
      case 2
      with knows [of u] show ?thesis by (intro exI [of _ u]) (auto simp: task_step_def)
    qed
  next
    case removing
    then show ?thesis by (intro exI [of _ u]) (simp add: task_step_def)
  next
    case registry
    then show ?thesis using knows [of u] held [of _ u]
      by (intro exI [of _ u], cases "ts_pc s u")
        (auto simp: task_step_def split: option.split manager_task_call.split elim: is_write.elims)
  next
    case none
    then have "\<not> holds_read (ts_pc s t)" "\<not> holds_write (ts_pc s t)" using holder [of t] by auto
    then show ?thesis
      using none assms(2) by (intro exI [of _ t], cases "ts_pc s t") (auto simp: task_step_def)
  qed
qed

text \<open>C14: The two levels of locks do not deadlock: as long as every channel has room or is closed, some task can move
  unless all have returned.\<close>

theorem manager_never_deadlocks:
  assumes "s = run (tasks_event bld p cap) (tasks_start calls m q) es" "\<And>h. has_room cap (ts_channels s) h"
    and "\<And>r. ts_pc s t \<noteq> Returned r"
  shows "\<exists>u. task_step bld p cap u s \<noteq> None"
proof -
  have "locks_ok s" unfolding assms(1) by (rule task_locks.run_good [OF tasks_start_locks])
  then obtain u h where "has_room cap (ts_channels s) h
      \<Longrightarrow> task_step bld p cap u (s\<lparr>ts_channels := ts_channels s, ts_log := ts_log s\<rparr>) \<noteq> None"
    using some_task_moves [OF _ assms(3)] by blast
  with assms(2) show ?thesis by auto
qed

section \<open>Calls return while the daemons read\<close>

text \<open>What a task has left to do, at most; every step it takes is one less.\<close>

fun steps_left :: "('io, 'h) task_pc \<Rightarrow> nat" where
  "steps_left (Start _) = 4"
| "steps_left (Reading _) = 2"
| "steps_left (Locked _) = 1"
| "steps_left (Writing _) = 3"
| "steps_left (Checking _) = 2"
| "steps_left (Removing _) = 1"
| "steps_left (Returned _) = 0"

lemma task_step_less:
  assumes "task_step bld p cap t s = Some s'"
  shows "\<exists>pc. ts_pc s' = (ts_pc s)(t := pc) \<and> steps_left pc < steps_left (ts_pc s t)"
proof (cases "ts_pc s t")
  case (Writing c)
  with assms show ?thesis
    by (cases c) (auto simp: task_step_def goes_to_def finish_def set_entry_def split: option.splits if_splits)
qed (use assms in \<open>auto simp: task_step_def goes_to_def finish_def set_entry_def split: option.splits if_splits\<close>)

text \<open>What every run keeps: the locks are in order, no channel has more than it can hold.\<close>

definition in_bounds :: "nat \<Rightarrow> 'h channels \<Rightarrow> bool" where
  "in_bounds cap q \<longleftrightarrow> (\<forall>h. length (ch_queue q h) \<le> cap)"

definition live :: "nat \<Rightarrow> ('io, 'h) tasks_state \<Rightarrow> bool" where
  "live cap s \<longleftrightarrow> locks_ok s \<and> in_bounds cap (ts_channels s)"

lemma chan_send_keeps:
  "chan_send cap h sg q = (r, q') \<Longrightarrow> in_bounds cap q \<Longrightarrow> in_bounds cap q'"
  "chan_send cap h sg q = (r, q') \<Longrightarrow> ch_closed q' = ch_closed q"
  by (auto simp: chan_send_def in_bounds_def split: if_splits)

lemma under_lock_keeps:
  assumes "under_lock bld p cap c d q = Some (r, d', q')"
  shows "in_bounds cap q \<Longrightarrow> in_bounds cap q'" and "ch_closed q' = ch_closed q"
  using assms
  by (cases c; auto simp: send_signal_def split: if_splits option.splits prod.splits delivery.splits dest: chan_send_keeps)+

lemma task_step_keeps:
  assumes "task_step bld p cap t s = Some s'"
  shows "in_bounds cap (ts_channels s) \<Longrightarrow> in_bounds cap (ts_channels s')"
    and "ch_closed (ts_channels s') = ch_closed (ts_channels s)"
proof -
  have "(in_bounds cap (ts_channels s) \<longrightarrow> in_bounds cap (ts_channels s')) \<and> ch_closed (ts_channels s') = ch_closed (ts_channels s)"
  proof (cases "ts_pc s t")
    case (Writing c)
    with assms show ?thesis
      by (cases c) (auto simp: task_step_def goes_to_def finish_def set_entry_def split: option.splits if_splits)
  qed (use assms in \<open>auto simp: task_step_def goes_to_def finish_def set_entry_def
        split: option.splits if_splits dest: under_lock_keeps\<close>)
  then show "in_bounds cap (ts_channels s) \<Longrightarrow> in_bounds cap (ts_channels s')"
    and "ch_closed (ts_channels s') = ch_closed (ts_channels s)" by simp_all
qed

lemma tasks_event_live [inv_intro]:
  assumes "live cap s"
  shows "live cap (tasks_event bld p cap s e)"
proof -
  have "in_bounds cap (ts_channels (tasks_event bld p cap s e))"
  proof (cases e)
    case (Move t)
    with assms show ?thesis by (auto simp: live_def task_step_keeps split: option.split)
  next
    case (Receive h)
    with assms show ?thesis
      by (auto simp: live_def in_bounds_def chan_receive_def intro: le_trans [OF diff_le_self])
  qed (use assms in \<open>simp add: live_def in_bounds_def chan_close_def\<close>)
  with assms show ?thesis by (simp add: live_def tasks_event_locks)
qed

interpretation task_live: invariant_machine "tasks_event bld p cap" "live cap"
  by unfold_locales (rule tasks_event_live)

lemma tasks_start_live: "in_bounds cap q \<Longrightarrow> live cap (tasks_start calls m q)"
  by (simp add: live_def tasks_start_locks) (simp add: tasks_start_def)

lemma closed_stays: "ch_closed (ts_channels s) h \<Longrightarrow> ch_closed (ts_channels (tasks_event bld p cap s e)) h"
  by (cases e) (auto simp: chan_receive_def chan_close_def task_step_keeps split: option.split)

text \<open>An infinite schedule, and the state after so many of its events.\<close>

definition tasks_at ::
  "build \<Rightarrow> id_printer \<Rightarrow> nat \<Rightarrow> ('io, 'h) tasks_state \<Rightarrow> (nat \<Rightarrow> 'h task_event) \<Rightarrow> nat \<Rightarrow> ('io, 'h) tasks_state" where
  "tasks_at bld p cap s es n = run (tasks_event bld p cap) s (map es [0..<n])"

lemma tasks_at_simps [simp]:
  "tasks_at bld p cap s es 0 = s"
  "tasks_at bld p cap s es (Suc n) = tasks_event bld p cap (tasks_at bld p cap s es n) (es n)"
  by (simp_all add: tasks_at_def run_append)

lemma closed_from_then:
  assumes "es k = Close h" "k < n"
  shows "ch_closed (ts_channels (tasks_at bld p cap s es n)) h"
  using assms(2)
proof (induction n)
  case (Suc n)
  with assms(1) show ?case by (cases "k = n") (auto simp: chan_close_def closed_stays simp del: tasks_event.simps(1,2))
qed simp

text \<open>Only finitely many steps can be taken by finitely many tasks, so from some event on none succeeds.\<close>

lemma steps_run_out:
  fixes s :: "('io, 'h) tasks_state"
  assumes "finite T" "\<And>n u. es n = Move u \<Longrightarrow> u \<in> T"
  shows "\<exists>N. \<forall>n \<ge> N. \<forall>u. es n = Move u \<longrightarrow> task_step bld p cap u (tasks_at bld p cap s es n) = None"
proof -
  let ?s = "tasks_at bld p cap s es"
  let ?left = "\<lambda>n. \<Sum>t\<in>T. steps_left (ts_pc (?s n) t)"
  have event: "?left (Suc n) \<le> ?left n"
    "es n = Move u \<Longrightarrow> task_step bld p cap u (?s n) \<noteq> None \<Longrightarrow> ?left (Suc n) < ?left n" for n u
  proof -
    have less: "?left (Suc n) < ?left n"
      if moved: "es n = Move u" "task_step bld p cap u (?s n) = Some s'" for u s'
    proof -
      obtain pc where "ts_pc s' = (ts_pc (?s n))(u := pc)" "steps_left pc < steps_left (ts_pc (?s n) u)"
        using task_step_less [OF moved(2)] by blast
      with moved assms show ?thesis by (auto intro!: sum_strict_mono_ex1)
    qed
    then show "es n = Move u \<Longrightarrow> task_step bld p cap u (?s n) \<noteq> None \<Longrightarrow> ?left (Suc n) < ?left n" by blast
    show "?left (Suc n) \<le> ?left n"
    proof (cases "\<exists>u s'. es n = Move u \<and> task_step bld p cap u (?s n) = Some s'")
      case True
      with less show ?thesis by (blast intro: less_imp_le)
    next
      case False
      then have "ts_pc (?s (Suc n)) = ts_pc (?s n)" by (cases "es n") (auto split: option.split)
      then show ?thesis by simp
    qed
  qed
  obtain N where least: "\<And>n. ?left N \<le> ?left n" using ex_has_least_nat [of "\<lambda>_. True" 0 ?left] by auto
  have "?left n = ?left N" if "N \<le> n" for n
    using that
  proof (induction n rule: dec_induct)
    case (step n)
    with event(1) [of n] least [of "Suc n"] show ?case by simp
  qed simp
  with event(2) show ?thesis by (metis le_SucI less_irrefl)
qed

text \<open>Without a step that succeeds only channels and log change, and a channel that has room keeps it.\<close>

lemma only_channels_change:
  assumes "\<And>n u. N \<le> n \<Longrightarrow> es n = Move u \<Longrightarrow> task_step bld p cap u (tasks_at bld p cap s es n) = None" "N \<le> n"
  shows "\<exists>q l. tasks_at bld p cap s es n = (tasks_at bld p cap s es N)\<lparr>ts_channels := q, ts_log := l\<rparr>"
    and "has_room cap (ts_channels (tasks_at bld p cap s es N)) h
      \<Longrightarrow> has_room cap (ts_channels (tasks_at bld p cap s es n)) h"
proof -
  let ?s = "tasks_at bld p cap s es"
  have event: "\<exists>q l. ?s (Suc n) = (?s n)\<lparr>ts_channels := q, ts_log := l\<rparr>
      \<and> (has_room cap (ts_channels (?s n)) h \<longrightarrow> has_room cap q h)" if "N \<le> n" for n
  proof (cases "es n")
    case (Move u)
    with assms(1) [OF that Move] show ?thesis
      by (intro exI [of _ "ts_channels (?s n)"] exI [of _ "ts_log (?s n)"]) simp
  next
    case (Receive g)
    have "has_room cap (chan_receive g q) h" if "has_room cap q h" for q
      using that by (auto simp: has_room_def chan_receive_def)
    with Receive show ?thesis by auto
  next
    case (Close g)
    have "has_room cap (chan_close g q) h" if "has_room cap q h" for q
      using that by (auto simp: has_room_def chan_close_def)
    with Close show ?thesis by auto
  qed
  have "(\<exists>q l. ?s n = (?s N)\<lparr>ts_channels := q, ts_log := l\<rparr>)
      \<and> (has_room cap (ts_channels (?s N)) h \<longrightarrow> has_room cap (ts_channels (?s n)) h)"
    using assms(2)
  proof (induction n rule: dec_induct)
    case base
    have "?s N = (?s N)\<lparr>ts_channels := ts_channels (?s N), ts_log := ts_log (?s N)\<rparr>" by simp
    then show ?case by blast
  next
    case (step n)
    obtain q l where ql: "?s (Suc n) = (?s n)\<lparr>ts_channels := q, ts_log := l\<rparr>" "has_room cap (ts_channels (?s n)) h \<longrightarrow> has_room cap q h"
      using event [OF step.hyps(1)] by blast
    obtain q' l' where "?s n = (?s N)\<lparr>ts_channels := q', ts_log := l'\<rparr>" using step.IH by blast
    then have "?s (Suc n) = (?s N)\<lparr>ts_channels := q, ts_log := l\<rparr>" by (simp only: ql(1)) simp
    with ql(2) step.IH show ?case by auto
  qed
  then show "\<exists>q l. ?s n = (?s N)\<lparr>ts_channels := q, ts_log := l\<rparr>"
    and "has_room cap (ts_channels (?s N)) h \<Longrightarrow> has_room cap (ts_channels (?s n)) h" by simp_all
qed

lemma room_comes:
  assumes "live cap s" "0 < cap" "(\<forall>n. \<exists>k \<ge> n. es k = Receive h) \<or> (\<exists>k. es k = Close h)"
  shows "\<exists>k \<ge> N. has_room cap (ts_channels (tasks_at bld p cap s es k)) h"
  using assms(3)
proof
  assume "\<forall>n. \<exists>k \<ge> n. es k = Receive h"
  then obtain k where k: "N \<le> k" "es k = Receive h" by blast
  have "live cap (tasks_at bld p cap s es k)" unfolding tasks_at_def by (rule task_live.run_good [OF assms(1)])
  then have "length (ch_queue (ts_channels (tasks_at bld p cap s es k)) h) \<le> cap" by (simp add: live_def in_bounds_def)
  with assms(2) k show ?thesis by (intro exI [of _ "Suc k"]) (auto simp: has_room_def chan_receive_def)
next
  assume "\<exists>k. es k = Close h"
  then obtain k where "es k = Close h" by blast
  then have "ch_closed (ts_channels (tasks_at bld p cap s es (max N (Suc k)))) h" by (rule closed_from_then) simp
  then show ?thesis by (intro exI [of _ "max N (Suc k)"]) (simp add: has_room_def)
qed

lemma others_wait:
  assumes "\<And>n u. es n = Move u \<Longrightarrow> u \<in> T" "t \<notin> T"
  shows "ts_pc (tasks_at bld p cap s es n) t = ts_pc s t"
proof (induction n)
  case (Suc n)
  have "u \<noteq> t" if "es n = Move u" for u using that assms by blast
  with Suc show ?case by (cases "es n") (auto split: option.split dest: task_step_less)
qed simp

text \<open>C15: Every call returns, in every fair schedule: finitely many tasks call the manager, each of them is given the
  processor again and again, and each daemon reads its channel again and again or drops it; then after finitely many
  steps all of the calls have returned.\<close>

theorem manager_calls_return:
  assumes "0 < cap" "in_bounds cap q" "finite T" "\<And>n u. es n = Move u \<Longrightarrow> u \<in> T"
    and "\<And>u n. u \<in> T \<Longrightarrow> \<exists>k \<ge> n. es k = Move u"
    and "\<And>h. (\<forall>n. \<exists>k \<ge> n. es k = Receive h) \<or> (\<exists>k. es k = Close h)"
  shows "\<exists>n. \<forall>t \<in> T. \<exists>r.
    ts_pc (run (tasks_event bld p cap) (tasks_start calls m q :: ('io, 'h) tasks_state) (map es [0..<n])) t = Returned r"
proof -
  let ?start = "tasks_start calls m q :: ('io, 'h) tasks_state"
  let ?s = "tasks_at bld p cap ?start es"
  have "\<exists>N. \<forall>n \<ge> N. \<forall>u. es n = Move u \<longrightarrow> task_step bld p cap u (?s n) = None"
    by (rule steps_run_out [OF assms(3)]) (rule assms(4))
  then obtain N where none: "\<And>n u. N \<le> n \<Longrightarrow> es n = Move u \<Longrightarrow> task_step bld p cap u (?s n) = None" by blast
  have "\<exists>r. ts_pc (?s N) t = Returned r" if "t \<in> T" for t
  proof (rule ccontr)
    assume "\<nexists>r. ts_pc (?s N) t = Returned r"
    moreover have "locks_ok (?s N)" unfolding tasks_at_def by (rule task_locks.run_good [OF tasks_start_locks])
    ultimately obtain u h where u: "u = t \<or> (\<forall>c. ts_pc (?s N) u \<noteq> Start c)"
      and moves: "\<And>q l. has_room cap q h \<Longrightarrow> task_step bld p cap u ((?s N)\<lparr>ts_channels := q, ts_log := l\<rparr>) \<noteq> None"
      using some_task_moves [of "?s N" t cap bld p] by blast
    have "ts_pc (?s N) u = ts_pc ?start u" if "u \<notin> T" by (rule others_wait [OF _ that]) (rule assms(4))
    with u \<open>t \<in> T\<close> have "u \<in> T" by (auto simp: tasks_start_def)
    obtain k where k: "N \<le> k" "has_room cap (ts_channels (?s k)) h"
      using room_comes [where s = ?start and es = es and N = N, OF tasks_start_live [OF assms(2)] assms(1,6)] by blast
    obtain n where n: "k \<le> n" "es n = Move u" using assms(5) [OF \<open>u \<in> T\<close>] by blast
    have "has_room cap (ts_channels (?s n)) h"
      using only_channels_change(2) [where N = k, OF none n(1) k(2)] k(1) by auto
    moreover obtain q' l' where "?s n = (?s N)\<lparr>ts_channels := q', ts_log := l'\<rparr>"
      using only_channels_change(1) [where N = N and n = n, OF none] k(1) n(1) by auto
    ultimately have "task_step bld p cap u (?s n) \<noteq> None" using moves [of q' l'] by simp
    with none [of n u] k(1) n show False by simp
  qed
  then show ?thesis by (intro exI [of _ N]) (simp add: tasks_at_def)
qed

section \<open>A full channel\<close>

text \<open>A task that waits, with both locks, for room in the channel of a daemon that takes signals.\<close>

definition stuck_sender :: "nat \<Rightarrow> nat \<Rightarrow> daemon_id \<Rightarrow> signal \<Rightarrow> 'h \<Rightarrow> ('io, 'h) tasks_state \<Rightarrow> bool" where
  "stuck_sender cap t i sg h s \<longleftrightarrow>
     locks_ok s \<and> ts_pc s t = Locked (CSignal i sg) \<and> signal_target (ts_registry s) i = Some h
     \<and> \<not> has_room cap (ts_channels s) h"

lemma chan_send_full:
  "\<not> has_room cap q h \<Longrightarrow> chan_send cap g sg q = (r, q') \<Longrightarrow> \<not> has_room cap q' h"
  by (auto simp: chan_send_def has_room_def split: if_splits)

lemma under_lock_full:
  "\<not> has_room cap q h \<Longrightarrow> under_lock bld p cap c d q = Some (r, d', q') \<Longrightarrow> \<not> has_room cap q' h"
  by (cases c) (auto simp: send_signal_def split: if_splits option.splits prod.splits delivery.splits dest: chan_send_full)

lemma stuck_stays:
  assumes "stuck_sender cap t i sg h s" "e \<noteq> Receive h" "e \<noteq> Close h"
  shows "stuck_sender cap t i sg h (tasks_event bld p cap s e)"
proof -
  from assms(1) have ok: "locks_ok s" and pc: "ts_pc s t = Locked (CSignal i sg)"
    and target: "signal_target (ts_registry s) i = Some h" and full: "\<not> has_room cap (ts_channels s) h"
    by (simp_all add: stuck_sender_def)
  have ok': "locks_ok (tasks_event bld p cap s e)" by (rule tasks_event_locks [OF ok])
  show ?thesis
  proof (cases e)
    case (Move u)
    show ?thesis
    proof (cases "task_step bld p cap u s")
      case None
      with assms(1) Move show ?thesis by simp
    next
      case (Some s')
      have "u \<noteq> t"
        using Some pc target full
        by (auto simp: task_step_def signal_target_def send_signal_def chan_send_def has_room_def
            split: option.splits if_splits)
      moreover have "\<not> holds_write (ts_pc s u)" using no_writer [OF ok, of t u] pc by simp
      moreover have "ts_pc s u = Locked c \<Longrightarrow> call_id c \<noteq> i" for c
        using locks_okD(4) [OF ok, of i t] locks_okD(4) [OF ok, of i u] pc \<open>u \<noteq> t\<close> by auto
      ultimately have "ts_pc s' t = ts_pc s t \<and> signal_target (ts_registry s') i = Some h \<and> \<not> has_room cap (ts_channels s') h"
        using Some target full
        by (cases "ts_pc s u")
          (auto simp: task_step_def goes_to_def finish_def set_entry_def signal_target_def
            split: option.splits if_splits dest: under_lock_full)
      with ok' Move Some pc show ?thesis by (simp add: stuck_sender_def)
    qed
  next
    case (Receive g)
    with assms(2) full ok' pc target show ?thesis by (auto simp: stuck_sender_def chan_receive_def has_room_def)
  next
    case (Close g)
    with assms(3) full ok' pc target show ?thesis by (auto simp: stuck_sender_def chan_close_def has_room_def)
  qed
qed

text \<open>The tasks that wait behind it: for the registry as a whole, and for the entry.\<close>

definition held_up :: "daemon_id \<Rightarrow> ('io, 'h) task_pc \<Rightarrow> bool" where
  "held_up i pc \<longleftrightarrow>
     (case pc of Start c \<Rightarrow> is_write c \<or> call_id c = i | Reading c \<Rightarrow> call_id c = i | _ \<Rightarrow> False)"

lemma held_up_stays:
  assumes "stuck_sender cap t i sg h s" "held_up i (ts_pc s u)"
  shows "held_up i (ts_pc (tasks_event bld p cap s e) u)"
proof (cases e)
  case (Move v)
  from assms(1) have ok: "locks_ok s" and pc: "ts_pc s t = Locked (CSignal i sg)"
    and entry: "daemons (ts_registry s) i \<noteq> None"
    by (auto simp: stuck_sender_def signal_target_def split: option.splits)
  have "ts_readers s \<noteq> {}" using locks_okD(1) [OF ok, of t] pc by auto
  moreover have "ts_held s i = Some t" using locks_okD(4) [OF ok, of i t] pc by simp
  ultimately have waits: "held_up i (ts_pc s' u)" if "task_step bld p cap u s = Some s'" for s'
    using that assms(2) entry
    by (cases "ts_pc s u") (auto simp: task_step_def goes_to_def held_up_def split: option.splits if_splits)
  have "held_up i (ts_pc s' u)" if "task_step bld p cap v s = Some s'" for s'
  proof (cases "v = u")
    case True
    with that waits show ?thesis by simp
  next
    case False
    with task_step_effect [OF ok that] have "ts_pc s' u = ts_pc s u" by auto
    with assms(2) show ?thesis by simp
  qed
  with Move assms(2) show ?thesis by (auto split: option.split)
qed (use assms(2) in simp_all)

text \<open>C16: A signal to a full channel holds the manager up: while the daemon does not read its channel, the sender keeps both
  locks, so no task that waits for that daemon's entry and no task that is to register or unregister any daemon
  returns, whatever moves.\<close>

theorem full_channel_blocks_manager:
  assumes "stuck_sender cap t i sg h s" "held_up i (ts_pc s u)"
    and "Receive h \<notin> set es" "Close h \<notin> set es"
  shows "ts_pc (run (tasks_event bld p cap) s es) t = Locked (CSignal i sg)
    \<and> (\<forall>r. ts_pc (run (tasks_event bld p cap) s es) u \<noteq> Returned r)"
proof -
  have "stuck_sender cap t i sg h (run (tasks_event bld p cap) s es) \<and> held_up i (ts_pc (run (tasks_event bld p cap) s es) u)"
    using assms
  proof (induction es arbitrary: s)
    case (Cons e es)
    then have "e \<noteq> Receive h" "e \<noteq> Close h" by auto
    with Cons show ?case by (simp add: stuck_stays held_up_stays)
  qed simp
  then show ?thesis by (auto simp: stuck_sender_def held_up_def split: task_pc.splits)
qed

text \<open>Daemon 2 has a signal waiting and room for one; task 0 sends it another, every other task registers a daemon.\<close>

definition busy_calls :: "nat \<Rightarrow> nat manager_task_call" where
  "busy_calls t = (if t = 0 then CSignal 2 Term else CRegister 3 ''c'' (config_new ''c'' ''/c'') RNever)"

definition busy_start :: "(unit, nat) tasks_state" where
  "busy_start = tasks_start busy_calls two_daemons \<lparr>ch_queue = (\<lambda>_. [Hup]), ch_closed = (\<lambda>_. False)\<rparr>"

lemma busy_pc:
  "ts_pc (run (tasks_event Debug (\<lambda>_. ''d'') cap) busy_start [Move 0, Move 0]) 0 = Locked (CSignal 2 Term)"
  "ts_pc (run (tasks_event Debug (\<lambda>_. ''d'') cap) busy_start [Move 0, Move 0]) 1 = Start (busy_calls 1)"
  "ts_registry (run (tasks_event Debug (\<lambda>_. ''d'') cap) busy_start [Move 0, Move 0]) = two_daemons"
  "ts_channels (run (tasks_event Debug (\<lambda>_. ''d'') cap) busy_start [Move 0, Move 0])
    = \<lparr>ch_queue = (\<lambda>_. [Hup]), ch_closed = (\<lambda>_. False)\<rparr>"
  by (simp_all add: busy_start_def tasks_start_def busy_calls_def task_step_def goes_to_def two_daemons_def
      managed_new_def)

theorem full_channel_blocks_manager_witness:
  "case run (tasks_event Debug (\<lambda>_. ''d'') 1) (run (tasks_event Debug (\<lambda>_. ''d'') 1) busy_start [Move 0, Move 0])
      [Move 1, Move 0, Receive 7, Move 1, Move 0] of
      s \<Rightarrow> ts_pc s 0 = Locked (CSignal 2 Term) \<and> (\<forall>r. ts_pc s 1 \<noteq> Returned r)"
proof -
  let ?s = "run (tasks_event Debug (\<lambda>_. ''d'') 1) busy_start [Move 0, Move 0]"
  have "locks_ok ?s" unfolding busy_start_def by (rule task_locks.run_good [OF tasks_start_locks])
  then have stuck: "stuck_sender 1 0 2 Term 20 ?s"
    by (simp only: stuck_sender_def busy_pc) (simp add: signal_target_def two_daemons_def managed_new_def has_room_def)
  have "held_up 2 (ts_pc ?s 1)" by (simp only: busy_pc) (simp add: held_up_def busy_calls_def)
  from full_channel_blocks_manager [OF stuck this, of "[Move 1, Move 0, Receive 7, Move 1, Move 0]" Debug "\<lambda>_. ''d''"]
  show ?thesis by simp
qed

theorem manager_never_deadlocks_witness:
  "\<exists>u. task_step Debug (\<lambda>_. ''d'') 16 u (run (tasks_event Debug (\<lambda>_. ''d'') 16) busy_start [Move 0, Move 0]) \<noteq> None"
proof (rule manager_never_deadlocks)
  show "run (tasks_event Debug (\<lambda>_. ''d'') 16) busy_start [Move 0, Move 0]
      = run (tasks_event Debug (\<lambda>_. ''d'') 16) (tasks_start busy_calls two_daemons
          \<lparr>ch_queue = (\<lambda>_. [Hup]), ch_closed = (\<lambda>_. False)\<rparr>) [Move 0, Move 0]"
    by (simp only: busy_start_def)
  show "has_room 16 (ts_channels (run (tasks_event Debug (\<lambda>_. ''d'') 16) busy_start [Move 0, Move 0])) h" for h
    by (simp only: busy_pc) (simp add: has_room_def)
  show "ts_pc (run (tasks_event Debug (\<lambda>_. ''d'') 16) busy_start [Move 0, Move 0]) 0 \<noteq> Returned r" for r
    by (simp only: busy_pc) simp
qed

text \<open>Task 0 signals daemon 2, whose channel is full, task 1 registers a daemon; the tasks and the daemon take turns.\<close>

definition one_daemon :: "unit manager" where
  "one_daemon = manager_new
     \<lparr>daemons := [2 \<mapsto> (managed_new 2 ''b'' (config_new ''b'' ''/b''))\<lparr>md_status := Running, md_context_handle := Some ()\<rparr>]\<rparr>"

theorem manager_calls_return_witness:
  "\<exists>n. \<forall>t \<in> {0, 1}. \<exists>r.
    ts_pc (run (tasks_event Debug (\<lambda>_. ''d'') 1)
      (tasks_start (\<lambda>t. if t = 0 then CSignal 2 Term else CRegister 3 ''c'' (config_new ''c'' ''/c'') RNever) one_daemon
        \<lparr>ch_queue = (\<lambda>_. [Hup]), ch_closed = (\<lambda>_. False)\<rparr> :: (unit, unit) tasks_state)
      (map (\<lambda>n. if n mod 3 = 2 then Receive () else Move (n mod 3)) [0..<n])) t = Returned r"
proof (rule manager_calls_return)
  show "in_bounds 1 \<lparr>ch_queue = (\<lambda>_. [Hup]), ch_closed = (\<lambda>_. False)\<rparr>" by (simp add: in_bounds_def)
  fix n u :: nat
  let ?e = "\<lambda>n :: nat. if n mod 3 = 2 then Receive () else Move (n mod 3)"
  have turn: "\<exists>k \<ge> n. k mod 3 = u" if "u < 3" for u using that by (intro exI [of _ "3 * n + u"]) simp
  show "u \<in> {0, 1}" if "?e n = Move u" using that by (auto split: if_splits)
  show "\<exists>k \<ge> n. ?e k = Move u" if u: "u \<in> {0, 1}"
  proof -
    have "u < 3" using u by auto
    then obtain k where "n \<le> k" "k mod 3 = u" using turn by blast
    with u show ?thesis by (intro exI [of _ k]) auto
  qed
  show "(\<forall>n. \<exists>k \<ge> n. ?e k = Receive h) \<or> (\<exists>k. ?e k = Close h)" for h
  proof (intro disjI1 allI)
    fix n :: nat
    have "(3 * n + 2) mod 3 = 2" by presburger
    then show "\<exists>k \<ge> n. ?e k = Receive h" by (intro exI [of _ "3 * n + 2"]) simp
  qed
qed simp_all

end
