(* ===== verification/Example_Daemon.thy ===== *)
theory Example_Daemon
  imports Core_Daemon Core_Metrics Core_Adapter Platform_Memory
begin

text \<open>
  The counter daemon, \<open>examples/daemon.rs\<close>: an implementation of the \<open>Daemon\<close> trait that counts the turns of its
  loop, and the program that locks memory, initialises it, runs it and shuts it down. The world's adapter state is
  the daemon; of the printed text the values are kept. The channel is an argument: what the Ctrl+C task and
  other holders of the handle send, the receiver delivers. \<open>proc_status\<close> reads \<open>/proc/self/status\<close>.
\<close>

section \<open>The daemon\<close>

record counter_daemon =
  cd_id :: daemon_id
  cd_name :: string
  cd_metrics :: metrics
  cd_counter :: u64
  cd_running :: bool
  cd_start_time :: "instant option"

type_synonym 'w counter_world = "(counter_daemon, 'w) world"

definition counter_new :: "daemon_id \<Rightarrow> instant \<Rightarrow> string \<Rightarrow> counter_daemon" where
  "counter_new new_id now name =
     \<lparr>cd_id = new_id, cd_name = name, cd_metrics = metrics_new now, cd_counter = 0, cd_running = False,
      cd_start_time = None\<rparr>"

definition counter_init :: "daemon_config \<Rightarrow> 'w counter_world \<Rightarrow> ('io daemon_error, unit) outcome \<times> 'w counter_world" where
  "counter_init config w =
     (Ok (), w\<lparr>adapter := (adapter w)\<lparr>cd_start_time := Some (clock w), cd_running := True\<rparr>\<rparr>)"

text \<open>What a turn prints.\<close>

record status_line =
  sl_count :: u64
  sl_uptime :: duration
  sl_rate :: f64
  sl_locked :: bool

definition counter_uptime :: "instant \<Rightarrow> counter_daemon \<Rightarrow> duration" where
  "counter_uptime now d = (case cd_start_time d of Some t \<Rightarrow> elapsed now t | None \<Rightarrow> 0)"

text \<open>
  The main loop; the fuel bounds its turns, \<open>None\<close> is running on. The counter wraps, but the printed count is the
  old value plus one, which panics at the top of the range in a debug build.
\<close>

fun counter_run ::
  "nat \<Rightarrow> build \<Rightarrow> ('w \<Rightarrow> string option) \<Rightarrow> 'rx receive \<Rightarrow> 'w sleeper \<Rightarrow> status_line list \<Rightarrow> 'rx daemon_context
   \<Rightarrow> 'w counter_world
   \<Rightarrow> (('io daemon_error, exit_reason) outcome \<times> status_line list \<times> 'rx daemon_context \<times> 'w counter_world) option" where
  "counter_run 0 bld proc_status recv slp printed ctx w = None"
| "counter_run (Suc n) bld proc_status recv slp printed ctx w =
     (if should_shutdown ctx then Some (Ok Graceful, printed, ctx, w)
      else
        (let old = cd_counter (adapter w);
             w1 = w\<lparr>adapter := (adapter w)\<lparr>cd_counter := old + 1\<rparr>\<rparr>
         in case uadd bld old 1 of
              None \<Rightarrow> Some (Panic, printed, ctx, w1)
            | Some count \<Rightarrow>
                (let d = (adapter w1)\<lparr>cd_metrics := record_request (cd_metrics (adapter w1))\<rparr>;
                     w2 = w1\<lparr>adapter := d\<rparr>;
                     line = \<lparr>sl_count = count, sl_uptime = counter_uptime (clock w2) d,
                       sl_rate = requests_per_second (clock w2) (cd_metrics d),
                       sl_locked = is_memory_locked (proc_status (os w2))\<rparr>
                 in case try_recv_signal recv ctx of
                      (Some sig, ctx') \<Rightarrow> Some (Ok Graceful, printed @ [line], ctx', w2)
                    | (None, ctx') \<Rightarrow>
                        counter_run n bld proc_status recv slp (printed @ [line]) ctx' (sleep slp (from_secs 1) w2))))"

definition counter_shutdown ::
  "'w sleeper \<Rightarrow> duration \<Rightarrow> 'w counter_world \<Rightarrow> ('io daemon_error, unit) outcome \<times> 'w counter_world" where
  "counter_shutdown slp timeout w =
     (Ok (), sleep slp (from_millis 100) (w\<lparr>adapter := (adapter w)\<lparr>cd_running := False\<rparr>\<rparr>))"

definition counter_health_check :: "duration option \<Rightarrow> counter_daemon \<Rightarrow> health_status" where
  "counter_health_check since_epoch d =
     (if cd_running d then health_ok since_epoch 1 else health_bad since_epoch ''Daemon not running'' 0)"

section \<open>The program\<close>

text \<open>What \<open>main\<close> leaves: what it printed about memory and health, the status lines, the exit reason, the daemon.\<close>

record 'rx example_end =
  ee_mlock :: "(p_error, mlock_result) outcome option"
  ee_healthy :: bool
  ee_lines :: "status_line list"
  ee_reason :: exit_reason
  ee_context :: "'rx daemon_context"
  ee_daemon :: counter_daemon

definition has_flag :: "string \<Rightarrow> string list \<Rightarrow> bool" where
  "has_flag flag args \<longleftrightarrow> list_ex (\<lambda>a. a = flag) args"

text \<open>\<open>None\<close>: still running; the inner \<open>None\<close> is the help text.\<close>

definition example_daemon ::
  "nat \<Rightarrow> build \<Rightarrow> (i32 \<Rightarrow> 'w lock_call) \<Rightarrow> ('w \<Rightarrow> string option) \<Rightarrow> 'rx receive \<Rightarrow> 'w sleeper \<Rightarrow> daemon_id
   \<Rightarrow> duration option \<Rightarrow> string list \<Rightarrow> 'rx \<Rightarrow> (unit, 'w) world
   \<Rightarrow> (('io daemon_error, 'rx example_end option) outcome \<times> (unit, 'w) world) option" where
  "example_daemon n bld mlockall proc_status recv slp new_id since_epoch args rx w =
     (if has_flag ''--help'' args \<or> has_flag ''-h'' args then Some (Ok None, w)
      else
        (let (locked, o1) =
               (if has_flag ''--mlock'' args
                then (case lock_daemon_memory mlockall False (os w) of (r, o') \<Rightarrow> (Some r, o'))
                else (None, os w));
             w1 = \<lparr>clock = clock w, adapter = counter_new new_id (clock w) ''counter-daemon'', os = o1\<rparr>;
             config = config_new ''counter-daemon'' ''/usr/bin/counter-daemon'';
             (ctx, handle) = context_new rx () config
         in case counter_init config w1 of
              (Ok _, w2) \<Rightarrow>
                (let healthy = is_healthy (counter_health_check since_epoch (adapter w2)) in
                 case counter_run n bld proc_status recv slp [] ctx w2 of
                   None \<Rightarrow> None
                 | Some (Ok reason, printed, ctx', w3) \<Rightarrow>
                     (case counter_shutdown slp (from_secs 5) w3 of
                        (Ok _, w4) \<Rightarrow>
                          Some (Ok (Some \<lparr>ee_mlock = locked, ee_healthy = healthy, ee_lines = printed,
                              ee_reason = reason, ee_context = ctx', ee_daemon = adapter w4\<rparr>),
                            \<lparr>clock = clock w4, adapter = (), os = os w4\<rparr>)
                      | (Err e, w4) \<Rightarrow> Some (Err e, \<lparr>clock = clock w4, adapter = (), os = os w4\<rparr>)
                      | (Panic, w4) \<Rightarrow> Some (Panic, \<lparr>clock = clock w4, adapter = (), os = os w4\<rparr>))
                 | Some (Err e, _, _, w3) \<Rightarrow> Some (Err e, \<lparr>clock = clock w3, adapter = (), os = os w3\<rparr>)
                 | Some (Panic, _, _, w3) \<Rightarrow> Some (Panic, \<lparr>clock = clock w3, adapter = (), os = os w3\<rparr>))
            | (Err e, w2) \<Rightarrow> Some (Err e, \<lparr>clock = clock w2, adapter = (), os = os w2\<rparr>)
            | (Panic, w2) \<Rightarrow> Some (Panic, \<lparr>clock = clock w2, adapter = (), os = os w2\<rparr>)))"

section \<open>A run\<close>

lemma counter_run_signal:
  assumes "\<not> should_shutdown ctx" "cx_signal_rx ctx = replicate k None @ Some s # rest" "k < n"
    and "unat (cd_counter (adapter w)) + k + 1 < 2 ^ 64"
  shows "\<exists>printed' ctx' w'. counter_run n bld proc_status polled slp printed ctx w 
      = Some (Ok Graceful :: ('io daemon_error, exit_reason) outcome, printed', ctx', w')
    \<and> length printed' = length printed + k + 1 \<and> cx_signal_rx ctx' = rest \<and> (should_shutdown ctx' \<longleftrightarrow> terminates s)
    \<and> cd_counter (adapter w') = cd_counter (adapter w) + of_nat (k + 1)
    \<and> requests_total (cd_metrics (adapter w')) = requests_total (cd_metrics (adapter w)) + of_nat (k + 1)
    \<and> cd_running (adapter w') = cd_running (adapter w) \<and> clock w + from_secs k \<le> clock w'"
  using assms
proof (induction k arbitrary: n printed ctx w)
  case 0
  then obtain n' where n: "n = Suc n'" by (cases n) auto
  have "uadd bld (cd_counter (adapter w)) 1 = Some (cd_counter (adapter w) + 1)"
    using "0.prems"(4) by (intro uadd_in_range) simp
  with "0.prems"(1,2) n show ?case
    by (auto simp: Let_def try_recv_signal_def polled_def record_request_def should_shutdown_def)
next
  case (Suc k)
  then obtain n' where n: "n = Suc n'" by (cases n) auto
  have add: "uadd bld (cd_counter (adapter w)) 1 = Some (cd_counter (adapter w) + 1)"
    using Suc.prems(4) by (intro uadd_in_range) simp
  have suc: "unat (cd_counter (adapter w) + 1) = Suc (unat (cd_counter (adapter w)))"
    using Suc.prems(4) by (intro unat_suc_in_range) simp
  define d where "d = (adapter w)\<lparr>cd_counter := cd_counter (adapter w) + 1, cd_metrics := record_request (cd_metrics (adapter w))\<rparr>"
  define ctx1 where "ctx1 = ctx\<lparr>cx_signal_rx := replicate k None @ Some s # rest\<rparr>"
  define w1 where "w1 = sleep slp (from_secs 1) (w\<lparr>adapter := d\<rparr>)"
  have w1: "adapter w1 = d" "clock w + from_secs 1 \<le> clock w1"
    using sleep_clock [of "w\<lparr>adapter := d\<rparr>" "from_secs 1" slp] by (simp_all add: w1_def)
  obtain line where step: "(counter_run n bld proc_status polled slp printed ctx w ::
      (('io daemon_error, exit_reason) outcome \<times> _) option)
      = counter_run n' bld proc_status polled slp (printed @ [line]) ctx1 w1"
    using Suc.prems(1,2) n add
    by (auto simp: Let_def try_recv_signal_def polled_def ctx1_def w1_def d_def)
  have prems: "\<not> should_shutdown ctx1" "cx_signal_rx ctx1 = replicate k None @ Some s # rest" "k < n'"
    "unat (cd_counter (adapter w1)) + k + 1 < 2 ^ 64"
    using Suc.prems n suc w1(1) by (simp_all add: ctx1_def should_shutdown_def d_def)
  obtain printed' ctx' w' where "counter_run n' bld proc_status polled slp (printed @ [line]) ctx1 w1
      = Some (Ok Graceful :: ('io daemon_error, exit_reason) outcome, printed', ctx', w')"
    and rest: "length printed' = length (printed @ [line]) + k + 1" "cx_signal_rx ctx' = rest"
      "should_shutdown ctx' \<longleftrightarrow> terminates s"
      "cd_counter (adapter w') = cd_counter (adapter w1) + of_nat (k + 1)"
      "requests_total (cd_metrics (adapter w')) = requests_total (cd_metrics (adapter w1)) + of_nat (k + 1)"
      "cd_running (adapter w') = cd_running (adapter w1)" "clock w1 + from_secs k \<le> clock w'"
    using Suc.IH [OF prems, of "printed @ [line]"] by blast
  with step w1 show ?case
    by (intro exI [of _ printed'] exI [of _ ctx'] exI [of _ w']) (simp add: d_def record_request_def)
qed


text \<open>The program ends by a signal, whichever it is: when the first signal is found at the \<open>k\<close>-th look, the loop
  has counted \<open>k + 1\<close> turns, recorded as many requests and printed as many lines, the program exits gracefully
  with the daemon stopped after at least \<open>k\<close> seconds, the context's flag is set exactly for a termination signal, and
  a refused memory lock is only reported.\<close>

theorem example_daemon_ends_by_signal:
  fixes w :: "(unit, 'w) world"
  assumes "\<not> has_flag ''--help'' args" "\<not> has_flag ''-h'' args" "k < n" "k + 1 < 2 ^ 64"
  shows "\<exists>e w'. example_daemon n bld mlockall ps polled slp i since args (replicate k None @ Some s # rest) w
        = Some (Ok (Some e) :: ('io daemon_error, _) outcome, w')
    \<and> ee_reason e = Graceful \<and> ee_healthy e \<and> length (ee_lines e) = k + 1
    \<and> cd_counter (ee_daemon e) = of_nat (k + 1) \<and> requests_total (cd_metrics (ee_daemon e)) = of_nat (k + 1)
    \<and> is_healthy (counter_health_check since (ee_daemon e)) = False
    \<and> (should_shutdown (ee_context e) \<longleftrightarrow> terminates s)
    \<and> ee_mlock e = (if has_flag ''--mlock'' args then Some (fst (lock_daemon_memory mlockall False (os w))) else None)
    \<and> clock w + from_secs k + from_millis 100 \<le> clock w'"
proof -
  define locked where "locked = (if has_flag ''--mlock'' args
      then (case lock_daemon_memory mlockall False (os w) of (r, o') \<Rightarrow> (Some r, o')) else (None, os w))"
  let ?ctx = "fst (context_new (replicate k None @ Some s # rest) () (config_new ''counter-daemon'' ''/usr/bin/counter-daemon''))"
  define w1 where "w1 = \<lparr>clock = clock w,
      adapter = (counter_new i (clock w) ''counter-daemon'')\<lparr>cd_start_time := Some (clock w), cd_running := True\<rparr>,
      os = snd locked\<rparr>"
  have fresh: "\<not> should_shutdown ?ctx" "cx_signal_rx ?ctx = replicate k None @ Some s # rest"
    "unat (cd_counter (adapter w1)) + k + 1 < 2 ^ 64"
    using assms(4) by (simp_all add: context_new_def should_shutdown_def w1_def counter_new_def)
  from counter_run_signal [OF fresh(1,2) assms(3) fresh(3), of bld ps slp "[]"]
  obtain printed ctx' w' where run: "counter_run n bld ps polled slp [] ?ctx w1
      = Some (Ok Graceful :: ('io daemon_error, exit_reason) outcome, printed, ctx', w')"
    and counted: "length printed = k + 1" "should_shutdown ctx' \<longleftrightarrow> terminates s"
      "cd_counter (adapter w') = cd_counter (adapter w1) + of_nat (k + 1)"
      "requests_total (cd_metrics (adapter w')) = requests_total (cd_metrics (adapter w1)) + of_nat (k + 1)"
      "clock w1 + from_secs k \<le> clock w'"
    by auto
  let ?d = "(adapter w')\<lparr>cd_running := False\<rparr>"
  let ?w4 = "sleep slp (from_millis 100) (w'\<lparr>adapter := ?d\<rparr>)"
  let ?e = "\<lparr>ee_mlock = fst locked, ee_healthy = True, ee_lines = printed, ee_reason = Graceful, ee_context = ctx', ee_daemon = ?d\<rparr>"
  have "clock w' + from_millis 100 \<le> clock ?w4" using sleep_clock [of "w'\<lparr>adapter := ?d\<rparr>"] by simp
  then have late: "clock w + from_secs k + from_millis 100 \<le> clock ?w4" using counted(5) by (simp add: w1_def)
  have "example_daemon n bld mlockall ps polled slp i since args (replicate k None @ Some s # rest) w
        = Some (Ok (Some ?e) :: ('io daemon_error, _) outcome, \<lparr>clock = clock ?w4, adapter = (), os = os ?w4\<rparr>)"
    using assms(1,2) run unfolding example_daemon_def locked_def [symmetric]
    by (simp add: case_prod_beta Let_def context_new_def counter_init_def w1_def counter_shutdown_def
        counter_health_check_def health_ok_def is_healthy_def)
  moreover have "fst locked = (if has_flag ''--mlock'' args then Some (fst (lock_daemon_memory mlockall False (os w))) else None)"
    by (simp add: locked_def case_prod_beta)
  ultimately show ?thesis using counted(1-4) late
    by (intro exI [of _ ?e] exI [of _ "\<lparr>clock = clock ?w4, adapter = (), os = os ?w4\<rparr>"])
      (simp add: w1_def counter_new_def metrics_new_def counter_health_check_def is_healthy_def health_bad_def)
qed

theorem example_daemon_ends_by_signal_witness:
  "\<exists>e w'. example_daemon 3 Debug (\<lambda>_ x. (Some 1, x)) (\<lambda>_. None) polled (\<lambda>d x. (0, x)) 7 None [''daemon'', ''--mlock'']
        [None, None, Some Hup] \<lparr>clock = 0, adapter = (), os = ()\<rparr>
        = Some (Ok (Some e) :: (unit daemon_error, _) outcome, w')
    \<and> cd_counter (ee_daemon e) = 3 \<and> \<not> should_shutdown (ee_context e) \<and> ee_mlock e = Some (Ok (MLFailed 1))"
proof -
  have two: "replicate 2 None = [None, None :: signal option]" by (simp add: numeral_2_eq_2)
  show ?thesis
    using example_daemon_ends_by_signal [of "[''daemon'', ''--mlock'']" 2 3 Debug "\<lambda>_ x. (Some 1, x)" "\<lambda>_. None" "\<lambda>d x. (0, x)"
        7 None Hup "[]" "\<lparr>clock = 0, adapter = (), os = ()\<rparr>"]
    by (auto simp: has_flag_def lock_daemon_memory_def two)
qed

text \<open>With no signal the loop of a release build never ends, however long it is given.\<close>

theorem counter_runs_on:
  "\<not> cx_shutdown ctx \<Longrightarrow> cx_signal_rx ctx = [] \<Longrightarrow> counter_run n Release ps polled slp printed ctx w = None"
proof (induction n arbitrary: printed ctx w)
  case (Suc n)
  then show ?case
    by (simp add: should_shutdown_def Let_def try_recv_signal_def polled_def)
qed simp

text \<open>A shutdown asked for before the loop starts: no turn is taken.\<close>

lemma counter_run_asked:
  "should_shutdown ctx \<Longrightarrow> counter_run (Suc n) bld ps recv slp printed ctx w = Some (Ok Graceful, printed, ctx, w)"
  by simp

end
