(* ===== verification/Programs.thy ===== *)
theory Programs
  imports Platform_Memory Ublk
begin

text \<open>
  The programs that come with the crates: \<open>examples/mlock.rs\<close>, \<open>duende-mlock/examples/test_lock.rs\<close>,
  \<open>duende-ublk/examples/cleanup.rs\<close> and the test runner \<open>duende-platform/src/bin/mlock-docker-test.rs\<close>. Printing is
  their purpose, so the lines they print are part of the model. The kernel calls, the files under \<open>/proc\<close>, the
  commands and the block driver are arguments, as in the crates they use. The log subscriber is left out.
\<close>

datatype console = Println string | Eprintln string

definition has_arg :: "string \<Rightarrow> string list \<Rightarrow> bool" where
  "has_arg arg args \<longleftrightarrow> list_ex (\<lambda>a. a = arg) args"

definition show_bool :: "bool \<Rightarrow> string" where
  "show_bool b = (if b then ''true'' else ''false'')"

section \<open>The memory locking example\<close>

text \<open>\<open>u64::from_str_radix(hex, 16)\<close>.\<close>

definition hex_digit :: "char \<Rightarrow> nat option" where
  "hex_digit c =
     (let n = of_char c :: nat in
      if 48 \<le> n \<and> n \<le> 57 then Some (n - 48)
      else if 97 \<le> n \<and> n \<le> 102 then Some (n - 87)
      else if 65 \<le> n \<and> n \<le> 70 then Some (n - 55)
      else None)"

fun hex_digits :: "nat \<Rightarrow> string \<Rightarrow> nat option" where
  "hex_digits acc [] = Some acc"
| "hex_digits acc (c # cs) = (case hex_digit c of Some d \<Rightarrow> hex_digits (16 * acc + d) cs | None \<Rightarrow> None)"

definition parse_hex_u64 :: "string \<Rightarrow> u64 option" where
  "parse_hex_u64 s =
     (let ds = (case s of c # cs \<Rightarrow> if c = CHR ''+'' \<and> cs \<noteq> [] then cs else s | [] \<Rightarrow> []) in
      if ds = [] then None
      else (case hex_digits 0 ds of Some n \<Rightarrow> if n < 2 ^ 64 then Some (of_nat n) else None | None \<Rightarrow> None))"

definition get_vmlck_kb :: "string option \<Rightarrow> u64" where
  "get_vmlck_kb proc_status =
     (case proc_status of
        Some text \<Rightarrow> (case find_map vm_lck_kb (lines text) of Some kb \<Rightarrow> kb | None \<Rightarrow> 0)
      | None \<Rightarrow> 0)"

definition vmlck_line :: "string option \<Rightarrow> console" where
  "vmlck_line proc_status = Println (''  VmLck: '' @ show_word (get_vmlck_kb proc_status) @ '' KB'')"

text \<open>The verdict on \<open>CAP_IPC_LOCK\<close>, bit 14 of the effective capabilities.\<close>

definition cap_ipc_lock :: "string \<Rightarrow> bool option" where
  "cap_ipc_lock line =
     (if prefix ''CapEff:'' line then
        (let parts = split_whitespace line in
         if 2 \<le> length parts
         then map_option (\<lambda>caps. and caps (push_bit 14 1) \<noteq> 0) (parse_hex_u64 (parts ! 1)) else None)
      else None)"

definition cap_lines :: "bool \<Rightarrow> console list" where
  "cap_lines granted =
     [Println '''', Println (''CAP_IPC_LOCK: '' @ (if granted then ''GRANTED'' else ''NOT GRANTED''))]"

definition print_status :: "string option \<Rightarrow> string option \<Rightarrow> console list" where
  "print_status proc_status proc_limits =
     [Println ''=== Memory Lock Status ==='', Println '''',
      Println (''Memory Locked: '' @ (if is_memory_locked proc_status then ''YES'' else ''NO'')),
      Println (''VmLck: '' @ show_word (get_vmlck_kb proc_status) @ '' KB''),
      Println '''', Println ''Capabilities:'']
     @ (case proc_status of
          Some text \<Rightarrow>
            map (\<lambda>line. Println (''  '' @ line)) (filter (prefix ''Cap'') (lines text))
            @ concat (map cap_lines (List.map_filter cap_ipc_lock (lines text)))
        | None \<Rightarrow> [])
     @ [Println '''', Println ''Memory Lock Limits:'']
     @ (case proc_limits of
          Some text \<Rightarrow> map (\<lambda>line. Println (''  '' @ line)) (filter (contains ''locked'') (lines text))
        | None \<Rightarrow> [])"

definition print_help :: "console list" where
  "print_help = map Println
     [''duende mlock Example - DT-007: Swap Deadlock Prevention'',
      '''',
      ''USAGE:'',
      ''    cargo run --example mlock [OPTIONS]'',
      '''',
      ''OPTIONS:'',
      ''    --required    Make mlock failure fatal (exit with error)'',
      ''    --status      Print current memory lock status and exit'',
      ''    --help, -h    Print this help message'',
      '''',
      ''DESCRIPTION:'',
      ''    This example demonstrates duende'' @ [CHR 0x27] @ ''s memory locking capability, which is'',
      ''    CRITICAL for daemons that serve as swap devices (e.g., trueno-ublk).'',
      '''',
      ''    Without memory locking, a swap-device daemon can deadlock:'',
      ''    1. Kernel needs to swap pages OUT to the daemon'' @ [CHR 0x27] @ ''s device'',
      ''    2. Daemon needs memory to process I/O request'',
      ''    3. Kernel tries to swap out daemon'' @ [CHR 0x27] @ ''s pages to free memory'',
      ''    4. Swap goes to the same daemon '' @ [CHR 0xE2, CHR 0x86, CHR 0x92] @ '' DEADLOCK'',
      '''',
      ''EXAMPLES:'',
      ''    # Basic test (may succeed or fail depending on privileges)'',
      ''    cargo run --example mlock'',
      '''',
      ''    # Require mlock to succeed (for swap device daemons)'',
      ''    cargo run --example mlock -- --required'',
      '''',
      ''    # Check current status'',
      ''    cargo run --example mlock -- --status'',
      '''',
      ''    # Run in Docker with proper capabilities'',
      ''    docker run --rm --cap-add=IPC_LOCK -v $(pwd):/app -w /app rust:1.83 '' @ [CHR 0x5C],
      ''        cargo run --example mlock -- --required'',
      '''']"

text \<open>What is printed for the answer of \<open>lock_daemon_memory\<close>.\<close>

fun direct_lines :: "string option \<Rightarrow> (p_error, mlock_result) outcome \<Rightarrow> console list" where
  "direct_lines st (Ok MLSuccess) = [Println ''  Result: SUCCESS - All memory locked'', vmlck_line st]"
| "direct_lines st (Ok MLDisabled) = [Println (''  Result: DISABLED - Platform doesn'' @ [CHR 0x27] @ ''t support mlock'')]"
| "direct_lines st (Ok (MLFailed errno)) =
     [Println (''  Result: FAILED (errno='' @ show_i32 errno @ '') - Continuing anyway''),
      Println ''  Hint: Run with CAP_IPC_LOCK or as root'']"
| "direct_lines st (Err e) =
     [Println (''  Result: ERROR - '' @ show_p_error e), Println ''  This is fatal because required=true'']"
| "direct_lines st Panic = []"

text \<open>The exit code, the lines and the world the kernel calls leave.\<close>

definition mlock_example ::
  "(i32 \<Rightarrow> 'w lock_call) \<Rightarrow> 'w lock_call \<Rightarrow> ('w \<Rightarrow> string option) \<Rightarrow> ('w \<Rightarrow> string option) \<Rightarrow> string list \<Rightarrow> 'w
   \<Rightarrow> nat \<times> console list \<times> 'w" where
  "mlock_example mlockall munlockall proc_status proc_limits args w =
     (if has_arg ''--help'' args \<or> has_arg ''-h'' args then (0, print_help, w)
      else if has_arg ''--status'' args then (0, print_status (proc_status w) (proc_limits w), w)
      else
        (let required = has_arg ''--required'' args;
             out1 = [Println ''=== duende mlock Example ==='', Println ''DT-007: Swap Deadlock Prevention'', Println '''',
               Println ''Method 1: Direct lock_daemon_memory() call'', Println (''  required = '' @ show_bool required)];
             (direct, w1) = lock_daemon_memory mlockall required w;
             out2 = out1 @ direct_lines (proc_status w1) direct
         in case direct of
              Ok _ \<Rightarrow>
                (let (_, w2) = unlock_daemon_memory munlockall w1;
                     config = resource_default\<lparr>rc_lock_memory := True, rc_lock_memory_required := required\<rparr>;
                     out3 = out2 @ [Println '''', Println ''Method 2: Using apply_memory_config()'',
                       Println (''  lock_memory = '' @ show_bool (rc_lock_memory config)),
                       Println (''  lock_memory_required = '' @ show_bool (rc_lock_memory_required config))];
                     (applied, w3) = apply_memory_config mlockall config w2;
                     closing = [Println '''', Println ''=== Example Complete ==='', Println '''',
                       Println ''For production use in containers:'',
                       Println ''  docker run --cap-add=IPC_LOCK --ulimit memlock=-1:-1 ...'']
                 in case applied of
                      Ok _ \<Rightarrow> (0, out3 @ [Println ''  Result: SUCCESS'', vmlck_line (proc_status w3)] @ closing, w3)
                    | Err e \<Rightarrow>
                        if required then (1, out3 @ [Println (''  Result: ERROR - '' @ show_p_error e)], w3)
                        else (0, out3 @ [Println (''  Result: ERROR - '' @ show_p_error e)] @ closing, w3)
                    | Panic \<Rightarrow> (101, out3, w3))
            | Err e \<Rightarrow> (1, out2, w1)
            | Panic \<Rightarrow> (101, out2, w1)))"

section \<open>The smaller examples\<close>

text \<open>\<open>test_lock\<close>: what is locked before, the answer, what is locked after; the panic of \<open>locked_bytes\<close> in a debug
  build ends it.\<close>

definition probe :: "build \<Rightarrow> string option \<Rightarrow> (unit, bool \<times> u64) outcome" where
  "probe bld st = and_then (is_locked bld st) (\<lambda>l. and_then (locked_bytes bld st) (\<lambda>n. Ok (l, n)))"

definition test_lock ::
  "build \<Rightarrow> (i32 \<Rightarrow> 'w lock_call) \<Rightarrow> ('w \<Rightarrow> string option) \<Rightarrow> 'w
   \<Rightarrow> (unit, (bool \<times> u64) \<times> (mlock_error, mlock_status) outcome \<times> (bool \<times> u64)) outcome \<times> 'w" where
  "test_lock bld mlockall proc_status w =
     (case probe bld (proc_status w) of
        Ok before \<Rightarrow>
          (case lock_all bld mlockall proc_status w of
             (Panic, w') \<Rightarrow> (Panic, w')
           | (r, w') \<Rightarrow> (and_then (probe bld (proc_status w')) (\<lambda>after. Ok (before, r, after)), w'))
      | Err e \<Rightarrow> (Err e, w)
      | Panic \<Rightarrow> (Panic, w))"

text \<open>\<open>cleanup\<close>: device 0 is forced out through a control device of its own, whatever that answers, then the orphans
  are cleaned up through another, opened while the first is still open. \<open>open2\<close> is that second opening.\<close>

definition cleanup_example ::
  "('io, 'k) uring \<Rightarrow> 'io dev_fs \<Rightarrow> ('k ctrl \<Rightarrow> string \<Rightarrow> bool) \<Rightarrow> ('io ublk_error, 'k ctrl) outcome
   \<Rightarrow> ('k ctrl \<Rightarrow> ('io ublk_error, 'k ctrl) outcome)
   \<Rightarrow> ('io ublk_error, ('io ublk_error, bool) outcome \<times> nat) outcome option" where
  "cleanup_example u fs look open1 open2 =
     (case open_control fs open1 of
        Ok c \<Rightarrow>
          (case force_delete u 0 c of
             Some (Panic, _) \<Rightarrow> Some Panic
           | Some (forced, c') \<Rightarrow>
               map_option (\<lambda>r. and_then r (\<lambda>cleaned. Ok (forced, cleaned))) (cleanup_orphaned_devices u fs look (open2 c'))
           | None \<Rightarrow> None)
      | Err e \<Rightarrow> Some (Err e)
      | Panic \<Rightarrow> Some Panic)"

section \<open>The Docker test runner\<close>

text \<open>The world's adapter state is what was printed so far. \<open>exec\<close> runs a command and waits, for \<open>Command::output\<close> and
  \<open>Command::status\<close> alike.\<close>

type_synonym 'w runner_world = "(console list, 'w) world"

definition say :: "string \<Rightarrow> 'w runner_world \<Rightarrow> 'w runner_world" where
  "say line w = w\<lparr>adapter := adapter w @ [Println line]\<rparr>"

definition complain :: "string \<Rightarrow> 'w runner_world \<Rightarrow> 'w runner_world" where
  "complain line w = w\<lparr>adapter := adapter w @ [Eprintln line]\<rparr>"

definition colour :: "string \<Rightarrow> string \<Rightarrow> string" where
  "colour code text = [CHR 0x1B] @ ''['' @ code @ ''m'' @ text @ [CHR 0x1B] @ ''[0m''"

definition image_name :: string where
  "image_name = ''duende-mlock-test''"

definition dockerfile :: string where
  "dockerfile = ''docker/Dockerfile.mlock-test''"

definition succeeded :: "(string, cmd_output) outcome \<Rightarrow> bool" where
  "succeeded r = (case r of Ok out \<Rightarrow> out_success out | _ \<Rightarrow> False)"

definition check_docker :: "'w exec \<Rightarrow> 'w runner_world \<Rightarrow> bool \<times> 'w runner_world" where
  "check_docker exec w = apfst succeeded (run_command exec [''docker'', ''--version''] w)"

definition image_exists :: "'w exec \<Rightarrow> 'w runner_world \<Rightarrow> bool \<times> 'w runner_world" where
  "image_exists exec w = apfst succeeded (run_command exec [''docker'', ''image'', ''inspect'', image_name] w)"

definition build_image :: "'w exec \<Rightarrow> 'w runner_world \<Rightarrow> bool \<times> 'w runner_world" where
  "build_image exec w =
     (case run_command exec [''docker'', ''build'', ''-f'', dockerfile, ''-t'', image_name, ''.'']
         (say (colour ''32'' ''[INFO]'' @ '' Building Docker test image: '' @ image_name) w) of
        (Ok out, w') \<Rightarrow> (out_success out, w')
      | (Err e, w') \<Rightarrow> (False, complain (''Failed to run docker build: '' @ e) w')
      | (Panic, w') \<Rightarrow> (False, w'))"

definition show_code :: "i32 option \<Rightarrow> string" where
  "show_code code = (case code of Some n \<Rightarrow> ''Some('' @ show_i32 n @ '')'' | None \<Rightarrow> ''None'')"

definition run_test :: "'w exec \<Rightarrow> string \<Rightarrow> string list \<Rightarrow> 'w runner_world \<Rightarrow> bool \<times> 'w runner_world" where
  "run_test exec name docker_args w =
     (let w1 = say '''' (say (''Docker args: '' @ (if docker_args = [] then ''none'' else join '' '' docker_args))
                 (say (colour ''33'' (''=== '' @ name @ '' ==='')) (say '''' w)))
      in case run_command exec ([''docker'', ''run'', ''--rm''] @ docker_args @ [image_name]) w1 of
           (Ok out, w2) \<Rightarrow>
             if out_success out then (True, say (colour ''32'' ''PASSED'' @ '': '' @ name) (say '''' w2))
             else (False, say (colour ''31'' ''FAILED'' @ '': '' @ name @ '' (exit code: '' @ show_code (out_code out) @ '')'')
                 (say '''' w2))
         | (Err e, w2) \<Rightarrow>
             (False, say (colour ''31'' ''FAILED'' @ '': '' @ name @ '' (error: '' @ e @ '')'') (say '''' w2))
         | (Panic, w2) \<Rightarrow> (False, w2))"

definition docker_tests :: "(string \<times> string list) list" where
  "docker_tests =
     [(''Default container (no CAP_IPC_LOCK)'', []),
      (''With CAP_IPC_LOCK'', [''--cap-add=IPC_LOCK'']),
      (''With CAP_IPC_LOCK + unlimited memlock'', [''--cap-add=IPC_LOCK'', ''--ulimit'', ''memlock=-1:-1'']),
      (''Privileged container'', [''--privileged'']),
      (''With seccomp=unconfined'', [''--cap-add=IPC_LOCK'', ''--security-opt'', ''seccomp=unconfined''])]"

fun run_tests ::
  "'w exec \<Rightarrow> (string \<times> string list) list \<Rightarrow> nat \<Rightarrow> nat \<Rightarrow> 'w runner_world \<Rightarrow> nat \<times> nat \<times> 'w runner_world" where
  "run_tests exec [] passed failed w = (passed, failed, w)"
| "run_tests exec ((name, docker_args) # ts) passed failed w =
     (case run_test exec name docker_args w of
        (True, w') \<Rightarrow> run_tests exec ts (passed + 1) failed w'
      | (False, w') \<Rightarrow> run_tests exec ts passed (failed + 1) w')"

definition say_all :: "string list \<Rightarrow> 'w runner_world \<Rightarrow> 'w runner_world" where
  "say_all ls w = fold say ls w"

text \<open>\<open>main\<close>, the tests and the summary first; \<open>True\<close> is \<open>ExitCode::SUCCESS\<close>.\<close>

definition rule_line :: string where
  "rule_line = replicate 40 (CHR ''='')"

definition docker_suite :: "'w exec \<Rightarrow> 'w runner_world \<Rightarrow> bool \<times> 'w runner_world" where
  "docker_suite exec w =
     (case run_tests exec docker_tests 0 0 (say '''' w) of
        (passed, failed, w1) \<Rightarrow>
          (let w2 = say_all ['''', rule_line, ''Test Summary'', rule_line,
                 ''Passed: '' @ colour ''32'' (show_nat passed),
                 ''Failed: '' @ colour ''31'' (show_nat failed), ''''] w1
           in if 0 < failed
              then (False, say_all
                [colour ''33'' ''[WARN]''
                   @ '' Some tests failed - this may be expected depending on Docker configuration'', '''',
                 ''For production trueno-ublk containers, use:'',
                 ''  docker run --cap-add=IPC_LOCK --ulimit memlock=-1:-1 ...'', '''',
                 ''Or in docker-compose.yml:'', ''  cap_add:'', ''    - IPC_LOCK'', ''  ulimits:'',
                 ''    memlock:'', ''      soft: -1'', ''      hard: -1''] w2)
              else (True, say (colour ''32'' ''[INFO]'' @ '' All tests passed!'') w2)))"

definition docker_main :: "'w exec \<Rightarrow> string list \<Rightarrow> 'w runner_world \<Rightarrow> bool \<times> 'w runner_world" where
  "docker_main exec args w =
     (case check_docker exec
         (say_all [rule_line, ''duende mlock Docker Test Suite'', ''DT-007: Swap Deadlock Prevention'', rule_line, ''''] w) of
        (False, w2) \<Rightarrow> (False, complain (colour ''31'' ''[ERROR]'' @ '' Docker is not installed or not in PATH'') w2)
      | (True, w2) \<Rightarrow>
          (case (if has_arg ''--build'' args then (True, w2) else apfst Not (image_exists exec w2)) of
             (True, w3) \<Rightarrow>
               (case build_image exec w3 of
                  (False, w4) \<Rightarrow> (False, complain (colour ''31'' ''[ERROR]'' @ '' Failed to build Docker image'') w4)
                | (True, w4) \<Rightarrow> docker_suite exec w4)
           | (False, w3) \<Rightarrow>
               docker_suite exec (say (colour ''32'' ''[INFO]'' @ '' Using existing image: '' @ image_name) w3)))"

section \<open>What the examples answer\<close>

lemma locked_iff_kb: "is_memory_locked st \<longleftrightarrow> 0 < get_vmlck_kb st"
  by (simp add: is_memory_locked_def get_vmlck_kb_def split: option.split)

text \<open>The exit code of the locking example: one exactly when locking was required and one of its two requests was
  refused, and then the requests after a refused first one are not made; otherwise zero, with the memory locked, unlocked and
  locked again; help and status ask the kernel nothing.\<close>

theorem mlock_example_exit:
  "(case mlockall 3 w of (first, w1) \<Rightarrow>
      case munlockall w1 of (released, w2) \<Rightarrow>
        case mlockall 3 w2 of (second, w3) \<Rightarrow>
          case mlock_example mlockall munlockall proc_status proc_limits args w of (code, out, w') \<Rightarrow>
            (code, w') =
              (if has_arg ''--help'' args \<or> has_arg ''-h'' args \<or> has_arg ''--status'' args then (0, w)
               else if has_arg ''--required'' args \<and> first \<noteq> None then (1, w1)
               else (if has_arg ''--required'' args \<and> second \<noteq> None then 1 else 0, w3)))"
proof -
  obtain first w1 where first: "mlockall 3 w = (first, w1)" by fastforce
  obtain released w2 where released: "munlockall w1 = (released, w2)" by fastforce
  obtain second w3 where second: "mlockall 3 w2 = (second, w3)" by fastforce
  show ?thesis
    by (cases first; cases released; cases second)
      (simp_all add: first released second mlock_example_def lock_daemon_memory_def unlock_daemon_memory_def
        apply_memory_config_def Let_def)
qed

text \<open>Capabilities as the kernel prints them: hexadecimal digits, padded with zeros.\<close>

definition hex_char :: "nat \<Rightarrow> char" where
  "hex_char d = (if d < 10 then char_of (48 + d) else char_of (87 + d))"

fun show_hex :: "nat \<Rightarrow> string" where
  "show_hex n = (if n < 16 then [hex_char n] else show_hex (n div 16) @ [hex_char (n mod 16)])"

declare show_hex.simps [simp del]

lemma hex_char_props:
  assumes "d < 16"
  shows "hex_digit (hex_char d) = Some d" and "graphic (hex_char d)" and "hex_char d \<noteq> CHR ''+''"
proof -
  show digit: "hex_digit (hex_char d) = Some d"
    using assms by (simp add: hex_digit_def hex_char_def Let_def)
  show "graphic (hex_char d)"
    using assms by (simp add: graphic_def hex_char_def)
  have "hex_digit (CHR ''+'') = None" by (simp add: hex_digit_def)
  with digit show "hex_char d \<noteq> CHR ''+''" by auto
qed

lemma hex_digits_append:
  "hex_digits acc (xs @ ys) = (case hex_digits acc xs of Some n \<Rightarrow> hex_digits n ys | None \<Rightarrow> None)"
  by (induction xs arbitrary: acc) (simp_all split: option.split)

lemma hex_digits_show: "hex_digits 0 (show_hex n) = Some n"
proof (induction n rule: show_hex.induct)
  case (1 n)
  then show ?case
    by (cases "n < 16") (simp_all add: show_hex.simps [of n] hex_char_props hex_digits_append)
qed

lemma hex_digits_zeros: "hex_digits 0 (replicate k (CHR ''0'') @ s) = hex_digits 0 s"
  by (induction k) (simp_all add: hex_digit_def)

lemma show_hex_chars: "list_all graphic (show_hex n)" "CHR ''+'' \<notin> set (show_hex n)" "show_hex n \<noteq> []"
proof (induction n rule: show_hex.induct)
  case (1 n)
  { case 1 then show ?case using "1.IH" by (cases "n < 16") (simp_all add: show_hex.simps [of n] hex_char_props) }
  { case 2 then show ?case using "1.IH" hex_char_props(3) [of n] hex_char_props(3) [of "n mod 16"]
      by (cases "n < 16") (auto simp: show_hex.simps [of n]) }
  { case 3 then show ?case by (simp add: show_hex.simps [of n]) }
qed

lemma parse_hex_show: "parse_hex_u64 (replicate k (CHR ''0'') @ show_hex (unat x)) = Some x"
proof -
  let ?s = "replicate k (CHR ''0'') @ show_hex (unat x)"
  have "CHR ''+'' \<notin> set ?s" using show_hex_chars(2) by auto
  then have "(case ?s of c # cs \<Rightarrow> if c = CHR ''+'' \<and> cs \<noteq> [] then cs else ?s | [] \<Rightarrow> []) = ?s"
    by (cases ?s) auto
  moreover have "?s \<noteq> []" using show_hex_chars(3) by simp
  moreover have "unat x < 2 ^ 64" using unat_bound [of x] by simp
  ultimately show ?thesis by (simp add: parse_hex_u64_def hex_digits_zeros hex_digits_show Let_def)
qed

text \<open>The capability line of \<open>/proc/self/status\<close> is read back: whatever the padding, the verdict is bit 14.\<close>

theorem capability_read_back:
  fixes x :: u64
  shows "cap_ipc_lock (''CapEff:'' @ [CHR 0x09] @ replicate k (CHR ''0'') @ show_hex (unat x)) = Some (bit x 14)"
proof -
  let ?s = "replicate k (CHR ''0'') @ show_hex (unat x)"
  have "graphic (CHR ''0'')" by code_simp
  then have s: "list_all graphic ?s" "?s \<noteq> []" using show_hex_chars [of "unat x"] by (auto simp: list_all_iff)
  have "list_all graphic ''CapEff:''" "blank (CHR 0x09)" by code_simp+
  then have "split_whitespace (''CapEff:'' @ CHR 0x09 # ?s) = [''CapEff:'', ?s]"
    using split_ws_word [of "''CapEff:''" "[]" "CHR 0x09 # ?s"] split_ws_word [OF s(1), of "[]" "[]"] s(2)
    by (simp add: split_whitespace_def split_ws_blank flush_def)
  moreover have "and x (push_bit 14 1) \<noteq> 0 \<longleftrightarrow> bit x 14"
    using and_exp_eq_0_iff_not_bit [of x 14] by simp
  ultimately show ?thesis
    using parse_hex_show [of k x] by (simp add: cap_ipc_lock_def Let_def)
qed

text \<open>The cleanup example ends without a panic of its own, whatever the driver answers.\<close>

lemma cleanup_range_returns:
  "open_ctrl \<noteq> Panic \<Longrightarrow> \<exists>r. cleanup_device_range u fs look open_ctrl lo hi = Some r \<and> r \<noteq> Panic"
proof (cases "open_control fs open_ctrl")
  case (Ok c)
  obtain m c' where "delete_range u look (map of_nat [lo..<hi]) 0 c = Some (m, c')" using delete_range_counts by blast
  with Ok show ?thesis by (simp add: cleanup_device_range_def)
next
  case (Err e)
  then show ?thesis by (cases e) (simp_all add: cleanup_device_range_def)
qed (auto simp: open_control_def split: if_splits)

lemma cleanup_orphans_return:
  assumes "open_ctrl \<noteq> Panic"
  shows "\<exists>r. cleanup_orphaned_devices u fs look open_ctrl = Some r \<and> r \<noteq> Panic"
proof (cases "(case detect_orphaned_devices fs of Ok ids \<Rightarrow> ids | _ \<Rightarrow> []) = []")
  case True
  with cleanup_range_returns [OF assms] show ?thesis by (simp add: cleanup_orphaned_devices_def)
next
  case False
  show ?thesis
  proof (cases "open_control fs open_ctrl")
    case (Ok c)
    obtain m c' where "delete_all u (case detect_orphaned_devices fs of Ok ids \<Rightarrow> ids | _ \<Rightarrow> []) 0 c = Some (m, c')"
      using delete_all_counts by blast
    with Ok False show ?thesis by (simp add: cleanup_orphaned_devices_def Let_def)
  next
    case (Err e)
    with False show ?thesis by (cases e) (simp_all add: cleanup_orphaned_devices_def Let_def)
  next
    case Panic
    with assms show ?thesis by (auto simp: open_control_def split: if_splits)
  qed
qed

theorem cleanup_example_ends:
  assumes "open1 \<noteq> Panic" "\<And>c. open2 c \<noteq> Panic"
  shows "\<exists>r. cleanup_example u fs look open1 open2 = Some r \<and> r \<noteq> Panic"
proof (cases "open_control fs open1")
  case (Ok c)
  obtain f c' where f: "force_delete u 0 c = Some (f, c')" "f \<noteq> Panic" using force_delete_returns by blast
  obtain r where "cleanup_orphaned_devices u fs look (open2 c') = Some r" "r \<noteq> Panic"
    using cleanup_orphans_return [OF assms(2)] by blast
  with Ok f show ?thesis by (cases f; cases r) (simp_all add: cleanup_example_def)
next
  case (Err e)
  then show ?thesis by (simp add: cleanup_example_def)
next
  case Panic
  with assms(1) show ?thesis by (auto simp: open_control_def split: if_splits)
qed

section \<open>What the test runner answers\<close>

text \<open>A system in which every command has its answer, and which keeps what was run.\<close>

definition recording :: "(string list \<Rightarrow> (string, cmd_output) outcome) \<Rightarrow> string list list exec" where
  "recording ans cmd issued = (ans cmd, 0, issued @ [cmd])"

definition test_command :: "string \<times> string list \<Rightarrow> string list" where
  "test_command t = [''docker'', ''run'', ''--rm''] @ snd t @ [image_name]"

lemma os_say [simp]: "os (say l w) = os w" "os (complain l w) = os w"
  by (simp_all add: say_def complain_def)

lemma os_say_all [simp]: "os (say_all ls w) = os w"
  unfolding say_all_def by (induction ls arbitrary: w) simp_all

lemma run_command_recording:
  "fst (run_command (recording ans) cmd w) = ans cmd" "os (snd (run_command (recording ans) cmd w)) = os w @ [cmd]"
  by (simp_all add: run_command_def recording_def)

lemma run_test_recording:
  "fst (run_test (recording ans) name args w) = succeeded (ans (test_command (name, args)))"
  "os (snd (run_test (recording ans) name args w)) = os w @ [test_command (name, args)]"
  by (simp_all add: run_test_def run_command_def recording_def succeeded_def test_command_def Let_def
      split: outcome.split)

lemma run_tests_recording:
  "run_tests (recording ans) ts p f w = (p', f', w') \<Longrightarrow>
     p' = p + length (filter (\<lambda>t. succeeded (ans (test_command t))) ts)
     \<and> f' = f + length (filter (\<lambda>t. \<not> succeeded (ans (test_command t))) ts)
     \<and> os w' = os w @ map test_command ts"
proof (induction ts arbitrary: p f w)
  case (Cons t ts)
  obtain name args where t: "t = (name, args)" by (cases t)
  obtain ok w1 where r: "run_test (recording ans) name args w = (ok, w1)" by fastforce
  with run_test_recording [of ans name args w] have "ok = succeeded (ans (test_command t))" "os w1 = os w @ [test_command t]"
    by (simp_all add: t)
  with Cons.prems r Cons.IH [of "p + 1" f w1] Cons.IH [of p "f + 1" w1] show ?case by (cases ok) (auto simp: t)
qed simp

lemma image_recording:
  "fst (check_docker (recording ans) w) = succeeded (ans [''docker'', ''--version''])"
  "os (snd (check_docker (recording ans) w)) = os w @ [[''docker'', ''--version'']]"
  "fst (image_exists (recording ans) w) = succeeded (ans [''docker'', ''image'', ''inspect'', image_name])"
  "os (snd (image_exists (recording ans) w)) = os w @ [[''docker'', ''image'', ''inspect'', image_name]]"
  "fst (build_image (recording ans) w)
    = succeeded (ans [''docker'', ''build'', ''-f'', dockerfile, ''-t'', image_name, ''.''])"
  "os (snd (build_image (recording ans) w))
    = os w @ [[''docker'', ''build'', ''-f'', dockerfile, ''-t'', image_name, ''.'']]"
  by (simp_all add: check_docker_def image_exists_def build_image_def run_command_def recording_def succeeded_def
      split: outcome.split)

text \<open>What is run, as a plan: the image is looked for unless a build is forced, built when it is not there, and then all
  five tests run, whichever fail.\<close>

definition docker_plan :: "(string list \<Rightarrow> bool) \<Rightarrow> bool \<Rightarrow> bool \<times> string list list" where
  "docker_plan ok force =
     (let version = [''docker'', ''--version''];
          inspect = [''docker'', ''image'', ''inspect'', image_name];
          build = [''docker'', ''build'', ''-f'', dockerfile, ''-t'', image_name, ''.''];
          tests = map test_command docker_tests
      in if \<not> ok version then (False, [version])
         else if force then (if ok build then (list_all ok tests, [version, build] @ tests) else (False, [version, build]))
         else if ok inspect then (list_all ok tests, [version, inspect] @ tests)
         else if ok build then (list_all ok tests, [version, inspect, build] @ tests)
         else (False, [version, inspect, build]))"

lemma docker_suite_recording:
  "fst (docker_suite (recording ans) w) \<longleftrightarrow> list_all (\<lambda>c. succeeded (ans c)) (map test_command docker_tests)"
  "os (snd (docker_suite (recording ans) w)) = os w @ map test_command docker_tests"
proof -
  obtain p f w1 where r: "run_tests (recording ans) docker_tests 0 0 (say '''' w) = (p, f, w1)" by (metis prod_cases3)
  note counts = run_tests_recording [OF r]
  then have "0 < f \<longleftrightarrow> \<not> list_all (\<lambda>c. succeeded (ans c)) (map test_command docker_tests)"
    by (auto simp: list_all_iff filter_empty_conv)
  then show "fst (docker_suite (recording ans) w) \<longleftrightarrow> list_all (\<lambda>c. succeeded (ans c)) (map test_command docker_tests)"
    by (simp add: docker_suite_def r Let_def)
  show "os (snd (docker_suite (recording ans) w)) = os w @ map test_command docker_tests"
    using counts by (simp add: docker_suite_def r Let_def)
qed

text \<open>The test runner follows its plan: it runs exactly the planned commands in order, and its exit code is a success
  exactly when Docker is there, the image is or could be built, and every test passed.\<close>

theorem docker_runner_follows_plan:
  "(case docker_main (recording ans) args w of
      (success, w') \<Rightarrow>
        (success, os w') = apsnd ((@) (os w)) (docker_plan (\<lambda>c. succeeded (ans c)) (has_arg ''--build'' args)))"
proof -
  let ?r = "recording ans"
  let ?w = "say_all [rule_line, ''duende mlock Docker Test Suite'', ''DT-007: Swap Deadlock Prevention'', rule_line, ''''] w"
  obtain v w1 where v: "check_docker ?r ?w = (v, w1)" by fastforce
  obtain e w2 where e: "image_exists ?r w1 = (e, w2)" by fastforce
  obtain b1 w3 where b1: "build_image ?r w1 = (b1, w3)" by fastforce
  obtain b2 w4 where b2: "build_image ?r w2 = (b2, w4)" by fastforce
  note facts = image_recording(1,2) [of ans ?w, unfolded v] image_recording(3,4) [of ans w1, unfolded e]
    image_recording(5,6) [of ans w1, unfolded b1] image_recording(5,6) [of ans w2, unfolded b2]
  show ?thesis
    using facts
    by (cases v; cases "has_arg ''--build'' args"; cases e; cases b1; cases b2)
      (simp_all add: docker_main_def docker_plan_def v e b1 b2 case_prod_beta docker_suite_recording Let_def)
qed

end
