(* ===== verification/Core_Mocks.thy ===== *)
theory Core_Mocks
  imports Core_Manager Core_Metrics Adapter_Native
begin

text \<open>
  The mock daemon, \<open>crates/duende-core/src/tests/mocks.rs\<close>, with the test harness of \<open>tests/harness.rs\<close>: the implementation of the
  \<open>Daemon\<close> trait that the program's own tests drive. The shared \<open>MockState\<close> has the daemon as its only owner, so its atomics
  are fields; the world's adapter state is the daemon. The receiver of the channel is an argument.
\<close>

section \<open>The mock daemon\<close>

record mock_daemon =
  mk_id :: daemon_id
  mk_name :: string
  mk_metrics :: metrics
  mk_init_should_fail :: bool
  mk_init_error_msg :: string
  mk_is_healthy :: bool
  mk_health_latency_ms :: u32
  mk_shutdown_should_fail :: bool
  mk_shutdown_error_msg :: string
  mk_init_count :: u32
  mk_shutdown_count :: u32
  mk_health_check_count :: u32
  mk_run_iterations :: u32
  mk_current_iteration :: u32
  mk_run_should_fail :: bool
  mk_run_error_msg :: string

definition mock_new :: "daemon_id \<Rightarrow> instant \<Rightarrow> string \<Rightarrow> mock_daemon" where
  "mock_new new_id now name =
     \<lparr>mk_id = new_id, mk_name = name, mk_metrics = metrics_new now, mk_init_should_fail = False,
      mk_init_error_msg = '''', mk_is_healthy = True, mk_health_latency_ms = 1,
      mk_shutdown_should_fail = False, mk_shutdown_error_msg = '''', mk_init_count = 0, mk_shutdown_count = 0,
      mk_health_check_count = 0, mk_run_iterations = - 1, mk_current_iteration = 0,
      mk_run_should_fail = False, mk_run_error_msg = ''''\<rparr>"

definition with_id :: "daemon_id \<Rightarrow> mock_daemon \<Rightarrow> mock_daemon" where
  "with_id i d = d\<lparr>mk_id := i\<rparr>"

definition fail_init :: "string \<Rightarrow> mock_daemon \<Rightarrow> mock_daemon" where
  "fail_init msg d = d\<lparr>mk_init_should_fail := True, mk_init_error_msg := msg\<rparr>"

definition unhealthy :: "mock_daemon \<Rightarrow> mock_daemon" where
  "unhealthy d = d\<lparr>mk_is_healthy := False\<rparr>"

definition health_latency :: "u32 \<Rightarrow> mock_daemon \<Rightarrow> mock_daemon" where
  "health_latency ms d = d\<lparr>mk_health_latency_ms := ms\<rparr>"

definition fail_shutdown :: "string \<Rightarrow> mock_daemon \<Rightarrow> mock_daemon" where
  "fail_shutdown msg d = d\<lparr>mk_shutdown_should_fail := True, mk_shutdown_error_msg := msg\<rparr>"

definition exit_after :: "u32 \<Rightarrow> mock_daemon \<Rightarrow> mock_daemon" where
  "exit_after iterations d = d\<lparr>mk_run_iterations := iterations\<rparr>"

definition fail_run :: "string \<Rightarrow> mock_daemon \<Rightarrow> mock_daemon" where
  "fail_run msg d = d\<lparr>mk_run_should_fail := True, mk_run_error_msg := msg\<rparr>"

text \<open>\<open>MockDaemonFactory\<close>.\<close>

definition factory_healthy :: "daemon_id \<Rightarrow> instant \<Rightarrow> string \<Rightarrow> mock_daemon" where
  "factory_healthy i now name = mock_new i now name"

definition factory_failing_init :: "daemon_id \<Rightarrow> instant \<Rightarrow> string \<Rightarrow> string \<Rightarrow> mock_daemon" where
  "factory_failing_init i now name msg = fail_init msg (mock_new i now name)"

definition factory_unhealthy :: "daemon_id \<Rightarrow> instant \<Rightarrow> string \<Rightarrow> mock_daemon" where
  "factory_unhealthy i now name = unhealthy (mock_new i now name)"

definition factory_short_lived :: "daemon_id \<Rightarrow> instant \<Rightarrow> string \<Rightarrow> u32 \<Rightarrow> mock_daemon" where
  "factory_short_lived i now name iterations = exit_after iterations (mock_new i now name)"

definition factory_slow_health :: "daemon_id \<Rightarrow> instant \<Rightarrow> string \<Rightarrow> u32 \<Rightarrow> mock_daemon" where
  "factory_slow_health i now name latency_ms = health_latency latency_ms (mock_new i now name)"

lemmas mock_defs = mock_new_def with_id_def fail_init_def unhealthy_def health_latency_def fail_shutdown_def
  exit_after_def fail_run_def factory_healthy_def factory_failing_init_def factory_unhealthy_def
  factory_short_lived_def factory_slow_health_def

section \<open>The trait\<close>

definition mock_init :: "daemon_config \<Rightarrow> mock_daemon \<Rightarrow> ('io daemon_error, unit) outcome \<times> mock_daemon" where
  "mock_init config d =
     (let d' = d\<lparr>mk_init_count := mk_init_count d + 1\<rparr>
      in (if mk_init_should_fail d' then Err (DInit (mk_init_error_msg d')) else Ok (), d'))"

definition mock_shutdown :: "duration \<Rightarrow> mock_daemon \<Rightarrow> ('io daemon_error, unit) outcome \<times> mock_daemon" where
  "mock_shutdown timeout d =
     (let d' = d\<lparr>mk_shutdown_count := mk_shutdown_count d + 1\<rparr>
      in (if mk_shutdown_should_fail d' then Err (DShutdown (mk_shutdown_error_msg d')) else Ok (), d'))"

definition mock_health_check :: "duration option \<Rightarrow> mock_daemon \<Rightarrow> health_status \<times> mock_daemon" where
  "mock_health_check since_epoch d =
     (let d' = d\<lparr>mk_health_check_count := mk_health_check_count d + 1\<rparr>;
          latency = ucast (mk_health_latency_ms d') :: u64
      in (if mk_is_healthy d' then health_ok since_epoch latency
          else health_bad since_epoch ''mock unhealthy'' latency, d'))"

type_synonym 'w mock_world = "(mock_daemon, 'w) world"

text \<open>The fuel bounds the turns of the loop; \<open>None\<close> is running on.\<close>

fun mock_loop ::
  "nat \<Rightarrow> 'rx receive \<Rightarrow> 'w sleeper \<Rightarrow> u32 \<Rightarrow> 'rx daemon_context \<Rightarrow> 'w mock_world
   \<Rightarrow> (('io daemon_error, exit_reason) outcome \<times> 'rx daemon_context \<times> 'w mock_world) option" where
  "mock_loop 0 recv slp max_iterations ctx w = None"
| "mock_loop (Suc n) recv slp max_iterations ctx w =
     (if should_shutdown ctx then Some (Ok Graceful, ctx, w)
      else (case try_recv_signal recv ctx of
          (Some sig, ctx') \<Rightarrow> Some (Ok (ExitSignal sig), ctx', w)
        | (None, ctx') \<Rightarrow>
            (let iter = mk_current_iteration (adapter w);
                 d1 = (adapter w)\<lparr>mk_current_iteration := iter + 1\<rparr>
             in if max_iterations \<le> iter then Some (Ok Graceful, ctx', w\<lparr>adapter := d1\<rparr>)
                else mock_loop n recv slp max_iterations ctx'
                  (sleep slp (from_millis 10) (w\<lparr>adapter := d1\<lparr>mk_metrics := record_request (mk_metrics d1)\<rparr>\<rparr>)))))"

definition mock_run ::
  "nat \<Rightarrow> 'rx receive \<Rightarrow> 'w sleeper \<Rightarrow> 'rx daemon_context \<Rightarrow> 'w mock_world
   \<Rightarrow> (('io daemon_error, exit_reason) outcome \<times> 'rx daemon_context \<times> 'w mock_world) option" where
  "mock_run n recv slp ctx w =
     (if mk_run_should_fail (adapter w) then Some (Err (DRuntime (mk_run_error_msg (adapter w))), ctx, w)
      else mock_loop n recv slp (mk_run_iterations (adapter w)) ctx w)"

section \<open>A run ends\<close>

text \<open>The turns left before the loop gives up by itself.\<close>

definition turns_left :: "mock_daemon \<Rightarrow> nat" where
  "turns_left d = unat (mk_run_iterations d) - unat (mk_current_iteration d)"

lemma turns_left_0: "mk_run_iterations d \<le> mk_current_iteration d \<longleftrightarrow> turns_left d = 0"
  by (simp add: turns_left_def word_le_nat_alt)

lemma next_turn:
  "0 < turns_left d \<Longrightarrow> Suc (turns_left (d\<lparr>mk_current_iteration := mk_current_iteration d + 1, mk_metrics := m\<rparr>)) = turns_left d"
  using unat_bound [of "mk_run_iterations d"] unat_suc_in_range [of "mk_current_iteration d"]
  by (simp add: turns_left_def)

lemma mock_loop_returns:
  "turns_left (adapter w) < n \<Longrightarrow>
   \<exists>r. mock_loop n recv slp (mk_run_iterations (adapter w)) ctx w
     = (Some r :: (('io daemon_error, exit_reason) outcome \<times> _) option)"
proof (induction n arbitrary: ctx w)
  case (Suc n)
  define d where "d = (adapter w)\<lparr>mk_current_iteration := mk_current_iteration (adapter w) + 1, mk_metrics := record_request (mk_metrics (adapter w))\<rparr>"
  have "turns_left d < n" if "0 < turns_left (adapter w)"
    using next_turn [OF that, of "record_request (mk_metrics (adapter w))"] Suc.prems by (simp add: d_def)
  then have "0 < turns_left (adapter w) \<Longrightarrow> \<exists>r. mock_loop n recv slp (mk_run_iterations (adapter w)) ctx' (sleep slp (from_millis 10) (w\<lparr>adapter := d\<rparr>))
      = (Some r :: (('io daemon_error, exit_reason) outcome \<times> _) option)" for ctx'
    using Suc.IH [of "sleep slp (from_millis 10) (w\<lparr>adapter := d\<rparr>)" ctx'] by (simp add: d_def)
  then show ?case by (simp add: Let_def turns_left_0 d_def split: prod.split option.split)
qed simp

text \<open>A mock always ends, also one that was told no number of turns: \<open>u32::MAX\<close> is a number of turns as well.\<close>

theorem mock_run_returns:
  "\<exists>r. mock_run (2 ^ 32) recv slp ctx w = (Some r :: (('io daemon_error, exit_reason) outcome \<times> _) option)"
proof -
  have "turns_left (adapter w) < 2 ^ 32"
    using unat_bound [of "mk_run_iterations (adapter w)"] by (simp add: turns_left_def)
  from mock_loop_returns [OF this] show ?thesis unfolding mock_run_def
    by (cases "mk_run_should_fail (adapter w)") (simp_all only: if_True if_False option.inject, blast)
qed

text \<open>With the first signal found at the \<open>k\<close>-th look.\<close>

lemma mock_loop_polled:
  assumes "\<not> should_shutdown ctx" "cx_signal_rx ctx = replicate k None @ Some s # rest" "min k (turns_left (adapter w)) < n"
  shows "\<exists>ctx' w'. mock_loop n polled slp (mk_run_iterations (adapter w)) ctx w
      = Some (Ok (if k \<le> turns_left (adapter w) then ExitSignal s else Graceful) :: ('io daemon_error, exit_reason) outcome, ctx', w')
    \<and> requests_total (mk_metrics (adapter w')) = requests_total (mk_metrics (adapter w)) + of_nat (min k (turns_left (adapter w)))
    \<and> mk_current_iteration (adapter w') = mk_current_iteration (adapter w) + of_nat (min k (Suc (turns_left (adapter w))))
    \<and> clock w + min k (turns_left (adapter w)) * from_millis 10 \<le> clock w'
    \<and> (should_shutdown ctx' \<longleftrightarrow> k \<le> turns_left (adapter w) \<and> terminates s)
    \<and> mk_init_count (adapter w') = mk_init_count (adapter w) \<and> mk_shutdown_count (adapter w') = mk_shutdown_count (adapter w)
    \<and> mk_shutdown_should_fail (adapter w') = mk_shutdown_should_fail (adapter w)"
  using assms
proof (induction k arbitrary: n ctx w)
  case 0
  then obtain n' where n: "n = Suc n'" by (cases n) auto
  with 0 show ?case by (simp add: try_recv_signal_def polled_def should_shutdown_def)
next
  case (Suc k)
  then obtain n' where n: "n = Suc n'" by (cases n) auto
  define ctx1 where "ctx1 = ctx\<lparr>cx_signal_rx := replicate k None @ Some s # rest\<rparr>"
  have look: "try_recv_signal polled ctx = (None, ctx1)"
    using Suc.prems(2) by (simp add: try_recv_signal_def polled_def ctx1_def)
  show ?case
  proof (cases "turns_left (adapter w) = 0")
    case True
    with Suc.prems(1) look n show ?thesis
      by (simp add: Let_def turns_left_0 ctx1_def should_shutdown_def)
  next
    case False
    define d where "d = (adapter w)\<lparr>mk_current_iteration := mk_current_iteration (adapter w) + 1, mk_metrics := record_request (mk_metrics (adapter w))\<rparr>"
    define w1 where "w1 = sleep slp (from_millis 10) (w\<lparr>adapter := d\<rparr>)"
    have w1: "adapter w1 = d" "clock w + from_millis 10 \<le> clock w1"
      using sleep_clock [of "w\<lparr>adapter := d\<rparr>" "from_millis 10" slp] by (simp_all add: w1_def)
    have left: "turns_left (adapter w) = Suc (turns_left (adapter w1))"
      using next_turn [of "adapter w" "record_request (mk_metrics (adapter w))"] False w1 by (simp add: d_def)
    have runs: "mk_run_iterations (adapter w1) = mk_run_iterations (adapter w)" by (simp add: w1 d_def)
    have step: "(mock_loop n polled slp (mk_run_iterations (adapter w)) ctx w :: (('io daemon_error, exit_reason) outcome \<times> _) option)
        = mock_loop n' polled slp (mk_run_iterations (adapter w1)) ctx1 w1"
      using Suc.prems(1) look n False by (simp add: Let_def turns_left_0 w1_def d_def)
    have prems: "\<not> should_shutdown ctx1" "cx_signal_rx ctx1 = replicate k None @ Some s # rest" "min k (turns_left (adapter w1)) < n'"
      using Suc.prems n left by (simp_all add: ctx1_def should_shutdown_def)
    obtain ctx' w' where "mock_loop n' polled slp (mk_run_iterations (adapter w1)) ctx1 w1
        = Some (Ok (if k \<le> turns_left (adapter w1) then ExitSignal s else Graceful) :: ('io daemon_error, exit_reason) outcome, ctx', w')"
      and rest: "requests_total (mk_metrics (adapter w')) = requests_total (mk_metrics d) + of_nat (min k (turns_left (adapter w1)))"
        "mk_current_iteration (adapter w') = mk_current_iteration d + of_nat (min k (Suc (turns_left (adapter w1))))"
        "clock w1 + min k (turns_left (adapter w1)) * from_millis 10 \<le> clock w'"
        "should_shutdown ctx' \<longleftrightarrow> k \<le> turns_left (adapter w1) \<and> terminates s"
        "mk_init_count (adapter w') = mk_init_count d" "mk_shutdown_count (adapter w') = mk_shutdown_count d"
        "mk_shutdown_should_fail (adapter w') = mk_shutdown_should_fail d"
      using Suc.IH [OF prems] unfolding w1(1) by blast
    with step left w1(2) show ?thesis
      by (intro exI [of _ ctx'] exI [of _ w']) (simp add: d_def record_request_def algebra_simps)
  qed
qed

lemma mock_loop_silent:
  assumes "\<not> should_shutdown ctx" "cx_signal_rx ctx = []" "turns_left (adapter w) < n"
  shows "\<exists>w'. mock_loop n polled slp (mk_run_iterations (adapter w)) ctx w
      = Some (Ok Graceful :: ('io daemon_error, exit_reason) outcome, ctx, w')
    \<and> mk_current_iteration (adapter w') = mk_current_iteration (adapter w) + of_nat (Suc (turns_left (adapter w)))
    \<and> mk_init_count (adapter w') = mk_init_count (adapter w) \<and> mk_shutdown_count (adapter w') = mk_shutdown_count (adapter w)
    \<and> mk_shutdown_should_fail (adapter w') = mk_shutdown_should_fail (adapter w)"
  using assms(3)
proof (induction n arbitrary: w)
  case (Suc n)
  have look: "try_recv_signal polled ctx = (None, ctx)"
    using assms(2) by (cases ctx) (simp add: try_recv_signal_def polled_def)
  show ?case
  proof (cases "turns_left (adapter w) = 0")
    case True
    with assms(1) look show ?thesis by (simp add: Let_def turns_left_0)
  next
    case False
    define d where "d = (adapter w)\<lparr>mk_current_iteration := mk_current_iteration (adapter w) + 1, mk_metrics := record_request (mk_metrics (adapter w))\<rparr>"
    define w1 where "w1 = sleep slp (from_millis 10) (w\<lparr>adapter := d\<rparr>)"
    have w1: "adapter w1 = d" by (simp add: w1_def)
    have left: "turns_left (adapter w) = Suc (turns_left (adapter w1))"
      using next_turn [of "adapter w" "record_request (mk_metrics (adapter w))"] False w1 by (simp add: d_def)
    have step: "(mock_loop (Suc n) polled slp (mk_run_iterations (adapter w)) ctx w :: (('io daemon_error, exit_reason) outcome \<times> _) option)
        = mock_loop n polled slp (mk_run_iterations (adapter w1)) ctx w1"
      using assms(1) look False w1 by (simp add: Let_def turns_left_0 w1_def d_def)
    show ?thesis
      using Suc.IH [of w1] Suc.prems left unfolding step by (auto simp: w1 d_def add.assoc)
  qed
qed simp

text \<open>What a run of a mock does, when the first signal is found at the \<open>k\<close>-th look into the channel: the signal ends it
  if it comes while turns are left, otherwise it gives up gracefully; a request is recorded per turn, and the iteration
  counter counts the last, refused turn too.\<close>

theorem mock_run_exactly:
  assumes "\<not> should_shutdown ctx" "\<not> mk_run_should_fail (adapter w)"
    and "cx_signal_rx ctx = replicate k None @ Some s # rest" "min k (turns_left (adapter w)) < n"
  shows "\<exists>ctx' w'. mock_run n polled slp ctx w
      = Some (Ok (if k \<le> turns_left (adapter w) then ExitSignal s else Graceful) :: ('io daemon_error, exit_reason) outcome, ctx', w')
    \<and> requests_total (mk_metrics (adapter w')) = requests_total (mk_metrics (adapter w)) + of_nat (min k (turns_left (adapter w)))
    \<and> mk_current_iteration (adapter w') = mk_current_iteration (adapter w) + of_nat (min k (Suc (turns_left (adapter w))))
    \<and> clock w + min k (turns_left (adapter w)) * from_millis 10 \<le> clock w'
    \<and> (should_shutdown ctx' \<longleftrightarrow> k \<le> turns_left (adapter w) \<and> terminates s)"
proof -
  have "mock_run n polled slp ctx w = (mock_loop n polled slp (mk_run_iterations (adapter w)) ctx w
      :: (('io daemon_error, exit_reason) outcome \<times> _) option)"
    using assms(2) by (simp add: mock_run_def)
  with mock_loop_polled [OF assms(1,3,4), of slp] show ?thesis by (simp only:) blast
qed

section \<open>The harness\<close>

text \<open>\<open>'ad\<close> stands for the platform adapter behind \<open>Box<dyn PlatformAdapter>\<close>.\<close>

record ('ad, 'h) core_harness =
  ch_adapter :: 'ad
  ch_manager :: "'h manager"
  ch_timeout :: duration

definition ch_with_adapter :: "'ad \<Rightarrow> ('ad, 'h) core_harness" where
  "ch_with_adapter ad = \<lparr>ch_adapter = ad, ch_manager = manager_new, ch_timeout = from_secs 30\<rparr>"

definition ch_new :: "('c native_adapter, 'h) core_harness" where
  "ch_new = ch_with_adapter native_new"

definition ch_with_timeout :: "duration \<Rightarrow> ('ad, 'h) core_harness \<Rightarrow> ('ad, 'h) core_harness" where
  "ch_with_timeout timeout h = h\<lparr>ch_timeout := timeout\<rparr>"

definition ch_create_context :: "'rx \<Rightarrow> 'c \<Rightarrow> string \<Rightarrow> ('ad, 'h) core_harness \<Rightarrow> 'rx daemon_context \<times> 'c" where
  "ch_create_context rx handle name h = context_new rx handle (config_new name ''/bin/test'')"

definition ch_spawn :: "('ad \<Rightarrow> 'd \<Rightarrow> 'w \<Rightarrow> 'r \<times> 'w) \<Rightarrow> 'd \<Rightarrow> ('ad, 'h) core_harness \<Rightarrow> 'w \<Rightarrow> 'r \<times> 'w" where
  "ch_spawn spawn daemon h w = spawn (ch_adapter h) daemon w"

datatype 'io core_test_error =
    CTimeout duration
  | CAssertionFailed string
  | CPlatform platform_error
  | CDaemon "'io daemon_error"

text \<open>\<open>timed\<close> is \<open>tokio::time::timeout\<close>: what the future gave in time, or nothing.\<close>

definition run_with_timeout ::
  "(duration \<Rightarrow> 'f \<Rightarrow> ('io core_test_error, 'a) outcome option) \<Rightarrow> 'f \<Rightarrow> ('ad, 'h) core_harness
   \<Rightarrow> ('io core_test_error, 'a) outcome" where
  "run_with_timeout timed fut h =
     (case timed (ch_timeout h) fut of Some r \<Rightarrow> r | None \<Rightarrow> Err (CTimeout (ch_timeout h)))"

end
