(* ===== verification/Tests_Script.thy ===== *)
theory Tests_Script
  imports Prelude "HOL-Library.State_Monad"
begin

text \<open>
  How the program's own tests are run on the model: a test is a state monad over what it works on and a flag
  that a failing assertion clears. A method of the model, a function of the state, is a step of a test as it is.
\<close>

type_synonym ('w, 'a) test = "('w \<times> bool, 'a) state"

definition act :: "('w \<Rightarrow> 'a \<times> 'w) \<Rightarrow> ('w, 'a) test" where
  "act f = State (\<lambda>(w, passed). case f w of (a, w') \<Rightarrow> (a, (w', passed)))"

definition observe :: "('w \<Rightarrow> 'a) \<Rightarrow> ('w, 'a) test" where
  "observe f = act (\<lambda>w. (f w, w))"

definition expect :: "bool \<Rightarrow> ('w, unit) test" where
  "expect p = State (\<lambda>(w, passed). ((), (w, passed \<and> p)))"

fun times :: "nat \<Rightarrow> ('w, unit) test \<Rightarrow> ('w, unit) test" where
  "times 0 m = State_Monad.return ()"
| "times (Suc n) m = do { m; times n m }"

definition passes :: "'w \<Rightarrow> ('w, unit) test \<Rightarrow> bool" where
  "passes w m = snd (snd (run_state m (w, True)))"

lemma run_act [simp]: "run_state (act f) (w, passed) = (case f w of (a, w') \<Rightarrow> (a, (w', passed)))"
  by (simp add: act_def)

lemma run_observe [simp]: "run_state (observe f) (w, passed) = (f w, (w, passed))"
  by (simp add: observe_def)

lemma run_expect [simp]: "run_state (expect p) (w, passed) = ((), (w, passed \<and> p))"
  by (simp add: expect_def)

end
