(* ===== verification/Tests_Policy.thy ===== *)
theory Tests_Policy
  imports Policy_Breaker Tests_Script
begin

text \<open>
  The program's own tests of the circuit breaker (\<open>mod tests\<close> and \<open>mod property_tests\<close> of
  \<open>crates/duende-policy/src/circuit_breaker.rs\<close>), run on the model. A test works on the clock and the breaker;
  the clock stands still except where the test sleeps. The model passes every test; the property tests, which the program tries on random inputs from small ranges,
  are shown for all inputs. Tests of derived code (\<open>Debug\<close>, \<open>Clone\<close>) are left out.
\<close>

section \<open>The circuit breaker\<close>

type_synonym 'a breaker_test = "(instant \<times> circuit_breaker, 'a) test"

definition create :: "u32 \<Rightarrow> duration \<Rightarrow> unit breaker_test" where
  "create threshold timeout = act (\<lambda>(now, _). ((), (now, breaker_new threshold timeout)))"

definition fail_once :: "unit breaker_test" where
  "fail_once = act (\<lambda>(now, b). ((), (now, record_failure now b)))"

definition succeed :: "unit breaker_test" where
  "succeed = act (\<lambda>(now, b). ((), (now, record_success b)))"

definition reset_it :: "unit breaker_test" where
  "reset_it = act (\<lambda>(now, b). ((), (now, breaker_reset b)))"

definition ask_state :: "circuit_state breaker_test" where
  "ask_state = act (\<lambda>(now, b). case breaker_state now b of (s, b') \<Rightarrow> (s, (now, b')))"

definition ask_allow :: "bool breaker_test" where
  "ask_allow = act (\<lambda>(now, b). case breaker_allow now b of (a, b') \<Rightarrow> (a, (now, b')))"

definition ask_count :: "u64 breaker_test" where
  "ask_count = act (\<lambda>(now, b). (failure_count b, (now, b)))"

definition sleep_for :: "duration \<Rightarrow> unit breaker_test" where
  "sleep_for d = act (\<lambda>(now, b). ((), (now + d, b)))"

definition expect_state :: "circuit_state \<Rightarrow> unit breaker_test" where
  "expect_state c = do { s \<leftarrow> ask_state; expect (s = c) }"

definition expect_allow :: "bool \<Rightarrow> unit breaker_test" where
  "expect_allow p = do { a \<leftarrow> ask_allow; expect (a = p) }"

definition expect_count :: "u64 \<Rightarrow> unit breaker_test" where
  "expect_count n = do { c \<leftarrow> ask_count; expect (c = n) }"

definition breaker_passes :: "unit breaker_test \<Rightarrow> bool" where
  "breaker_passes m \<longleftrightarrow> (\<forall>now b. passes (now, b) m)"

lemmas script_defs = create_def fail_once_def succeed_def reset_it_def ask_state_def ask_allow_def ask_count_def
  sleep_for_def expect_state_def expect_allow_def expect_count_def

lemma run_script [simp]:
  "run_state (create n d) ((now, b), p) = ((), ((now, breaker_new n d), p))"
  "run_state fail_once ((now, b), p) = ((), ((now, record_failure now b), p))"
  "run_state succeed ((now, b), p) = ((), ((now, record_success b), p))"
  "run_state reset_it ((now, b), p) = ((), ((now, breaker_reset b), p))"
  "run_state (sleep_for t) ((now, b), p) = ((), ((now + t, b), p))"
  "run_state (expect_state c) ((now, b), p) = ((), ((now, maybe_transition now b), p \<and> cstate (maybe_transition now b) = c))"
  "run_state (expect_allow a) ((now, b), p) = ((), ((now, maybe_transition now b), p \<and> (cstate (maybe_transition now b) \<noteq> Open) = a))"
  "run_state (expect_count k) ((now, b), p) = ((), ((now, b), p \<and> failure_count b = k))"
  by (auto simp: script_defs breaker_state_def breaker_allow_def Let_def split: circuit_state.split)

lemma run_ask_count [simp]: "run_state ask_count ((now, b), p) = (failure_count b, ((now, b), p))"
  by (simp add: ask_count_def)

lemmas breaker_test_simps = breaker_passes_def passes_def breaker_defs Let_def word_le_nat_alt word_less_nat_alt

definition t_closed_by_default :: "unit breaker_test" where
  "t_closed_by_default = do { create 5 (from_secs 30); expect_state Closed; expect_allow True }"

definition t_opens_on_failures :: "unit breaker_test" where
  "t_opens_on_failures =
     do { create 3 (from_secs 30); fail_once; fail_once; expect_state Closed;
          fail_once; expect_state Open; expect_allow False }"

definition t_success_resets_count :: "unit breaker_test" where
  "t_success_resets_count = do { create 5 (from_secs 30); fail_once; fail_once; expect_count 2; succeed; expect_count 0 }"

definition t_reset :: "unit breaker_test" where
  "t_reset = do { create 2 (from_secs 30); fail_once; fail_once; expect_state Open; reset_it; expect_state Closed }"

definition t_failure_in_open_ignored :: "unit breaker_test" where
  "t_failure_in_open_ignored =
     do { create 2 (from_secs 30); fail_once; fail_once; expect_state Open;
          count_before \<leftarrow> ask_count; fail_once; expect_count count_before }"

definition t_success_in_open_ignored :: "unit breaker_test" where
  "t_success_in_open_ignored = do { create 2 (from_secs 30); fail_once; fail_once; expect_state Open; succeed; expect_state Open }"

definition t_half_open_after_timeout :: "unit breaker_test" where
  "t_half_open_after_timeout =
     do { create 2 (from_millis 10); fail_once; fail_once; expect_state Open;
          sleep_for (from_millis 20); expect_state HalfOpen; expect_allow True }"

definition t_half_open_success_closes :: "unit breaker_test" where
  "t_half_open_success_closes =
     do { create 2 (from_millis 10); fail_once; fail_once; expect_state Open;
          sleep_for (from_millis 20); expect_state HalfOpen; succeed; succeed; succeed; expect_state Closed }"

definition t_half_open_failure_reopens :: "unit breaker_test" where
  "t_half_open_failure_reopens =
     do { create 2 (from_millis 10); fail_once; fail_once; expect_state Open;
          sleep_for (from_millis 20); expect_state HalfOpen; fail_once; expect_state Open }"

definition t_half_open_partial_success :: "unit breaker_test" where
  "t_half_open_partial_success =
     do { create 2 (from_millis 10); fail_once; fail_once;
          sleep_for (from_millis 20); expect_state HalfOpen; succeed; succeed; expect_state HalfOpen }"

definition t_failure_count_accuracy :: "unit breaker_test" where
  "t_failure_count_accuracy =
     do { create 10 (from_secs 30); fail_once; expect_count 1; fail_once; expect_count 2; fail_once; expect_count 3;
          fail_once; expect_count 4; fail_once; expect_count 5 }"

definition t_reset_clears_count :: "unit breaker_test" where
  "t_reset_clears_count = do { create 10 (from_secs 30); fail_once; fail_once; fail_once; expect_count 3; reset_it; expect_count 0 }"

definition t_allow_in_closed :: "unit breaker_test" where
  "t_allow_in_closed = do { create 5 (from_secs 30); expect_allow True; fail_once; expect_allow True }"

definition t_no_transition_before_timeout :: "unit breaker_test" where
  "t_no_transition_before_timeout = do { create 2 (from_secs 60); fail_once; fail_once; expect_state Open; expect_state Open; expect_allow False }"

definition t_multiple_resets :: "unit breaker_test" where
  "t_multiple_resets =
     do { create 2 (from_secs 30); fail_once; fail_once; reset_it; expect_state Closed;
          fail_once; fail_once; reset_it; expect_state Closed }"

definition t_threshold_boundary :: "unit breaker_test" where
  "t_threshold_boundary =
     do { create 3 (from_secs 30); fail_once; expect_state Closed; fail_once; expect_state Closed;
          fail_once; expect_state Open }"

definition t_single_failure_threshold :: "unit breaker_test" where
  "t_single_failure_threshold = do { create 1 (from_secs 30); expect_state Closed; fail_once; expect_state Open }"

lemmas breaker_test_defs =
  t_closed_by_default_def t_opens_on_failures_def t_success_resets_count_def t_reset_def
  t_failure_in_open_ignored_def t_success_in_open_ignored_def t_half_open_after_timeout_def
  t_half_open_success_closes_def t_half_open_failure_reopens_def t_half_open_partial_success_def
  t_failure_count_accuracy_def t_reset_clears_count_def t_allow_in_closed_def t_no_transition_before_timeout_def
  t_multiple_resets_def t_threshold_boundary_def t_single_failure_threshold_def

lemma breaker_tests_pass:
  "breaker_passes t_closed_by_default"
  "breaker_passes t_opens_on_failures"
  "breaker_passes t_success_resets_count"
  "breaker_passes t_reset"
  "breaker_passes t_failure_in_open_ignored"
  "breaker_passes t_success_in_open_ignored"
  "breaker_passes t_half_open_after_timeout"
  "breaker_passes t_half_open_success_closes"
  "breaker_passes t_half_open_failure_reopens"
  "breaker_passes t_half_open_partial_success"
  "breaker_passes t_failure_count_accuracy"
  "breaker_passes t_reset_clears_count"
  "breaker_passes t_allow_in_closed"
  "breaker_passes t_no_transition_before_timeout"
  "breaker_passes t_multiple_resets"
  "breaker_passes t_threshold_boundary"
  "breaker_passes t_single_failure_threshold"
  by (simp_all add: breaker_test_defs breaker_test_simps)

section \<open>The property tests\<close>

definition t_opens_exactly_at_threshold :: "u32 \<Rightarrow> unit breaker_test" where
  "t_opens_exactly_at_threshold threshold =
     do { create threshold (from_secs 60);
          times (unat threshold - 1) (do { fail_once; expect_state Closed });
          fail_once; expect_state Open }"

definition t_reset_always_closes :: "u32 \<Rightarrow> u32 \<Rightarrow> unit breaker_test" where
  "t_reset_always_closes threshold failures =
     do { create threshold (from_secs 60); times (unat failures) fail_once; reset_it; expect_state Closed; expect_count 0 }"

definition t_success_resets_failures_in_closed :: "u32 \<Rightarrow> u32 \<Rightarrow> unit breaker_test" where
  "t_success_resets_failures_in_closed threshold failures =
     do { create threshold (from_secs 60); times (unat failures) fail_once;
          n \<leftarrow> ask_count; expect (0 < n); succeed; expect_count 0 }"

definition t_open_circuit_blocks :: "u32 \<Rightarrow> unit breaker_test" where
  "t_open_circuit_blocks threshold =
     do { create threshold (from_secs 60); times (unat threshold) fail_once; expect_allow False }"

definition t_closed_circuit_allows :: "u32 \<Rightarrow> u32 \<Rightarrow> unit breaker_test" where
  "t_closed_circuit_allows threshold failures =
     do { create threshold (from_secs 60); times (unat failures) fail_once; expect_state Closed; expect_allow True }"

definition t_failure_count_accurate :: "u32 \<Rightarrow> u32 \<Rightarrow> unit breaker_test" where
  "t_failure_count_accurate threshold failures =
     do { create threshold (from_secs 60); times (unat failures) fail_once; expect_count (ucast failures) }"

text \<open>A new breaker after \<open>j\<close> failures below the threshold.\<close>

definition after :: "u32 \<Rightarrow> duration \<Rightarrow> nat \<Rightarrow> circuit_breaker" where
  "after n d j = breaker_new n d\<lparr>failure_count := of_nat j\<rparr>"

lemma after_0: "breaker_new n d = after n d 0"
  by (simp add: after_def breaker_new_def)

lemma after_closed [simp]: "cstate (after n d j) = Closed" "failure_count (after n d j) = of_nat j" "maybe_transition now (after n d j) = after n d j"
  by (simp_all add: after_def breaker_new_def maybe_transition_def)

lemma next_failure:
  assumes "j < unat n"
  shows "record_failure now (after n d j) = (if unat n \<le> Suc j then breaker_open now (after n d (Suc j)) else after n d (Suc j))"
proof -
  have "Suc j < 2 ^ 64" using assms unat_threshold_bound [of n] by simp
  then have "unat (of_nat (Suc j) :: u64) = Suc j" by (simp only: unat_of_nat) simp
  moreover have "(of_nat j :: u64) + 1 = of_nat (Suc j)" by simp
  moreover have "failure_threshold (after n d j) = n" by (simp add: after_def breaker_new_def)
  ultimately show ?thesis
    by (simp add: record_failure_def Let_def threshold_le_iff del: of_nat_Suc) (simp add: after_def)
qed

lemma run_below [simp]:
  "j + k < unat n \<Longrightarrow> run_state (times k fail_once) ((now, after n d j), p) = ((), ((now, after n d (j + k)), p))"
  "j + k < unat n \<Longrightarrow> run_state (times k (do { fail_once; expect_state Closed })) ((now, after n d j), p) = ((), ((now, after n d (j + k)), p))"
  by (induction k arbitrary: j) (simp_all add: next_failure)

lemma run_any: "\<exists>b'. run_state (times k fail_once) ((now, b), p) = ((), ((now, b'), p))"
proof (induction k arbitrary: b)
  case (Suc k)
  from Suc [of "record_failure now b"] show ?case by simp
qed simp

lemma times_snoc: "run_state (times (Suc k) m) s = run_state m (snd (run_state (times k m) s))"
  by (induction k arbitrary: s) (simp_all add: case_prod_beta)

lemma run_to_threshold:
  "0 < unat n \<Longrightarrow> run_state (times (unat n) fail_once) ((now, after n d 0), p) = ((), ((now, breaker_open now (after n d (unat n))), p))"
  using times_snoc [of "unat n - 1" fail_once "((now, after n d 0), p)"] next_failure [of "unat n - 1" n now d] by simp

lemma fresh_open_stays: "0 < recovery_timeout b \<Longrightarrow> maybe_transition now (breaker_open now b) = breaker_open now b"
  by (simp add: maybe_transition_def should_transition_def breaker_open_def)

lemma after_timeout [simp]: "recovery_timeout (after n d j) = d"
  by (simp add: after_def breaker_new_def)

lemma open_is_open [simp]: "cstate (breaker_open now b) = Open"
  by (simp add: breaker_open_def)

lemma breaker_property_tests_pass:
  "0 < threshold \<Longrightarrow> breaker_passes (t_opens_exactly_at_threshold threshold)"
  "breaker_passes (t_reset_always_closes threshold failures)"
  "0 < failures \<Longrightarrow> failures < threshold \<Longrightarrow> breaker_passes (t_success_resets_failures_in_closed threshold failures)"
  "0 < threshold \<Longrightarrow> breaker_passes (t_open_circuit_blocks threshold)"
  "failures < threshold \<Longrightarrow> breaker_passes (t_closed_circuit_allows threshold failures)"
  "failures < threshold \<Longrightarrow> breaker_passes (t_failure_count_accurate threshold failures)"
proof -
  assume threshold: "0 < threshold"
  then have pos: "0 < unat threshold" by (simp add: word_less_nat_alt)
  show "breaker_passes (t_opens_exactly_at_threshold threshold)"
    using pos by (simp add: breaker_passes_def passes_def t_opens_exactly_at_threshold_def after_0 next_failure fresh_open_stays)
  show "breaker_passes (t_open_circuit_blocks threshold)"
    using pos by (simp add: breaker_passes_def passes_def t_open_circuit_blocks_def after_0 run_to_threshold fresh_open_stays)
next
  show "breaker_passes (t_reset_always_closes threshold failures)"
    unfolding breaker_passes_def passes_def t_reset_always_closes_def
  proof (intro allI)
    fix now b
    obtain b' where "run_state (times (unat failures) fail_once) ((now, breaker_new threshold (from_secs 60)), True) = ((), ((now, b'), True))"
      using run_any by blast
    then show "snd (snd (run_state (do { create threshold (from_secs 60); times (unat failures) fail_once; reset_it;
        expect_state Closed; expect_count 0 }) ((now, b), True)))"
      by (simp add: breaker_reset_def breaker_close_def maybe_transition_def)
  qed
next
  assume failures: "failures < threshold"
  then have less: "unat failures < unat threshold" by (simp add: word_less_nat_alt)
  show "breaker_passes (t_closed_circuit_allows threshold failures)"
    using less by (simp add: breaker_passes_def passes_def t_closed_circuit_allows_def after_0)
  show "breaker_passes (t_failure_count_accurate threshold failures)"
    using less by (simp add: breaker_passes_def passes_def t_failure_count_accurate_def after_0 unat_ucast_wider)
  assume "0 < failures"
  then show "breaker_passes (t_success_resets_failures_in_closed threshold failures)"
    using less by (simp add: breaker_passes_def passes_def t_success_resets_failures_in_closed_def after_0 record_success_def
        word_less_nat_alt unat_ucast_wider)
qed

end
