(* ===== verification/Tests_Core.thy ===== *)
theory Tests_Core
  imports Tests_Script Core_Mocks
begin

text \<open>
  Tests of \<open>crates/duende-core/src/tests\<close> run on the model: those of the mock daemon (\<open>mocks.rs\<close>), of the life cycle
  (\<open>lifecycle.rs\<close>), of signals (\<open>signal.rs\<close>), of health reports (\<open>health.rs\<close>) and of the metrics (\<open>observability.rs\<close>).
  The model passes each of them, whatever the ids, the clock and the times at which background tasks get their turn. Tests of
  one default value and of derived code are left out.
\<close>

lemma contains_suffix [simp]: "contains s (t @ s)"
  unfolding contains_iff by (intro exI [of _ t] exI [of _ "[]"]) simp

section \<open>Mock daemons\<close>

type_synonym ('w, 'a) mock_test = "('w mock_world, 'a) test"

definition create_mock :: "daemon_id \<Rightarrow> string \<Rightarrow> (mock_daemon \<Rightarrow> mock_daemon) \<Rightarrow> ('w, unit) mock_test" where
  "create_mock i name build = act (\<lambda>w. ((), w\<lparr>adapter := build (mock_new i (clock w) name)\<rparr>))"

definition on_mock :: "(mock_daemon \<Rightarrow> 'a \<times> mock_daemon) \<Rightarrow> ('w, 'a) mock_test" where
  "on_mock f = act (\<lambda>w. case f (adapter w) of (a, d) \<Rightarrow> (a, w\<lparr>adapter := d\<rparr>))"

definition read_mock :: "(mock_daemon \<Rightarrow> 'a) \<Rightarrow> ('w, 'a) mock_test" where
  "read_mock f = observe (\<lambda>w. f (adapter w))"

text \<open>\<open>looks\<close> is what the daemon finds in its channel, look by look.\<close>

definition run_mock ::
  "nat \<Rightarrow> 'w sleeper \<Rightarrow> daemon_config \<Rightarrow> signal option list \<Rightarrow> ('w, (unit daemon_error, exit_reason) outcome option) mock_test" where
  "run_mock n slp config looks =
     act (\<lambda>w. case mock_run n polled slp (fst (context_new looks () config)) w of
         Some (r, ctx, w') \<Rightarrow> (Some r, w')
       | None \<Rightarrow> (None, w))"

definition init_mock :: "daemon_config \<Rightarrow> ('w, (unit daemon_error, unit) outcome) mock_test" where
  "init_mock config = on_mock (mock_init config)"

definition shutdown_mock :: "duration \<Rightarrow> ('w, (unit daemon_error, unit) outcome) mock_test" where
  "shutdown_mock timeout = on_mock (mock_shutdown timeout)"

definition error_text :: "(duration \<Rightarrow> string) \<Rightarrow> (unit daemon_error, 'a) outcome \<Rightarrow> string" where
  "error_text sd r = (case r of Err e \<Rightarrow> show_daemon_error sd (\<lambda>_. '''') e | _ \<Rightarrow> '''')"

lemma init_error_text [simp]: "contains msg (error_text sd (Err (DInit msg)))"
  unfolding error_text_def outcome.case show_daemon_error.simps by (rule contains_suffix)

abbreviation test_config :: daemon_config where
  "test_config \<equiv> config_new ''test'' ''/bin/test''"

definition t_mock_creation :: "daemon_id \<Rightarrow> ('w, unit) mock_test" where
  "t_mock_creation i =
     do { create_mock i ''test'' id; name \<leftarrow> read_mock mk_name; expect (name = ''test'');
          n \<leftarrow> read_mock mk_init_count; expect (n = 0) }"

definition t_mock_init_success :: "daemon_id \<Rightarrow> ('w, unit) mock_test" where
  "t_mock_init_success i =
     do { create_mock i ''test'' id; r \<leftarrow> init_mock test_config; expect (is_ok r);
          n \<leftarrow> read_mock mk_init_count; expect (n = 1) }"

definition t_mock_init_failure :: "(duration \<Rightarrow> string) \<Rightarrow> daemon_id \<Rightarrow> ('w, unit) mock_test" where
  "t_mock_init_failure sd i =
     do { create_mock i ''test'' (fail_init ''test error''); r \<leftarrow> init_mock test_config; expect (\<not> is_ok r);
          expect (contains ''test error'' (error_text sd r)) }"

definition t_mock_health_check :: "duration option \<Rightarrow> daemon_id \<Rightarrow> ('w, unit) mock_test" where
  "t_mock_health_check since i =
     do { create_mock i ''test'' id; health \<leftarrow> on_mock (mock_health_check since); expect (is_healthy health);
          n \<leftarrow> read_mock mk_health_check_count; expect (n = 1) }"

definition t_mock_unhealthy :: "duration option \<Rightarrow> daemon_id \<Rightarrow> ('w, unit) mock_test" where
  "t_mock_unhealthy since i =
     do { create_mock i ''test'' unhealthy; health \<leftarrow> on_mock (mock_health_check since); expect (\<not> is_healthy health) }"

definition t_mock_shutdown :: "daemon_id \<Rightarrow> ('w, unit) mock_test" where
  "t_mock_shutdown i =
     do { create_mock i ''test'' id; r \<leftarrow> shutdown_mock (from_secs 5); expect (is_ok r);
          n \<leftarrow> read_mock mk_shutdown_count; expect (n = 1) }"

definition t_mock_shutdown_failure :: "daemon_id \<Rightarrow> ('w, unit) mock_test" where
  "t_mock_shutdown_failure i =
     do { create_mock i ''test'' (fail_shutdown ''shutdown error''); r \<leftarrow> shutdown_mock (from_secs 5); expect (\<not> is_ok r) }"

text \<open>Six looks are enough for five turns.\<close>

definition t_mock_exit_after :: "'w sleeper \<Rightarrow> daemon_id \<Rightarrow> ('w, unit) mock_test" where
  "t_mock_exit_after slp i =
     do { create_mock i ''test'' (exit_after 5); r \<leftarrow> run_mock 6 slp test_config []; expect (r = Some (Ok Graceful));
          n \<leftarrow> read_mock mk_current_iteration; expect (5 \<le> n) }"

text \<open>The background task gets its turn before the \<open>k\<close>-th look.\<close>

definition t_mock_signal_response :: "nat \<Rightarrow> 'w sleeper \<Rightarrow> daemon_id \<Rightarrow> ('w, unit) mock_test" where
  "t_mock_signal_response k slp i =
     do { create_mock i ''test'' id; r \<leftarrow> run_mock (Suc k) slp test_config (replicate k None @ [Some Hup]);
          expect (r = Some (Ok (ExitSignal Hup))) }"

definition t_mock_factory :: "duration option \<Rightarrow> daemon_id \<Rightarrow> daemon_id \<Rightarrow> daemon_id \<Rightarrow> ('w, unit) mock_test" where
  "t_mock_factory since i j k =
     do { act (\<lambda>w. ((), w\<lparr>adapter := factory_healthy i (clock w) ''h''\<rparr>));
          health \<leftarrow> on_mock (mock_health_check since); expect (is_healthy health);
          act (\<lambda>w. ((), w\<lparr>adapter := factory_unhealthy j (clock w) ''u''\<rparr>));
          health \<leftarrow> on_mock (mock_health_check since); expect (\<not> is_healthy health);
          act (\<lambda>w. ((), w\<lparr>adapter := factory_failing_init k (clock w) ''f'' ''fail''\<rparr>));
          r \<leftarrow> init_mock test_config; expect (\<not> is_ok r) }"

lemmas mock_test_simps = passes_def create_mock_def on_mock_def read_mock_def init_mock_def shutdown_mock_def
  mock_init_def mock_shutdown_def mock_health_check_def health_ok_def health_bad_def is_healthy_def mock_defs

lemma mock_tests_pass:
  "passes w (t_mock_creation i)"
  "passes w (t_mock_init_success i)"
  "passes w (t_mock_init_failure sd i)"
  "passes w (t_mock_health_check since i)"
  "passes w (t_mock_unhealthy since i)"
  "passes w (t_mock_shutdown i)"
  "passes w (t_mock_shutdown_failure i)"
  "passes w (t_mock_factory since i j l)"
  by (simp_all add: t_mock_creation_def t_mock_init_success_def t_mock_init_failure_def t_mock_health_check_def
      t_mock_unhealthy_def t_mock_shutdown_def t_mock_shutdown_failure_def t_mock_factory_def mock_test_simps Let_def)

lemma mock_fresh [simp]:
  "\<not> mk_run_should_fail (mock_new i now name)"
  "turns_left (mock_new i now name) = 2 ^ 32 - 1"
  by (simp_all add: mock_new_def turns_left_def unsigned_minus_1_eq_mask mask_eq_exp_minus_1)

lemma run_mock_spec:
  assumes "\<not> mk_run_should_fail (adapter w)" "min k (turns_left (adapter w)) < n"
  obtains w' where "run_state (run_mock n slp config (replicate k None @ [Some s])) (w, p)
      = (Some (Ok (if k \<le> turns_left (adapter w) then ExitSignal s else Graceful)), (w', p))"
    and "mk_init_count (adapter w') = mk_init_count (adapter w)" "mk_shutdown_count (adapter w') = mk_shutdown_count (adapter w)"
    and "mk_shutdown_should_fail (adapter w') = mk_shutdown_should_fail (adapter w)"
proof -
  define ctx where "ctx = fst (context_new (replicate k None @ [Some s]) () config)"
  have ctx: "\<not> should_shutdown ctx" "cx_signal_rx ctx = replicate k None @ Some s # []"
    by (simp_all add: ctx_def context_new_def should_shutdown_def)
  obtain ctx' w' where run: "mock_loop n polled slp (mk_run_iterations (adapter w)) ctx w
      = Some (Ok (if k \<le> turns_left (adapter w) then ExitSignal s else Graceful) :: (unit daemon_error, exit_reason) outcome, ctx', w')"
    and kept: "mk_init_count (adapter w') = mk_init_count (adapter w)" "mk_shutdown_count (adapter w') = mk_shutdown_count (adapter w)"
      "mk_shutdown_should_fail (adapter w') = mk_shutdown_should_fail (adapter w)"
    using mock_loop_polled [OF ctx assms(2), of slp] by blast
  have "run_state (run_mock n slp config (replicate k None @ [Some s])) (w, p)
      = (Some (Ok (if k \<le> turns_left (adapter w) then ExitSignal s else Graceful)), (w', p))"
    using assms(1) run by (simp add: run_mock_def mock_run_def ctx_def [symmetric] del: if_split)
  with kept that show ?thesis by blast
qed

lemma run_mock_silent:
  assumes "\<not> mk_run_should_fail (adapter w)" "turns_left (adapter w) < n"
  obtains w' where "run_state (run_mock n slp config []) (w, p) = (Some (Ok Graceful), (w', p))"
    and "mk_current_iteration (adapter w') = mk_current_iteration (adapter w) + of_nat (Suc (turns_left (adapter w)))"
    and "mk_init_count (adapter w') = mk_init_count (adapter w)" "mk_shutdown_count (adapter w') = mk_shutdown_count (adapter w)"
    and "mk_shutdown_should_fail (adapter w') = mk_shutdown_should_fail (adapter w)"
proof -
  define ctx :: "signal option list daemon_context" where "ctx = fst (context_new [] () config)"
  have ctx: "\<not> should_shutdown ctx" "cx_signal_rx ctx = []"
    by (simp_all add: ctx_def context_new_def should_shutdown_def)
  obtain w' where run: "mock_loop n polled slp (mk_run_iterations (adapter w)) ctx w
      = Some (Ok Graceful :: (unit daemon_error, exit_reason) outcome, ctx, w')"
    and kept: "mk_current_iteration (adapter w') = mk_current_iteration (adapter w) + of_nat (Suc (turns_left (adapter w)))"
      "mk_init_count (adapter w') = mk_init_count (adapter w)" "mk_shutdown_count (adapter w') = mk_shutdown_count (adapter w)"
      "mk_shutdown_should_fail (adapter w') = mk_shutdown_should_fail (adapter w)"
    using mock_loop_silent [OF ctx assms(2), of slp] by blast
  have "run_state (run_mock n slp config []) (w, p) = (Some (Ok Graceful), (w', p))"
    using assms(1) run by (simp add: run_mock_def mock_run_def ctx_def [symmetric])
  with kept that show ?thesis by blast
qed

lemma mock_signal_response: "k < 2 ^ 32 \<Longrightarrow> passes w (t_mock_signal_response k slp i)"
proof -
  assume k: "k < 2 ^ 32"
  let ?w = "w\<lparr>adapter := mock_new i (clock w) ''test''\<rparr>"
  obtain w' where "run_state (run_mock (Suc k) slp test_config (replicate k None @ [Some Hup])) (?w, True) = (Some (Ok (ExitSignal Hup)), (w', True))"
    using run_mock_spec [of ?w k "Suc k" slp test_config Hup True] k by auto
  then show ?thesis by (simp add: t_mock_signal_response_def passes_def create_mock_def)
qed

lemma mock_exit_after: "passes w (t_mock_exit_after slp i)"
proof -
  let ?w = "w\<lparr>adapter := exit_after 5 (mock_new i (clock w) ''test'')\<rparr>"
  have left: "turns_left (adapter ?w) = 5" by (simp add: exit_after_def mock_new_def turns_left_def)
  obtain w' where "run_state (run_mock 6 slp test_config []) (?w, True) = (Some (Ok Graceful), (w', True))"
    and "mk_current_iteration (adapter w') = mk_current_iteration (adapter ?w) + 6"
    using run_mock_silent [of ?w 6 slp test_config True] left by (auto simp: exit_after_def)
  then show ?thesis by (simp add: t_mock_exit_after_def passes_def create_mock_def read_mock_def exit_after_def mock_new_def)
qed

section \<open>The life cycle\<close>

definition f001_init_called_before_run :: "nat \<Rightarrow> 'w sleeper \<Rightarrow> daemon_id \<Rightarrow> ('w, unit) mock_test" where
  "f001_init_called_before_run k slp i =
     do { create_mock i ''test'' id; n \<leftarrow> read_mock mk_init_count; expect (n = 0);
          r \<leftarrow> init_mock test_config; expect (is_ok r); n \<leftarrow> read_mock mk_init_count; expect (n = 1);
          r \<leftarrow> run_mock (Suc k) slp test_config (replicate k None @ [Some Term]);
          expect (case r of Some r \<Rightarrow> is_ok r | None \<Rightarrow> False);
          n \<leftarrow> read_mock mk_init_count; expect (n = 1) }"

definition f002_init_failure_prevents_run :: "(duration \<Rightarrow> string) \<Rightarrow> daemon_id \<Rightarrow> ('w, unit) mock_test" where
  "f002_init_failure_prevents_run sd i =
     do { create_mock i ''test'' (fail_init ''configuration error''); r \<leftarrow> init_mock test_config; expect (\<not> is_ok r);
          expect (contains ''configuration error'' (error_text sd r)) }"

definition f003_shutdown_called_after_run :: "'w sleeper \<Rightarrow> daemon_id \<Rightarrow> ('w, unit) mock_test" where
  "f003_shutdown_called_after_run slp i =
     do { create_mock i ''test'' (exit_after 5); n \<leftarrow> read_mock mk_shutdown_count; expect (n = 0);
          r \<leftarrow> init_mock test_config; expect (is_ok r);
          r \<leftarrow> run_mock 6 slp test_config []; expect (case r of Some r \<Rightarrow> is_ok r | None \<Rightarrow> False);
          r \<leftarrow> shutdown_mock (from_secs 5); expect (is_ok r);
          n \<leftarrow> read_mock mk_shutdown_count; expect (n = 1) }"

definition f004_valid_status_transitions :: bool where
  "f004_valid_status_transitions \<longleftrightarrow>
     \<not> is_terminal Created \<and> \<not> is_active Created \<and> \<not> is_terminal Starting \<and> \<not> is_active Starting
     \<and> \<not> is_terminal Running \<and> is_active Running \<and> can_signal Running
     \<and> \<not> is_terminal Paused \<and> is_active Paused \<and> can_signal Paused
     \<and> \<not> is_terminal Stopping \<and> \<not> is_active Stopping \<and> can_signal Stopping
     \<and> is_terminal Stopped \<and> \<not> can_signal Stopped"

definition f007_invalid_names_rejected :: "(nat \<Rightarrow> bool) \<Rightarrow> bool" where
  "f007_invalid_names_rejected ucd \<longleftrightarrow>
     (let valid = (\<lambda>name. is_ok (config_validate ucd ((config_new '''' ''/bin/test'')\<lparr>dc_name := name\<rparr>) :: (unit daemon_error, _) outcome))
      in \<not> valid '''' \<and> \<not> valid ''invalid name'' \<and> \<not> valid ''invalid@name''
         \<and> valid ''valid-name'' \<and> valid ''valid_name'' \<and> valid ''valid123'')"

definition f008_empty_binary_path_rejected :: "(nat \<Rightarrow> bool) \<Rightarrow> bool" where
  "f008_empty_binary_path_rejected ucd \<longleftrightarrow>
     \<not> is_ok (config_validate ucd (config_new ''test'' '''') :: (unit daemon_error, _) outcome)"

definition f011_restart_policy_never :: bool where
  "f011_restart_policy_never \<longleftrightarrow>
     \<not> should_restart RNever (ExitError ''test'') 0 \<and> \<not> should_restart RNever Graceful 0
     \<and> \<not> should_restart RNever (ExitSignal Term) 0 \<and> \<not> should_restart RNever (ExitResourceExhausted ''oom'') 0"

definition f012_restart_policy_always :: bool where
  "f012_restart_policy_always \<longleftrightarrow>
     should_restart RAlways (ExitError ''test'') 0 \<and> should_restart RAlways Graceful 0
     \<and> should_restart RAlways (ExitSignal Term) 0 \<and> should_restart RAlways Graceful 100"

definition f013_restart_policy_on_failure :: bool where
  "f013_restart_policy_on_failure \<longleftrightarrow>
     should_restart ROnFailure (ExitError ''test'') 0 \<and> should_restart ROnFailure (ExitResourceExhausted ''oom'') 0
     \<and> \<not> should_restart ROnFailure Graceful 0 \<and> \<not> should_restart ROnFailure (ExitSignal Term) 0"

definition f014_max_retries_limits_restarts :: bool where
  "f014_max_retries_limits_restarts \<longleftrightarrow>
     list_all (should_restart (RMaxRetries 3) (ExitError ''test'')) [0, 1, 2]
     \<and> list_all (\<lambda>n. \<not> should_restart (RMaxRetries 3) (ExitError ''test'') n) [3, 4]"

lemma lifecycle_value_tests_pass:
  "f004_valid_status_transitions"
  "f007_invalid_names_rejected ucd"
  "f008_empty_binary_path_rejected ucd"
  "f011_restart_policy_never"
  "f012_restart_policy_always"
  "f013_restart_policy_on_failure"
  "f014_max_retries_limits_restarts"
  by (simp_all add: f004_valid_status_transitions_def f007_invalid_names_rejected_def f008_empty_binary_path_rejected_def
      f011_restart_policy_never_def f012_restart_policy_always_def f013_restart_policy_on_failure_def
      f014_max_retries_limits_restarts_def Let_def config_validate_def config_new_def resource_validate_def resource_default_def
      name_char_def is_alphanumeric_def utf8_lead_def utf8_len_def utf8_fold_def)

lemma lifecycle_mock_tests_pass:
  "passes w (f001_init_called_before_run k slp i)"
  "passes w (f002_init_failure_prevents_run sd i)"
  "passes w (f003_shutdown_called_after_run slp i)"
proof -
  let ?d = "snd (mock_init test_config (mock_new i (clock w) ''test'') :: (unit daemon_error, unit) outcome \<times> _)"
  let ?w = "w\<lparr>adapter := ?d\<rparr>"
  have d: "\<not> mk_run_should_fail (adapter ?w)" "min k (turns_left (adapter ?w)) < Suc k" "mk_init_count ?d = 1"
    by (simp_all add: mock_init_def mock_new_def Let_def)
  obtain w' where "run_state (run_mock (Suc k) slp test_config (replicate k None @ [Some Term])) (?w, True)
      = (Some (Ok (if k \<le> turns_left (adapter ?w) then ExitSignal Term else Graceful)), (w', True))"
    and "mk_init_count (adapter w') = mk_init_count (adapter ?w)"
    using run_mock_spec [OF d(1,2), of slp test_config Term True] by blast
  then show "passes w (f001_init_called_before_run k slp i)"
    by (simp add: f001_init_called_before_run_def passes_def create_mock_def read_mock_def init_mock_def on_mock_def
        mock_init_def mock_new_def Let_def)
next
  show "passes w (f002_init_failure_prevents_run sd i)"
    by (simp add: f002_init_failure_prevents_run_def mock_test_simps Let_def)
next
  let ?d = "snd (mock_init test_config (exit_after 5 (mock_new i (clock w) ''test'')) :: (unit daemon_error, unit) outcome \<times> _)"
  have d: "\<not> mk_run_should_fail ?d" "turns_left ?d = 5" "mk_shutdown_count ?d = 0" "\<not> mk_shutdown_should_fail ?d"
    by (simp_all add: mock_init_def mock_new_def exit_after_def turns_left_def Let_def)
  obtain w' where "run_state (run_mock 6 slp test_config []) (w\<lparr>adapter := ?d\<rparr>, True) = (Some (Ok Graceful), (w', True))"
    and "mk_shutdown_count (adapter w') = 0" "\<not> mk_shutdown_should_fail (adapter w')"
    using run_mock_silent [of "w\<lparr>adapter := ?d\<rparr>" 6 slp test_config True] d by auto
  then show "passes w (f003_shutdown_called_after_run slp i)"
    by (simp add: f003_shutdown_called_after_run_def passes_def create_mock_def read_mock_def init_mock_def shutdown_mock_def
        on_mock_def mock_init_def mock_shutdown_def mock_new_def exit_after_def Let_def)
qed

section \<open>The manager and the signal channel\<close>

text \<open>The bench is a manager, the channel's queue and the context that reads it; the channel has the 16 slots that the
  context is made with.\<close>

type_synonym bench = "unit manager \<times> signal list \<times> signal list daemon_context"

type_synonym 'a bench_test = "(bench, 'a) test"

definition queued :: "('h, signal list) sender" where
  "queued handle s q = (if length q < 16 then (Delivered, q @ [s]) else (Never_completes, q))"

definition receiver_dropped :: "('h, signal list) sender" where
  "receiver_dropped handle s q = (Receiver_gone, q)"

definition new_manager :: "unit bench_test" where
  "new_manager = act (\<lambda>(m, q, cx). ((), (manager_new, q, cx)))"

definition new_context :: "daemon_config \<Rightarrow> unit bench_test" where
  "new_context config = act (\<lambda>(m, q, cx). ((), (m, [], fst (context_new [] () config))))"

definition on_manager :: "(unit manager \<Rightarrow> (unit, 'a) mresult \<times> unit manager) \<Rightarrow> (unit, 'a) mresult bench_test" where
  "on_manager f = act (\<lambda>(m, q, cx). case f m of (r, m') \<Rightarrow> (r, (m', q, cx)))"

definition ask_manager :: "(unit manager \<Rightarrow> 'a) \<Rightarrow> 'a bench_test" where
  "ask_manager f = observe (\<lambda>(m, q, cx). f m)"

definition sending :: "(signal list \<Rightarrow> (unit, unit) mresult option \<times> signal list) \<Rightarrow> (unit, unit) mresult option bench_test" where
  "sending f = act (\<lambda>(m, q, cx). case f q of (r, q') \<Rightarrow> (r, (m, q', cx)))"

definition manager_signal :: "id_printer \<Rightarrow> daemon_id \<Rightarrow> signal \<Rightarrow> (unit, unit) mresult option bench_test" where
  "manager_signal p i s = act (\<lambda>(m, q, cx). case signal_daemon p queued i s m q of (r, q') \<Rightarrow> (r, (m, q', cx)))"

definition try_recv :: "signal option bench_test" where
  "try_recv = act (\<lambda>(m, q, cx). case try_recv_signal list_recv (cx\<lparr>cx_signal_rx := q\<rparr>) of
       (s, cx') \<Rightarrow> (s, (m, cx_signal_rx cx', cx')))"

definition ask_shutdown :: "bool bench_test" where
  "ask_shutdown = observe (\<lambda>(m, q, cx). should_shutdown cx)"

definition send_ok :: "signal \<Rightarrow> unit bench_test" where
  "send_ok s = do { r \<leftarrow> sending (send_signal queued () s); expect (r = Some (Ok ())) }"

definition expect_ok :: "(unit manager \<Rightarrow> (unit, 'a) mresult \<times> unit manager) \<Rightarrow> unit bench_test" where
  "expect_ok f = do { r \<leftarrow> on_manager f; expect (is_ok r) }"

definition expect_err :: "(unit manager \<Rightarrow> (unit, 'a) mresult \<times> unit manager) \<Rightarrow> unit bench_test" where
  "expect_err f = do { r \<leftarrow> on_manager f; expect (\<not> is_ok r) }"

lemmas bench_simps = passes_def new_manager_def new_context_def on_manager_def ask_manager_def sending_def manager_signal_def
  try_recv_def ask_shutdown_def send_ok_def expect_ok_def expect_err_def queued_def receiver_dropped_def

definition f017_manager_tracks_restart_count :: "build \<Rightarrow> id_printer \<Rightarrow> daemon_id \<Rightarrow> unit bench_test" where
  "f017_manager_tracks_restart_count bld p i =
     do { new_manager; expect_ok (register p i ''test'' test_config RAlways);
          n \<leftarrow> ask_manager (get_restart_count p i); expect (n = (Ok 0 :: (unit, u32) mresult));
          expect_ok (increment_restart_count bld p i);
          n \<leftarrow> ask_manager (get_restart_count p i); expect (n = (Ok 1 :: (unit, u32) mresult));
          expect_ok (increment_restart_count bld p i); expect_ok (increment_restart_count bld p i);
          n \<leftarrow> ask_manager (get_restart_count p i); expect (n = (Ok 3 :: (unit, u32) mresult)) }"

definition f018_duplicate_registration_fails :: "id_printer \<Rightarrow> daemon_id \<Rightarrow> unit bench_test" where
  "f018_duplicate_registration_fails p i =
     do { new_manager; expect_ok (register p i ''test'' test_config RNever);
          expect_err (register p i ''test2'' test_config RNever) }"

definition f019_cannot_unregister_active :: "id_printer \<Rightarrow> daemon_id \<Rightarrow> unit bench_test" where
  "f019_cannot_unregister_active p i =
     do { new_manager; expect_ok (register p i ''test'' test_config RNever); expect_ok (update_status p i Running);
          expect_err (unregister p i); expect_ok (update_status p i Stopped); expect_ok (unregister p i) }"

definition f021_sigterm_triggers_graceful_shutdown :: "unit bench_test" where
  "f021_sigterm_triggers_graceful_shutdown =
     do { new_context test_config; send_ok Term; s \<leftarrow> try_recv; expect (s = Some Term); b \<leftarrow> ask_shutdown; expect b }"

definition f022_sigint_triggers_graceful_shutdown :: "unit bench_test" where
  "f022_sigint_triggers_graceful_shutdown =
     do { new_context test_config; send_ok Int'; s \<leftarrow> try_recv; b \<leftarrow> ask_shutdown; expect b }"

definition f023_sigquit_triggers_graceful_shutdown :: "unit bench_test" where
  "f023_sigquit_triggers_graceful_shutdown =
     do { new_context test_config; send_ok Quit; s \<leftarrow> try_recv; b \<leftarrow> ask_shutdown; expect b }"

definition f024_sighup_does_not_trigger_shutdown :: "unit bench_test" where
  "f024_sighup_does_not_trigger_shutdown =
     do { new_context test_config; send_ok Hup; s \<leftarrow> try_recv; expect (s = Some Hup); b \<leftarrow> ask_shutdown; expect (\<not> b) }"

definition f025_sigusr1_delivered_to_daemon :: "unit bench_test" where
  "f025_sigusr1_delivered_to_daemon =
     do { new_context test_config; send_ok Usr1; s \<leftarrow> try_recv; expect (s = Some Usr1); b \<leftarrow> ask_shutdown; expect (\<not> b) }"

definition f026_sigusr2_delivered_to_daemon :: "unit bench_test" where
  "f026_sigusr2_delivered_to_daemon =
     do { new_context test_config; send_ok Usr2; s \<leftarrow> try_recv; expect (s = Some Usr2); b \<leftarrow> ask_shutdown; expect (\<not> b) }"

definition f027_sigstop_handled :: "unit bench_test" where
  "f027_sigstop_handled = do { new_context test_config; expect (signal_as_i32 Stop = 19); send_ok Stop }"

definition f028_sigcont_handled :: "unit bench_test" where
  "f028_sigcont_handled = do { new_context test_config; expect (signal_as_i32 Cont = 18); send_ok Cont }"

definition f029_signal_to_stopped_daemon_fails :: "id_printer \<Rightarrow> daemon_id \<Rightarrow> unit bench_test" where
  "f029_signal_to_stopped_daemon_fails p i =
     do { new_manager; expect_ok (register p i ''test'' test_config RNever); expect_ok (update_status p i Stopped);
          r \<leftarrow> manager_signal p i Term; expect (case r of Some r \<Rightarrow> \<not> is_ok r | None \<Rightarrow> False) }"

definition f032_signal_from_i32_invalid :: bool where
  "f032_signal_from_i32_invalid \<longleftrightarrow>
     list_all (\<lambda>n. signal_from_i32 n = None) [0, - 1, 100, 999] \<and> list_all (\<lambda>n. signal_from_i32 n \<noteq> None) [1, 9, 15]"

definition f036_multiple_signals_queued :: "unit bench_test" where
  "f036_multiple_signals_queued =
     do { new_context test_config;
          _ \<leftarrow> sending (send_signal queued () Usr1); _ \<leftarrow> sending (send_signal queued () Usr2); _ \<leftarrow> sending (send_signal queued () Hup);
          s \<leftarrow> try_recv; expect (s = Some Usr1); s \<leftarrow> try_recv; expect (s = Some Usr2);
          s \<leftarrow> try_recv; expect (s = Some Hup); s \<leftarrow> try_recv; expect (s = None) }"

definition f037_handle_shutdown_sends_sigterm :: "unit bench_test" where
  "f037_handle_shutdown_sends_sigterm =
     do { new_context test_config; _ \<leftarrow> sending (handle_shutdown queued ()); s \<leftarrow> try_recv; expect (s = Some Term) }"

definition f038_handle_closed_returns_error :: "unit bench_test" where
  "f038_handle_closed_returns_error =
     do { new_context test_config; r \<leftarrow> sending (send_signal receiver_dropped () Term);
          expect (case r of Some r \<Rightarrow> \<not> is_ok r | None \<Rightarrow> False) }"

definition f039_manager_signal_forwards_correctly :: "id_printer \<Rightarrow> daemon_id \<Rightarrow> instant \<Rightarrow> unit bench_test" where
  "f039_manager_signal_forwards_correctly p i now =
     do { new_manager; expect_ok (register p i ''test'' test_config RNever); expect_ok (update_status p i Running);
          new_context test_config; _ \<leftarrow> on_manager (set_context_handle p i () now);
          r \<leftarrow> manager_signal p i Usr1; expect (r = Some (Ok ())); s \<leftarrow> try_recv; expect (s = Some Usr1) }"

definition f040_signal_to_unknown_daemon_fails :: "id_printer \<Rightarrow> daemon_id \<Rightarrow> unit bench_test" where
  "f040_signal_to_unknown_daemon_fails p unknown =
     do { new_manager; r \<leftarrow> manager_signal p unknown Term; expect (case r of Some r \<Rightarrow> \<not> is_ok r | None \<Rightarrow> False) }"

lemma manager_tests_pass:
  "passes b (f017_manager_tracks_restart_count bld p i)"
  "passes b (f018_duplicate_registration_fails p i)"
  "passes b (f019_cannot_unregister_active p i)"
  "passes b (f029_signal_to_stopped_daemon_fails p i)"
  "passes b (f039_manager_signal_forwards_correctly p i now)"
  "passes b (f040_signal_to_unknown_daemon_fails p i)"
  by (simp_all add: f017_manager_tracks_restart_count_def f018_duplicate_registration_fails_def
      f019_cannot_unregister_active_def f029_signal_to_stopped_daemon_fails_def f039_manager_signal_forwards_correctly_def
      f040_signal_to_unknown_daemon_fails_def bench_simps manager_defs manager_new_def get_restart_count_def uadd_in_range
      signal_daemon_def send_signal_def try_recv_signal_def list_recv_def context_new_def split: prod.split)

lemma signal_tests_pass:
  "passes b f021_sigterm_triggers_graceful_shutdown"
  "passes b f022_sigint_triggers_graceful_shutdown"
  "passes b f023_sigquit_triggers_graceful_shutdown"
  "passes b f024_sighup_does_not_trigger_shutdown"
  "passes b f025_sigusr1_delivered_to_daemon"
  "passes b f026_sigusr2_delivered_to_daemon"
  "passes b f027_sigstop_handled"
  "passes b f028_sigcont_handled"
  "f032_signal_from_i32_invalid"
  "passes b f036_multiple_signals_queued"
  "passes b f037_handle_shutdown_sends_sigterm"
  "passes b f038_handle_closed_returns_error"
  by (simp_all add: f021_sigterm_triggers_graceful_shutdown_def f022_sigint_triggers_graceful_shutdown_def
      f023_sigquit_triggers_graceful_shutdown_def f024_sighup_does_not_trigger_shutdown_def
      f025_sigusr1_delivered_to_daemon_def f026_sigusr2_delivered_to_daemon_def f027_sigstop_handled_def f028_sigcont_handled_def
      f032_signal_from_i32_invalid_def f036_multiple_signals_queued_def f037_handle_shutdown_sends_sigterm_def
      f038_handle_closed_returns_error_def bench_simps send_signal_def handle_shutdown_def try_recv_signal_def list_recv_def
      context_new_def should_shutdown_def signal_as_i32_def signal_from_i32_def split: prod.split)

text \<open>\<open>shutdown_all\<close> on daemons that were only registered: whatever the order of the map, nothing is sent.\<close>

fun register_each :: "id_printer \<Rightarrow> (nat \<Rightarrow> string) \<Rightarrow> nat \<Rightarrow> daemon_id list \<Rightarrow> unit bench_test" where
  "register_each p name n [] = State_Monad.return ()"
| "register_each p name n (i # is) =
     do { expect_ok (register p i (name n) (config_new (name n) ''/bin/test'') RNever); register_each p name (Suc n) is }"

definition f020_shutdown_all_signals_all ::
  "id_printer \<Rightarrow> (unit manager \<Rightarrow> daemon_id list) \<Rightarrow> daemon_id list \<Rightarrow> unit bench_test" where
  "f020_shutdown_all_signals_all p iter ids =
     do { new_manager; register_each p (\<lambda>n. ''daemon-'' @ show_nat n) 0 ids; n \<leftarrow> ask_manager daemon_count; expect (n = 5);
          _ \<leftarrow> act (\<lambda>(m, q, cx). case shutdown_all p iter queued m q of
              (r, q') \<Rightarrow> (r :: (unit, unit) mresult option, (m, q', cx)));
          State_Monad.return () }"

lemma register_each_passes:
  assumes "distinct ids" "\<forall>i\<in>set ids. daemons m i = None"
  shows "\<exists>m'. run_state (register_each p name n ids) ((m, q, cx), passed) = ((), ((m', q, cx), passed))
    \<and> dom (daemons m') = set ids \<union> dom (daemons m)"
  using assms
proof (induction ids arbitrary: n m)
  case (Cons i ids)
  define m1 where "m1 = snd (register p i (name n) (config_new (name n) ''/bin/test'') RNever m :: (unit, _) mresult \<times> _)"
  have reg: "register p i (name n) (config_new (name n) ''/bin/test'') RNever m = ((Ok i, m1) :: (unit, _) mresult \<times> _)"
    and dom: "dom (daemons m1) = insert i (dom (daemons m))" and new: "\<forall>j\<in>set ids. daemons m1 j = None"
    using Cons.prems by (auto simp: m1_def manager_defs)
  from Cons.IH [OF _ new, of "Suc n"] Cons.prems(1) dom reg show ?case
    by (auto simp: expect_ok_def on_manager_def)
qed simp

lemma shutdown_all_passes:
  "distinct ids \<Longrightarrow> length ids = 5 \<Longrightarrow> passes b (f020_shutdown_all_signals_all p iter ids)"
proof -
  assume ids: "distinct ids" "length ids = 5"
  obtain m q cx where b: "b = (m, q, cx)" by (cases b)
  obtain m' where "run_state (register_each p (\<lambda>n. ''daemon-'' @ show_nat n) 0 ids) ((manager_new, q, cx), True) = ((), ((m', q, cx), True))"
    and "dom (daemons m') = set ids"
    using register_each_passes [of ids manager_new p "\<lambda>n. ''daemon-'' @ show_nat n" 0 q cx True] ids by (auto simp: manager_new_def)
  then show ?thesis
    using ids by (simp add: b f020_shutdown_all_signals_all_def passes_def new_manager_def ask_manager_def daemon_count_def
        distinct_card split: prod.split)
qed

section \<open>Health and metrics\<close>

definition f070_manager_updates_health_status :: "id_printer \<Rightarrow> daemon_id \<Rightarrow> duration option \<Rightarrow> unit bench_test" where
  "f070_manager_updates_health_status p i since =
     do { new_manager; expect_ok (register p i ''test'' test_config RNever); expect_ok (update_health p i (health_ok since 5));
          r \<leftarrow> ask_manager (get_health p i);
          expect (case r of (Ok (Some h) :: (unit, _) mresult) \<Rightarrow> is_healthy h | _ \<Rightarrow> False) }"

definition f071_manager_retrieves_health_status :: "id_printer \<Rightarrow> daemon_id \<Rightarrow> duration option \<Rightarrow> unit bench_test" where
  "f071_manager_retrieves_health_status p i since =
     do { new_manager; expect_ok (register p i ''test'' test_config RNever);
          r \<leftarrow> ask_manager (get_health p i); expect (r = (Ok None :: (unit, _) mresult));
          expect_ok (update_health p i (health_ok since 1)); r \<leftarrow> ask_manager (get_health p i);
          expect (case r of (Ok (Some h) :: (unit, _) mresult) \<Rightarrow> is_healthy h | _ \<Rightarrow> False) }"

definition f078_health_recovery_behavior :: "id_printer \<Rightarrow> daemon_id \<Rightarrow> duration option \<Rightarrow> unit bench_test" where
  "f078_health_recovery_behavior p i since =
     do { new_manager; expect_ok (register p i ''test'' test_config RNever);
          expect_ok (update_health p i (health_bad since ''failed'' 1)); expect_ok (update_health p i (health_ok since 1));
          r \<leftarrow> ask_manager (get_health p i);
          expect (case r of (Ok (Some h) :: (unit, _) mresult) \<Rightarrow> is_healthy h | _ \<Rightarrow> False) }"

lemma health_tests_pass:
  "passes b (f070_manager_updates_health_status p i since)"
  "passes b (f071_manager_retrieves_health_status p i since)"
  "passes b (f078_health_recovery_behavior p i since)"
  by (simp_all add: f070_manager_updates_health_status_def f071_manager_retrieves_health_status_def
      f078_health_recovery_behavior_def bench_simps manager_defs manager_new_def get_health_def health_ok_def health_bad_def
      is_healthy_def split: prod.split)

type_synonym 'a metrics_test = "(metrics, 'a) test"

definition new_metrics :: "instant \<Rightarrow> unit metrics_test" where
  "new_metrics now = act (\<lambda>_. ((), metrics_new now))"

definition update :: "(metrics \<Rightarrow> metrics) \<Rightarrow> unit metrics_test" where
  "update f = act (\<lambda>m. ((), f m))"

definition expect_metric :: "(metrics \<Rightarrow> 'a) \<Rightarrow> 'a \<Rightarrow> unit metrics_test" where
  "expect_metric f x = do { y \<leftarrow> observe f; expect (y = x) }"

lemmas metrics_test_simps = passes_def new_metrics_def update_def expect_metric_def metrics_new_def

definition f081_request_counter_increments :: "instant \<Rightarrow> unit metrics_test" where
  "f081_request_counter_increments now =
     do { new_metrics now; expect_metric requests_total 0; update record_request; expect_metric requests_total 1;
          update record_request; update record_request; expect_metric requests_total 3 }"

definition f082_error_counter_increments :: "instant \<Rightarrow> unit metrics_test" where
  "f082_error_counter_increments now =
     do { new_metrics now; expect_metric errors_total 0; update record_error; expect_metric errors_total 1;
          update record_error; expect_metric errors_total 2 }"

text \<open>The program asserts closeness here; the model's rates are equal.\<close>

definition f083_error_rate_calculated :: "instant \<Rightarrow> unit metrics_test" where
  "f083_error_rate_calculated now =
     do { new_metrics now; expect_metric error_rate (Fin 0); update record_request; update record_request; update record_error;
          expect_metric error_rate (Fin (1 / 2)) }"

definition f084_duration_average_correct :: "instant \<Rightarrow> unit metrics_test" where
  "f084_duration_average_correct now =
     do { new_metrics now; expect_metric duration_avg 0; update (record_duration (from_millis 10));
          update (record_duration (from_millis 20)); expect_metric duration_avg (from_millis 15) }"

definition f085_duration_max_tracks_maximum :: "instant \<Rightarrow> unit metrics_test" where
  "f085_duration_max_tracks_maximum now =
     do { new_metrics now; expect_metric duration_max 0;
          update (record_duration (from_millis 10)); expect_metric duration_max (from_millis 10);
          update (record_duration (from_millis 50)); expect_metric duration_max (from_millis 50);
          update (record_duration (from_millis 20)); expect_metric duration_max (from_millis 50) }"

definition f090_circuit_breaker_trip_recorded :: "instant \<Rightarrow> unit metrics_test" where
  "f090_circuit_breaker_trip_recorded now =
     do { new_metrics now; expect_metric circuit_breaker_trips 0;
          update record_circuit_breaker_trip; expect_metric circuit_breaker_trips 1;
          update record_circuit_breaker_trip; update record_circuit_breaker_trip; expect_metric circuit_breaker_trips 3 }"

definition f091_recovery_recorded :: "instant \<Rightarrow> unit metrics_test" where
  "f091_recovery_recorded now =
     do { new_metrics now; expect_metric successful_recoveries 0; update record_recovery; expect_metric successful_recoveries 1;
          update record_recovery; expect_metric successful_recoveries 2 }"

lemma f_round_half: "f_round (1 / 2) = Fin (1 / 2)"
  using f_round_small [of "1 / 2"] rndq_pow2 [of "- 1"] by (simp add: pow2_def)

lemma metrics_tests_pass:
  "passes m (f081_request_counter_increments now)"
  "passes m (f082_error_counter_increments now)"
  "passes m (f083_error_rate_calculated now)"
  "passes m (f084_duration_average_correct now)"
  "passes m (f085_duration_max_tracks_maximum now)"
  "passes m (f090_circuit_breaker_trip_recorded now)"
  "passes m (f091_recovery_recorded now)"
  by (simp_all add: f081_request_counter_increments_def f082_error_counter_increments_def f083_error_rate_calculated_def
      f084_duration_average_correct_def f085_duration_max_tracks_maximum_def f090_circuit_breaker_trip_recorded_def
      f091_recovery_recorded_def metrics_test_simps record_request_def record_error_def record_recovery_def
      record_circuit_breaker_trip_def record_duration_def error_rate_def duration_avg_def duration_max_def Let_def
      f_of_nat_small f_round_half word_less_nat_alt)

end
