(* ===== verification/Spec2Isabelle.thy ===== *)
theory Spec2Isabelle
  imports Policy_Breaker_Threads Core_Manager Core_Metrics_Threads Adapters
    Policy_Jidoka Policy_Gate Policy_Limiter Obs_Monitor Obs_Tracer Obs_Health Mlock Ublk
    Platform_Linux Platform_Wos Platform_Container Platform_Pepita Platform_Macos Memory_Targets
    Test_Harness Test_Load_Threads Manager_Tasks Example_Daemon Programs
    Core_Mocks Tests_Policy Tests_Core
begin

text \<open>
  A model of \<open>duende\<close>, a Rust workspace of tools for running daemons on several platforms, and the properties that make
  it correct. Paths below are under \<open>src/crates\<close>, those starting with \<open>examples\<close> under \<open>src\<close>.

  The program. \<open>duende-core\<close> has the types of a daemon's life, its configuration, the context a daemon runs in, a
  registry of daemons (the manager), metrics, platform detection, and one adapter per platform that starts, signals,
  queries and stops daemons. \<open>duende-platform\<close> is a second, older family of adapters with memory locking.
  \<open>duende-policy\<close> has the circuit breaker, the stop-on-violation gate, the quality gate and the cgroup limiter;
  \<open>duende-observe\<close> the process monitor, the system call tracer and the health monitor; \<open>duende-mlock\<close> locks memory;
  \<open>duende-ublk\<close> drives the control device of user-space block devices; \<open>duende-test\<close> tests daemons with a
  harness, chaos and load. The crates meet in the core types: the manager sends the signals that adapters deliver,
  the health monitor and the harness fill health reports, the memory code reads the configuration. The programs under
  \<open>examples\<close> and \<open>bin\<close> put the crates together.

  Foundations.
    \<^item> \<open>Prelude\<close>: integers at their width, durations and instants as nanoseconds, results with a panic, the arithmetic of
      the two build profiles, and the contracts \<open>invariant_machine\<close>, \<open>simulation\<close> and \<open>codec\<close>;
    \<^item> \<open>Rust_Text\<close>: strings as UTF-8 bytes with the operations the sources call; what is printed parses back;
    \<^item> \<open>F64\<close>: binary64 with rounding to nearest even, computable, with monotonicity and exactness.

  Theories and sources.
    \<^item> \<open>Core_Types\<close>: \<open>duende-core/src/types.rs\<close>, \<open>error.rs\<close>; \<open>Core_Config\<close>: \<open>config.rs\<close>; \<open>Core_Daemon\<close>: \<open>daemon.rs\<close>;
      \<open>Core_Manager\<close>: \<open>manager.rs\<close>, and \<open>Manager_Tasks\<close> the same by the steps of its locks; \<open>Core_Metrics\<close>: \<open>metrics.rs\<close>,
      and \<open>Core_Metrics_Threads\<close> by its single accesses; \<open>Core_Platform\<close>: \<open>platform.rs\<close> and \<open>duende-platform/src/detect.rs\<close>;
    \<^item> \<open>Core_Adapter\<close>: \<open>duende-core/src/adapter.rs\<close>, the world an adapter acts on (clock, adapter state, operating
      system) and the contracts \<open>clocked\<close> and \<open>adapter_clock\<close>; \<open>Adapter_Native\<close>, \<open>Adapter_Systemd\<close>,
      \<open>Adapter_Container\<close>, \<open>Adapter_Pepita\<close>, \<open>Adapter_Launchd\<close>, \<open>Adapter_Wos\<close>: the files of \<open>adapters/\<close>;
      \<open>Adapters\<close>: \<open>adapters/mod.rs\<close>, the selection of an adapter and what holds of all of them;
    \<^item> \<open>Policy_Breaker\<close>, \<open>Policy_Jidoka\<close>, \<open>Policy_Gate\<close>, \<open>Policy_Limiter\<close>: \<open>circuit_breaker.rs\<close>, \<open>jidoka.rs\<close>, \<open>gate.rs\<close>,
      \<open>limiter.rs\<close> and \<open>error.rs\<close> of \<open>duende-policy/src\<close>; \<open>Policy_Breaker_Threads\<close>: \<open>circuit_breaker.rs\<close> by the steps of its locks;
    \<^item> \<open>Obs_Monitor\<close>, \<open>Obs_Tracer\<close>, \<open>Obs_Health\<close>: \<open>monitor.rs\<close> with \<open>error.rs\<close>, \<open>tracer.rs\<close>, \<open>health.rs\<close> of
      \<open>duende-observe/src\<close>;
    \<^item> \<open>Mlock\<close>: \<open>duende-mlock/src\<close>; \<open>Ublk\<close>: \<open>error.rs\<close>, \<open>sys.rs\<close>, \<open>control.rs\<close> of \<open>duende-ublk/src\<close>;
    \<^item> \<open>Platform_Adapter\<close>, \<open>Platform_Linux\<close>, \<open>Platform_Wos\<close>, \<open>Platform_Container\<close>, \<open>Platform_Pepita\<close>, \<open>Platform_Macos\<close>,
      \<open>Platform_Memory\<close>: \<open>adapter.rs\<close> with \<open>error.rs\<close> and \<open>native.rs\<close>, \<open>linux.rs\<close>, \<open>wos.rs\<close>, \<open>container.rs\<close>,
      \<open>pepita.rs\<close>, \<open>macos.rs\<close>, \<open>memory.rs\<close> of \<open>duende-platform/src\<close>; \<open>Memory_Targets\<close>: locking memory in both crates, by target;
    \<^item> \<open>Test_Chaos\<close>, \<open>Test_Harness\<close>, \<open>Test_Load\<close>: \<open>chaos.rs\<close>, \<open>harness.rs\<close> with \<open>error.rs\<close>, \<open>load.rs\<close> of \<open>duende-test/src\<close>;
      \<open>Test_Load_Threads\<close>: the run of \<open>load.rs\<close> by the steps of its tasks;
    \<^item> \<open>Example_Daemon\<close>: \<open>examples/daemon.rs\<close>; \<open>Programs\<close>: \<open>examples/mlock.rs\<close>, \<open>duende-mlock/examples/test_lock.rs\<close>,
      \<open>duende-ublk/examples/cleanup.rs\<close> and \<open>duende-platform/src/bin/mlock-docker-test.rs\<close>;
    \<^item> \<open>Core_Mocks\<close>: \<open>mocks.rs\<close> and \<open>harness.rs\<close> of \<open>duende-core/src/tests\<close>; \<open>Tests_Script\<close>: how a test is run on the model;
      \<open>Tests_Policy\<close>, \<open>Tests_Core\<close>: the tests of \<open>circuit_breaker.rs\<close>, and those of \<open>mocks.rs\<close>, \<open>lifecycle.rs\<close>, \<open>signal.rs\<close>,
      \<open>health.rs\<close> and \<open>observability.rs\<close> of \<open>duende-core/src/tests\<close> that are about more than one value.

  Conventions. A struct is a record and an enum a datatype with the source's constructors (renamed where they clash);
  a method is a function that returns its result and the new state. A definition is named as the function it
  translates, with a prefix where crates repeat a name: \<open>p_\<close> for the platform crate, \<open>sd_\<close>, \<open>ct_\<close>, \<open>pp_\<close>, \<open>ld_\<close>,
  \<open>wos_\<close> for the core adapters. Async methods are run to their end; where tasks or threads can interleave within one
  (the methods of the manager, the breaker and the metrics, the workers of a load test) there
  is a second model whose steps are the single accesses, and what is shown holds for every order of them. What the program asks of
  the outside, commands, files, \<open>kill(2)\<close>, \<open>mlockall(2)\<close>, the ring of the block driver, clocks, random draws, the order
  in which a hash map is walked, is an argument, so the properties hold whatever it answers.

  What is shown.
    \<^item> Breaker: it refines a three-state specification and can recover. Under any number of threads an open breaker still
      blocks until its timeout and trips at its threshold; a failure against a \<open>reset\<close> can leave it open for ever, and
      only that can; a slow probe can end a fresh open state at once.
    \<^item> Core: validation and the context's flag are characterised; the manager refines a table of statuses, active
      daemons stay, signals go to their targets only, delays are capped; metrics recorded by threads are those of some
      sequence of the calls, but a snapshot taken meanwhile can be of no moment;
      the two copies of platform detection are compared.
    \<^item> Manager under tasks: its methods are atomic whatever the order of their locking steps, they do not deadlock while
      the channels have room, every call returns when the daemons read, and a signal to a full channel holds up
      everything behind it.
    \<^item> Manager and daemons together (in this theory): a shutdown of all daemons reaches every daemon that takes signals,
      and ends the counter daemon within a turn.
    \<^item> Adapters: stopping always returns, for every adapter; a handle from \<open>spawn\<close> fits its adapter, one of another
      platform is refused; what each adapter reads in the answers of its tools.
    \<^item> Policy and observation: limits are written before a process is admitted; parsers of \<open>/proc\<close> read back what is
      written there and fail as described; histories and counts are what was collected; the health verdict is a
      hysteresis over the results.
    \<^item> Locking and block devices: every answer of a lock request; the two locking crates agree on Linux and macOS only; commands read back,
      end within their bounds, and orphans are found exactly.
    \<^item> Platform and test crates: unit files and service lists read back; the process table holds live processes only;
      the harness shutdown ends; percentiles split the samples; under every order of the steps of its
      tasks a load test keeps its books, ends (by its limit of requests, or once its time is up), and fails the default workload.
    \<^item> Programs: the example daemon counts its turns until the first signal and stops gracefully; the locking example and the
      test runner exit as planned.
    \<^item> The program's own tests: the model passes them, which checks it against what its authors expect; the property tests
      hold for all inputs and not only for the small ranges they draw from, and a mock daemon always ends its run.

  Fuel. Loops that wait take a number of turns as an argument, and each theorem about them shows it is enough: the
  default stop polls every 100 ms (\<open>stop_fuel\<close>: timeout / 100 ms + 2), the native stop every 50 ms (\<open>native_stop_fuel\<close>),
  the harness every 50 ms (\<open>shutdown_fuel\<close>), a block command every 10 ms (\<open>poll_fuel\<close>: timeout / 10 ms + 2), because
  sleeping takes at least as long as asked and the clock does not go back. A load worker with a limit of
  requests needs one turn more than the limit; without one only the clock bounds its loop (\<open>Test_Load_Threads\<close>
  bounds the steps after the end of the test). Runs of tasks are lists of events and need no fuel. The counter daemon's loop takes one turn more than the looks
  into its channel before the first signal, and without a signal no number of turns is enough; that of a mock daemon never takes more than \<open>2 ^ 32\<close>.

  Not modelled. The \<open>lib.rs\<close> files only re-export. Of the test modules those named above are run on the model, the others are left out, as is the
  catalogue of test descriptions (\<open>falsification.rs\<close>). Derived and logging
  code (serde attributes, \<open>tracing\<close> calls, most \<open>Debug\<close> texts) has no effect the properties speak of; of the text
  that the example daemon, \<open>test_lock\<close> and \<open>cleanup\<close> print only the values are kept. In which order the locks of tokio let
  waiting tasks in is left open, so the properties hold for every order. Receivers of the health monitor's broadcast
  channel are left out. Where a function has bodies for several systems, those for Linux are modelled, and the others
  in \<open>Memory_Targets\<close>, \<open>Policy_Limiter\<close>, \<open>Core_Platform\<close> and \<open>Adapters\<close>.
\<close>

section \<open>From the manager to the daemon\<close>

text \<open>What the manager and a daemon's context rely on in a bounded tokio channel: while there is room, a send
  puts the signal at the end of its queue, and it does not touch other queues; a receive takes the first signal.\<close>

definition fifo_sender :: "('h, 'w) sender \<Rightarrow> ('h \<Rightarrow> 'w \<Rightarrow> bool) \<Rightarrow> ('h \<Rightarrow> 'w \<Rightarrow> signal list) \<Rightarrow> bool" where
  "fifo_sender send room queue \<longleftrightarrow>
     (\<forall>h s w. room h w \<longrightarrow> fst (send h s w) = Delivered \<and> queue h (snd (send h s w)) = queue h w @ [s])
     \<and> (\<forall>h g s w. g \<noteq> h \<longrightarrow> queue g (snd (send h s w)) = queue g w \<and> room g (snd (send h s w)) = room g w)"

definition drain :: "'rx receive \<Rightarrow> nat \<Rightarrow> 'rx daemon_context \<Rightarrow> 'rx daemon_context" where
  "drain recv n cx = run (context_step recv recv) cx (replicate n TryRecv)"

lemma drain_flag: "should_shutdown cx \<Longrightarrow> should_shutdown (drain recv n cx)"
  by (simp add: drain_def context_run_flag)

lemma drain_list:
  "\<exists>s\<in>set (cx_signal_rx cx). terminates s \<Longrightarrow> should_shutdown (drain list_recv (length (cx_signal_rx cx)) cx)"
proof (induction "cx_signal_rx cx" arbitrary: cx)
  case (Cons s q)
  let ?cx = "snd (try_recv_signal list_recv cx)"
  have recv: "try_recv_signal list_recv cx = (Some s, ?cx)" "cx_signal_rx ?cx = q"
    using Cons.hyps(2) [symmetric] by (simp_all add: try_recv_signal_def list_recv_def)
  have drain: "drain list_recv (length (cx_signal_rx cx)) cx = drain list_recv (length (cx_signal_rx ?cx)) ?cx"
    using Cons.hyps(2) [symmetric] recv by (simp add: drain_def)
  show ?case
  proof (cases "terminates s")
    case True
    then have "should_shutdown ?cx" using try_recv_signal_flag [of list_recv cx] recv(1) by (metis fst_conv)
    then show ?thesis unfolding drain by (rule drain_flag)
  next
    case False
    then have "\<exists>s\<in>set (cx_signal_rx ?cx). terminates s"
      using Cons.prems Cons.hyps(2) [symmetric] recv(2) by auto
    with Cons.hyps(1) [of ?cx] recv(2) drain show ?thesis by simp
  qed
qed simp

lemma shutdown_loop_delivers:
  assumes "fifo_sender send room queue" "distinct (List.map_filter (signal_target m) is)"
    and "\<And>h. h \<in> set (List.map_filter (signal_target m) is) \<Longrightarrow> room h w"
  shows "\<exists>w'. shutdown_loop p send is m w = (True, w')
    \<and> (\<forall>h. queue h w' = queue h w @ (if h \<in> set (List.map_filter (signal_target m) is) then [Term] else []))"
  using assms(2,3)
proof (induction "is" arbitrary: w)
  case (Cons i "is")
  show ?case
  proof (cases "signal_target m i")
    case None
    obtain e :: "unit daemon_error" where "signal_daemon p send i Term m w = (Some (Err e), w)"
      using signal_daemon_no_target [OF None, of p send Term w] by blast
    with None Cons show ?thesis by (simp add: map_filter_simps)
  next
    case (Some h)
    let ?w = "snd (send h Term w)" and ?hs = "List.map_filter (signal_target m) is"
    have hs: "List.map_filter (signal_target m) (i # is) = h # ?hs" using Some by (simp add: map_filter_simps)
    then have h: "room h w" "h \<notin> set ?hs" using Cons.prems by simp_all
    then have sent: "fst (send h Term w) = Delivered" "queue h ?w = queue h w @ [Term]"
      using assms(1) by (simp_all add: fifo_sender_def)
    have others: "g \<noteq> h \<Longrightarrow> queue g ?w = queue g w \<and> room g ?w = room g w" for g
      using assms(1) by (simp add: fifo_sender_def)
    then have "\<And>g. g \<in> set ?hs \<Longrightarrow> room g ?w" using Cons.prems(2) hs h(2) by (metis list.set_intros(2))
    then obtain w' where w': "shutdown_loop p send is m ?w = (True, w')"
      "\<And>g. queue g w' = queue g ?w @ (if g \<in> set ?hs then [Term] else [])"
      using Cons.IH [of ?w] Cons.prems(1) hs by auto
    have "signal_daemon p send i Term m w = (Some (Ok ()) :: (unit, unit) mresult option, ?w)"
      using signal_daemon_target [OF Some, of p send Term w] sent(1)
      by (cases "send h Term w") (simp add: send_signal_def)
    moreover have "queue g w' = queue g w @ (if g \<in> set (h # ?hs) then [Term] else [])" for g
      using w'(2) [of g] sent(2) others [of g] h(2) by (cases "g = h") auto
    ultimately show ?thesis unfolding hs using w'(1) by (intro exI [of _ w']) simp
  qed
qed (simp add: map_filter_simps)

lemma shutdown_queues_term:
  assumes "fifo_sender send room queue" "set (iter m) = dom (daemons m)"
    and "distinct (List.map_filter (signal_target m) (iter m))"
    and "\<And>h. h \<in> ran (signal_target m) \<Longrightarrow> room h w"
    and "signal_target m i = Some h"
    and "shutdown_all p iter send m w = (r :: ('io, unit) mresult option, w')"
  shows "r = Some (Ok ())" and "queue h w' = queue h w @ [Term]"
proof -
  have i: "i \<in> set (iter m)" using assms(2,5) by (auto simp: signal_target_def split: option.splits)
  have targets: "g \<in> set (List.map_filter (signal_target m) (iter m)) \<longleftrightarrow> (\<exists>j\<in>set (iter m). signal_target m j = Some g)" for g
    by (auto simp: set_map_filter_eq)
  then have "\<And>g. g \<in> set (List.map_filter (signal_target m) (iter m)) \<Longrightarrow> room g w"
    using assms(4) by (auto simp: ran_def)
  then obtain w1 where w1: "shutdown_loop p send (iter m) m w = (True, w1)"
    "\<And>g. queue g w1 = queue g w @ (if g \<in> set (List.map_filter (signal_target m) (iter m)) then [Term] else [])"
    using shutdown_loop_delivers [OF assms(1,3), of w p] by auto
  then have "queue h w1 = queue h w @ [Term]" using targets [of h] i assms(5) by auto
  moreover have "r = Some (Ok ())" "w' = w1"
    using w1(1) assms(6) by (simp_all add: shutdown_all_def list_daemons_def)
  ultimately show "r = Some (Ok ())" and "queue h w' = queue h w @ [Term]" by simp_all
qed

text \<open>C17: A shutdown reaches the daemons: when the channel of each daemon that can take signals has room for one more, a
  shutdown of all daemons returns, and each of these daemons, once it has received what is in its channel,
  is told to shut down by its context, whatever else was queued before. (One full channel holds the whole call up, since \<open>shutdown_all\<close> awaits each send.)\<close>

theorem shutdown_reaches_daemons:
  assumes "fifo_sender send room queue" "set (iter m) = dom (daemons m)"
    and "distinct (List.map_filter (signal_target m) (iter m))"
    and "\<And>h. h \<in> ran (signal_target m) \<Longrightarrow> room h w"
    and "signal_target m i = Some h"
    and "shutdown_all p iter send m w = (r :: ('io, unit) mresult option, w')" "cx_signal_rx cx = queue h w'"
  shows "r = Some (Ok ()) \<and> should_shutdown (drain list_recv (length (cx_signal_rx cx)) cx)"
proof -
  note sent = shutdown_queues_term [OF assms(1-6)]
  then have "should_shutdown (drain list_recv (length (cx_signal_rx cx)) cx)"
    using assms(7) by (intro drain_list) simp
  with sent show ?thesis by simp
qed

text \<open>Channels with room for four signals each, as functions from handles to queues.\<close>

definition small_room :: "nat \<Rightarrow> (nat \<Rightarrow> signal list) \<Rightarrow> bool" where
  "small_room h w \<longleftrightarrow> length (w h) < 4"

definition small_send :: "(nat, nat \<Rightarrow> signal list) sender" where
  "small_send h s w = (if small_room h w then (Delivered, w(h := w h @ [s])) else (Never_completes, w))"

text \<open>The registry of two daemons, of which the second takes signals and has one waiting.\<close>

lemma small_fifo: "fifo_sender small_send small_room (\<lambda>h w. w h)"
  by (auto simp: fifo_sender_def small_send_def small_room_def)

lemma two_daemons_targets: "signal_target two_daemons = [2 \<mapsto> 20]"
  by (rule ext) (simp add: two_daemons_def managed_new_def signal_target_def)

lemma two_daemons_iter: "set [1, 2] = dom (daemons two_daemons)"
  by (auto simp: two_daemons_def)

lemma two_daemons_distinct: "distinct (List.map_filter (signal_target two_daemons) [1, 2])"
  by (simp add: two_daemons_targets map_filter_simps)

lemma two_daemons_room: "h \<in> ran (signal_target two_daemons) \<Longrightarrow> small_room h ((\<lambda>_. [])(20 := [Hup]))"
  by (auto simp: two_daemons_targets small_room_def)

lemma two_daemons_target: "signal_target two_daemons 2 = Some 20"
  by (simp add: two_daemons_targets)

lemma two_daemons_shutdown:
  "shutdown_all (\<lambda>_. ''d'') (\<lambda>_. [1, 2]) small_send two_daemons ((\<lambda>_. [])(20 := [Hup]))
   = (Some (Ok ()) :: (unit, unit) mresult option, (\<lambda>_. [])(20 := [Hup, Term]))"
  by (simp add: shutdown_all_def list_daemons_def two_daemons_def managed_new_def signal_daemon_def find_daemon_def
      send_signal_def small_send_def small_room_def)

theorem shutdown_reaches_daemons_witness:
  "should_shutdown (drain list_recv 2 (fst (context_new [Hup, Term] () (config_new ''b'' ''/b''))))"
proof -
  let ?cx = "fst (context_new [Hup, Term] () (config_new ''b'' ''/b''))"
  have "Some (Ok ()) = (Some (Ok ()) :: (unit, unit) mresult option)
      \<and> should_shutdown (drain list_recv (length (cx_signal_rx ?cx)) ?cx)"
    by (rule shutdown_reaches_daemons [OF small_fifo two_daemons_iter two_daemons_distinct _ two_daemons_target
          two_daemons_shutdown])
      (simp_all add: two_daemons_room context_new_def)
  then show ?thesis by (simp add: context_new_def numeral_2_eq_2)
qed

section \<open>From the manager to the counter daemon\<close>

text \<open>A loop that finds anything in its channel takes its last turn.\<close>

lemma counter_run_last_turn:
  assumes "cx_signal_rx cx \<noteq> []" "bld = Release \<or> unat (cd_counter (adapter u)) + 1 < 2 ^ 64"
  shows "\<exists>printed' cx' u'. counter_run 1 bld ps list_recv slp printed cx u
        = Some (Ok Graceful :: ('io daemon_error, exit_reason) outcome, printed', cx', u')
    \<and> length printed' \<le> length printed + 1 \<and> clock u' = clock u"
proof -
  obtain s q where "cx_signal_rx cx = s # q" using assms(1) by (cases "cx_signal_rx cx") auto
  moreover have "uadd bld (cd_counter (adapter u)) 1 = Some (cd_counter (adapter u) + 1)"
    using assms(2) uadd_in_range [of "cd_counter (adapter u)" 1 bld] by (auto simp: uadd_def)
  ultimately show ?thesis
    by (cases "should_shutdown cx") (simp_all add: Let_def try_recv_signal_def list_recv_def)
qed

text \<open>C18: A shutdown of all daemons ends the counter daemon: when the channel of each daemon that can take signals has
  room, the counter daemon, which is one of them, running or not yet started, asleep between two turns or about to look,
  takes at most one more turn and returns gracefully, without waiting again. (In a debug build its counter
  must be below the maximum, at which the next turn would panic.)\<close>

theorem shutdown_ends_counter_daemon:
  fixes u :: "'v counter_world"
  assumes "fifo_sender send room queue" "set (iter m) = dom (daemons m)"
    and "distinct (List.map_filter (signal_target m) (iter m))"
    and "\<And>h. h \<in> ran (signal_target m) \<Longrightarrow> room h w"
    and "signal_target m i = Some h"
    and "shutdown_all p iter send m w = (r :: ('io, unit) mresult option, w')" "cx_signal_rx cx = queue h w'"
    and "bld = Release \<or> unat (cd_counter (adapter u)) + 1 < 2 ^ 64"
  shows "r = Some (Ok ()) \<and>
    (\<exists>printed' cx' u'. counter_run 1 bld ps list_recv slp printed cx u
        = Some (Ok Graceful :: ('io daemon_error, exit_reason) outcome, printed', cx', u')
      \<and> length printed' \<le> length printed + 1 \<and> clock u' = clock u)"
proof
  note sent = shutdown_queues_term [OF assms(1-6)]
  from sent(1) show "r = Some (Ok ())" .
  from sent(2) have "cx_signal_rx cx \<noteq> []" using assms(7) by simp
  then show "\<exists>printed' cx' u'. counter_run 1 bld ps list_recv slp printed cx u
        = Some (Ok Graceful :: ('io daemon_error, exit_reason) outcome, printed', cx', u')
      \<and> length printed' \<le> length printed + 1 \<and> clock u' = clock u"
    using assms(8) by (rule counter_run_last_turn)
qed

theorem shutdown_ends_counter_daemon_witness:
  "\<exists>printed' cx' u'. counter_run 1 Debug (\<lambda>_. None) list_recv (\<lambda>d x. (0, x)) []
        (fst (context_new [Hup, Term] () (config_new ''b'' ''/b'')))
        \<lparr>clock = 5, adapter = counter_new 2 0 ''b'', os = ()\<rparr>
      = Some (Ok Graceful :: (unit daemon_error, exit_reason) outcome, printed', cx', u')
    \<and> length printed' \<le> 1 \<and> clock u' = 5"
proof -
  let ?u = "\<lparr>clock = 5, adapter = counter_new 2 0 ''b'', os = ()\<rparr>"
  let ?cx = "fst (context_new [Hup, Term] () (config_new ''b'' ''/b''))"
  have "Some (Ok ()) = (Some (Ok ()) :: (unit, unit) mresult option) \<and>
    (\<exists>printed' cx' u'. counter_run 1 Debug (\<lambda>_. None) list_recv (\<lambda>d x. (0, x)) [] ?cx ?u
        = Some (Ok Graceful :: (unit daemon_error, exit_reason) outcome, printed', cx', u')
      \<and> length printed' \<le> length ([] :: status_line list) + 1 \<and> clock u' = clock ?u)"
    by (rule shutdown_ends_counter_daemon [OF small_fifo two_daemons_iter two_daemons_distinct _ two_daemons_target
          two_daemons_shutdown])
      (simp_all add: two_daemons_room context_new_def counter_new_def)
  then show ?thesis by simp
qed

end
